theory Spec2Isabelle
  imports Main "HOL-Library.Sublist"
begin

section \<open>Data model\<close>

text \<open>
  The enums of the first migration. The event types carry the prefix \<open>E_\<close> because three
  of them (SITE_GENERATED, IMAGES_READY, DEPLOYED) are also lead statuses.
\<close>

datatype LeadStatus =
  NEW | SCRAPED | ENRICHED | SITE_GENERATED | IMAGES_READY | DEPLOYED
  | EMAILED_1 | CALLED_1 | REPLIED | BOOKED | DO_NOT_CONTACT

datatype CampaignStatus = CREATED | RUNNING | COMPLETE | FAILED

datatype EventType =
  E_CAMPAIGN_CREATED | E_LEAD_SCRAPED | E_SCRAPE_COMPLETED | E_LEAD_ENRICHED
  | E_SITE_GENERATED | E_IMAGES_READY | E_DEPLOYED | E_SITE_DEPLOYED | E_EMAIL_SENT
  | E_CALL_PLACED | E_CALL_RESULT | E_LEAD_REPLIED | E_LEAD_BOOKED | E_ERROR

text \<open>JSON values, for the \<open>metadata\<close> and \<open>result\<close> columns (JSONB).\<close>

datatype json =
  JNull | JBool bool | JNum int | JStr string | JArr "json list" | JObj "(string \<times> json) list"

text \<open>
  What a handler can throw: \<open>new Error(message)\<close>, a TypeError of the runtime, and the
  Prisma client's known request errors, by code and message (P2002 unique constraint,
  P2003 foreign key constraint, P2025 record not found).
\<close>

datatype error = Error string | TypeError string | PrismaClientKnownRequestError string string

text \<open>\<open>error.message\<close>; a Prisma error is an \<open>Error\<close> with a code and a message.\<close>

fun message :: "error \<Rightarrow> string" where
  "message (Error m) = m"
| "message (TypeError m) = m"
| "message (PrismaClientKnownRequestError code m) = m"

definition uniqueConstraintFailed :: error where
  "uniqueConstraintFailed = PrismaClientKnownRequestError ''P2002'' ''Unique constraint failed''"

definition foreignKeyFailed :: error where
  "foreignKeyFailed = PrismaClientKnownRequestError ''P2003'' ''Foreign key constraint failed''"

definition recordNotFound :: error where
  "recordNotFound = PrismaClientKnownRequestError ''P2025'' ''Record not found''"

text \<open>
  The rows. Field names are the columns' names; where two tables have a column of the same
  name the field carries the table's prefix (\<open>id\<close> is also a HOL constant). Timestamps
  are not modelled: the event log is kept in insertion order.
\<close>

record Campaign =
  campaign_id :: string
  niche :: string
  city :: string
  campaign_limit :: int
  campaign_status :: CampaignStatus

record Lead =
  lead_id :: string
  campaignId :: string
  businessName :: "string option"
  websiteUrl :: "string option"
  phone :: "string option"
  email :: "string option"
  address :: "string option"
  sourceUrl :: "string option"
  demoUrl :: "string option"
  heroImageUrl :: "string option"
  serviceImageUrls :: "string list"
  status :: LeadStatus
  doNotContact :: bool
  emailSentCount :: int
  callAttempts :: int
  interested :: bool
  booked :: bool
  lastError :: "string option"

record Event =
  event_campaignId :: string
  event_leadId :: "string option"
  event_type :: EventType
  metadata :: json

record IdempotencyKey =
  ik_key :: string
  ik_stage :: string
  ik_campaignId :: "string option"
  ik_leadId :: "string option"
  ik_result :: "json option"

text \<open>Provider inputs (src/providers/interfaces) and queue entries (src/queue).\<close>

record EmailSendInput =
  email_to :: string
  subject :: string
  html :: string
  text_body :: string
  headers :: "(string \<times> string) list"

record PlaceCallInput =
  call_to :: string
  script :: string
  callbackUrl :: string

record CallQueueEntry =
  cq_leadId :: string
  cq_attempt :: int
  cq_delay :: "int option"

record EmailQueueEntry =
  eq_leadId :: string
  eq_step :: int

text \<open>
  The state every handler works on: the four tables, the queues, the calls made to the two
  contact providers, the console log and the counter behind generated lead ids. The
  IdempotencyKey table is only ever addressed by its primary key, so it is a map; the
  other tables are lists of rows because they are searched by other columns.
\<close>

record world =
  campaigns :: "Campaign list"
  leads :: "Lead list"
  events :: "Event list"
  idempotencyKeys :: "string \<rightharpoonup> IdempotencyKey"
  enrichQueue :: "string list"
  siteQueue :: "string list"
  imageQueue :: "string list"
  deployQueue :: "string list"
  emailQueue :: "EmailQueueEntry list"
  callQueue :: "CallQueueEntry list"
  emailCalls :: "EmailSendInput list"
  callCalls :: "PlaceCallInput list"
  logs :: "string list"
  idCounter :: nat

definition emptyWorld :: world where
  "emptyWorld = \<lparr>campaigns = [], leads = [], events = [], idempotencyKeys = Map.empty,
     enrichQueue = [], siteQueue = [], imageQueue = [], deployQueue = [], emailQueue = [],
     callQueue = [], emailCalls = [], callCalls = [], logs = [], idCounter = 0\<rparr>"

text \<open>
  An async function that may throw: it takes the state and returns the thrown error or the
  value, with the state as it is at that point (nothing is rolled back: no handler opens a
  transaction).
\<close>

type_synonym 'a prog = "world \<Rightarrow> (error + 'a) \<times> world"

definition andThen :: "'a prog \<Rightarrow> ('a \<Rightarrow> 'b prog) \<Rightarrow> 'b prog" where
  "andThen m f w = (case m w of (Inl e, w') \<Rightarrow> (Inl e, w') | (Inr x, w') \<Rightarrow> f x w')"

definition logLine :: "string \<Rightarrow> world \<Rightarrow> world" where
  "logLine s w = w\<lparr>logs := logs w @ [s]\<rparr>"

text \<open>The \<open>logMessage\<close> of every worker file, with the file's \<open>workerName\<close> as argument.\<close>

definition logMessage :: "string \<Rightarrow> string \<Rightarrow> string \<Rightarrow> string \<Rightarrow> world \<Rightarrow> world" where
  "logMessage workerName cid lid msg =
     logLine (''['' @ cid @ '']['' @ lid @ '']['' @ workerName @ ''] '' @ msg)"

section \<open>The idempotency store and the stage runner (src/workers/base-worker.ts)\<close>

definition idempotencyKey_findUnique :: "string \<Rightarrow> world \<Rightarrow> IdempotencyKey option" where
  "idempotencyKey_findUnique k w = idempotencyKeys w k"

definition idempotencyKey_create :: "IdempotencyKey \<Rightarrow> unit prog" where
  "idempotencyKey_create row w =
     (case idempotencyKeys w (ik_key row) of
        Some _ \<Rightarrow> (Inl uniqueConstraintFailed, w)
      | None \<Rightarrow> (Inr (), w\<lparr>idempotencyKeys := (idempotencyKeys w)(ik_key row \<mapsto> row)\<rparr>))"

definition idempotencyKey_update :: "string \<Rightarrow> json \<Rightarrow> unit prog" where
  "idempotencyKey_update k r w =
     (case idempotencyKeys w k of
        None \<Rightarrow> (Inl recordNotFound, w)
      | Some row \<Rightarrow>
          (Inr (), w\<lparr>idempotencyKeys := (idempotencyKeys w)(k \<mapsto> row\<lparr>ik_result := Some r\<rparr>)\<rparr>))"

definition idempotencyKey_delete :: "string \<Rightarrow> unit prog" where
  "idempotencyKey_delete k w =
     (case idempotencyKeys w k of
        None \<Rightarrow> (Inl recordNotFound, w)
      | Some _ \<Rightarrow> (Inr (), w\<lparr>idempotencyKeys := (idempotencyKeys w)(k := None)\<rparr>))"

record RunIdempotentStageInput =
  key :: string
  stage :: string
  in_campaignId :: string
  in_leadId :: string
  workerName :: string
  run :: "json prog"

record RunIdempotentStageOutput =
  executed :: bool
  result :: json

text \<open>
  \<open>isJsonObject(metadata) && "value" in metadata\<close>, giving \<open>metadata.value\<close>: the
  column holds an object (not null, not an array) that has the key.
\<close>

definition committedValue :: "json option \<Rightarrow> json option" where
  "committedValue m = (case m of Some (JObj kvs) \<Rightarrow> map_of kvs ''value'' | _ \<Rightarrow> None)"

definition idempotencyHitLog :: "RunIdempotentStageInput \<Rightarrow> world \<Rightarrow> world" where
  "idempotencyHitLog input =
     logLine (''['' @ in_campaignId input @ '']['' @ in_leadId input @ '']['' @ workerName input
       @ ''] idempotency hit for key='' @ key input @ '' (in-flight/unknown), skipping'')"

text \<open>The \<open>catch\<close> block: delete the claim row, then rethrow.\<close>

definition releaseClaim :: "string \<Rightarrow> error \<Rightarrow> 'a prog" where
  "releaseClaim k e w =
     (case idempotencyKey_delete k w of
        (Inl e', w') \<Rightarrow> (Inl e', w')
      | (Inr _, w') \<Rightarrow> (Inl e, w'))"

definition runIdempotentStage :: "RunIdempotentStageInput \<Rightarrow> RunIdempotentStageOutput prog" where
  "runIdempotentStage input w =
     (case idempotencyKey_findUnique (key input) w of
        Some existing \<Rightarrow>
          (case committedValue (ik_result existing) of
             Some v \<Rightarrow> (Inr \<lparr>executed = False, result = v\<rparr>, w)
           | None \<Rightarrow> (Inr \<lparr>executed = False, result = JNull\<rparr>, idempotencyHitLog input w))
      | None \<Rightarrow>
          (case idempotencyKey_create
                  \<lparr>ik_key = key input, ik_stage = stage input,
                   ik_campaignId = Some (in_campaignId input),
                   ik_leadId = Some (in_leadId input), ik_result = None\<rparr> w of
             (Inl e, w1) \<Rightarrow> (Inl e, w1)
           | (Inr _, w1) \<Rightarrow>
               (case run input w1 of
                  (Inl e, w2) \<Rightarrow> releaseClaim (key input) e w2
                | (Inr r, w2) \<Rightarrow>
                    (case idempotencyKey_update (key input) (JObj [(''value'', r)]) w2 of
                       (Inl e, w3) \<Rightarrow> releaseClaim (key input) e w3
                     | (Inr _, w3) \<Rightarrow> (Inr \<lparr>executed = True, result = r\<rparr>, w3)))))"

section \<open>Strings and values of the runtime\<close>

text \<open>
  Strings are byte strings (UTF-8). \<open>toLowerCase\<close> is modelled on the letters A to Z.
  The runtime also lower-cases letters outside ASCII, and two of them give text with an
  ASCII letter in it: the Kelvin sign gives k, and the dotted capital I gives i followed by
  a combining dot. No text the handlers search for contains a k, and none contains an i
  followed by a combining dot, so the searches below find what the runtime finds.
\<close>

definition toLowerCase :: "string \<Rightarrow> string" where
  "toLowerCase s =
     map (\<lambda>c. case map_of (zip ''ABCDEFGHIJKLMNOPQRSTUVWXYZ'' ''abcdefghijklmnopqrstuvwxyz'') c of
                 Some d \<Rightarrow> d | None \<Rightarrow> c) s"

fun startsWith :: "string \<Rightarrow> string \<Rightarrow> bool" where
  "startsWith s [] = True"
| "startsWith [] (p # ps) = False"
| "startsWith (c # cs) (p # ps) = (c = p \<and> startsWith cs ps)"

text \<open>\<open>s.includes(p)\<close>: p starts at some position of s.\<close>

fun str_includes :: "string \<Rightarrow> string \<Rightarrow> bool" where
  "str_includes [] p = startsWith [] p"
| "str_includes (c # cs) p = (startsWith (c # cs) p \<or> str_includes cs p)"

text \<open>\<open>xs.join(sep)\<close>.\<close>

fun join :: "string list \<Rightarrow> string \<Rightarrow> string" where
  "join [] sep = []"
| "join [x] sep = x"
| "join (x # y # ys) sep = x @ sep @ join (y # ys) sep"

text \<open>\<open>String(n)\<close> and \<open>${n}\<close> for an integer n.\<close>

fun digits :: "nat \<Rightarrow> string" where
  "digits n = (if n < 10 then [''0123456789'' ! n] else digits (n div 10) @ [''0123456789'' ! (n mod 10)])"

declare digits.simps [simp del]

definition String :: "int \<Rightarrow> string" where
  "String n = (if n < 0 then ''-'' @ digits (nat (- n)) else digits (nat n))"

text \<open>The truth value of a \<open>string | null\<close>: null and the empty string are falsy.\<close>

definition truthy :: "string option \<Rightarrow> bool" where
  "truthy s = (case s of None \<Rightarrow> False | Some x \<Rightarrow> x \<noteq> [])"

text \<open>\<open>s ?? d\<close>.\<close>

definition orElse :: "'a option \<Rightarrow> 'a \<Rightarrow> 'a" where
  "orElse s d = (case s of None \<Rightarrow> d | Some x \<Rightarrow> x)"

definition jsonOfOption :: "string option \<Rightarrow> json" where
  "jsonOfOption s = (case s of None \<Rightarrow> JNull | Some x \<Rightarrow> JStr x)"

section \<open>The tables (Prisma client calls)\<close>

text \<open>
  A write fails on a primary key or unique index conflict (P2002), on a missing row
  (P2025) and, for the Event table, on a foreign key that names no row (P2003). The
  availability of the database and of the queue broker is not modelled: a queue
  \<open>add\<close> always succeeds. The inserts into Lead and IdempotencyKey are made with the
  ids of rows the caller has just loaded or created; their foreign keys are not checked.
\<close>

definition effect :: "(world \<Rightarrow> world) \<Rightarrow> unit prog" where
  "effect f w = (Inr (), f w)"

definition throw :: "error \<Rightarrow> 'a prog" where
  "throw e w = (Inl e, w)"

definition lead_findUnique :: "string \<Rightarrow> world \<Rightarrow> Lead option" where
  "lead_findUnique i w = find (\<lambda>l. lead_id l = i) (leads w)"

text \<open>
  \<open>prisma.lead.update({where: {id}, data})\<close>; \<open>data\<close> is the function applied to the row
  (an \<open>increment\<close> reads the stored value). No call site assigns \<open>id\<close>,
  \<open>campaignId\<close> or \<open>websiteUrl\<close>, so an update cannot meet the unique index.
\<close>

definition lead_update :: "string \<Rightarrow> (Lead \<Rightarrow> Lead) \<Rightarrow> unit prog" where
  "lead_update i data w =
     (case lead_findUnique i w of
        None \<Rightarrow> (Inl recordNotFound, w)
      | Some _ \<Rightarrow> (Inr (), w\<lparr>leads := map (\<lambda>l. if lead_id l = i then data l else l) (leads w)\<rparr>))"

text \<open>The column defaults of the Lead table; \<open>id\<close> and \<open>campaignId\<close> are always given.\<close>

definition leadDefaults :: Lead where
  "leadDefaults =
     \<lparr>lead_id = [], campaignId = [], businessName = None, websiteUrl = None, phone = None,
      email = None, address = None, sourceUrl = None, demoUrl = None, heroImageUrl = None,
      serviceImageUrls = [], status = NEW, doNotContact = False, emailSentCount = 0,
      callAttempts = 0, interested = False, booked = False, lastError = None\<rparr>"

text \<open>
  \<open>prisma.lead.create({data})\<close>: the client generates the id (the n-th generated id is a
  parameter), the database checks the primary key and the unique index
  \<open>Lead_campaignId_websiteUrl_key\<close>, in which rows with a null \<open>websiteUrl\<close> never
  conflict.
\<close>

definition lead_create :: "(nat \<Rightarrow> string) \<Rightarrow> Lead \<Rightarrow> Lead prog" where
  "lead_create newLeadId data w =
     (let row = data\<lparr>lead_id := newLeadId (idCounter w)\<rparr>;
          w1 = w\<lparr>idCounter := Suc (idCounter w)\<rparr>
      in if list_ex (\<lambda>l. lead_id l = lead_id row) (leads w) then (Inl uniqueConstraintFailed, w1)
         else if websiteUrl row \<noteq> None \<and>
                 list_ex (\<lambda>l. campaignId l = campaignId row \<and> websiteUrl l = websiteUrl row) (leads w)
         then (Inl uniqueConstraintFailed, w1)
         else (Inr row, w1\<lparr>leads := leads w @ [row]\<rparr>))"

text \<open>
  \<open>prisma.lead.upsert({where: {campaignId_websiteUrl: {campaignId, websiteUrl}}, update,
  create})\<close>: the row with that pair is updated when there is one, else a row is created.
\<close>

definition lead_upsert ::
  "(nat \<Rightarrow> string) \<Rightarrow> string \<Rightarrow> string \<Rightarrow> (Lead \<Rightarrow> Lead) \<Rightarrow> Lead \<Rightarrow> Lead prog" where
  "lead_upsert newLeadId cid url update create w =
     (case find (\<lambda>l. campaignId l = cid \<and> websiteUrl l = Some url) (leads w) of
        Some existing \<Rightarrow>
          (Inr (update existing),
           w\<lparr>leads := map (\<lambda>l. if campaignId l = cid \<and> websiteUrl l = Some url then update l else l)
                          (leads w)\<rparr>)
      | None \<Rightarrow> lead_create newLeadId create w)"

definition campaign_findUnique :: "string \<Rightarrow> world \<Rightarrow> Campaign option" where
  "campaign_findUnique i w = find (\<lambda>c. campaign_id c = i) (campaigns w)"

definition campaign_update :: "string \<Rightarrow> (Campaign \<Rightarrow> Campaign) \<Rightarrow> unit prog" where
  "campaign_update i data w =
     (case campaign_findUnique i w of
        None \<Rightarrow> (Inl recordNotFound, w)
      | Some _ \<Rightarrow>
          (Inr (), w\<lparr>campaigns := map (\<lambda>c. if campaign_id c = i then data c else c) (campaigns w)\<rparr>))"

text \<open>
  The rows a foreign key can name. \<open>Lead.campaignId\<close> is itself a foreign key to Campaign
  (\<open>Lead_campaignId_fkey\<close>, with cascading delete), so in the database the campaign of a
  stored lead is a stored campaign. A state of the model lists leads and campaigns
  separately; the campaigns the database holds are those of the Campaign table together
  with those the stored leads belong to.
\<close>

definition campaignStored :: "string \<Rightarrow> Campaign list \<Rightarrow> Lead list \<Rightarrow> bool" where
  "campaignStored cid cs ls =
     (list_ex (\<lambda>c. campaign_id c = cid) cs \<or> list_ex (\<lambda>l. campaignId l = cid) ls)"

definition leadStored :: "string \<Rightarrow> Lead list \<Rightarrow> bool" where
  "leadStored lid ls = list_ex (\<lambda>l. lead_id l = lid) ls"

text \<open>
  \<open>prisma.event.create({data})\<close>: the database checks \<open>Event_campaignId_fkey\<close> and,
  when \<open>leadId\<close> is not null, \<open>Event_leadId_fkey\<close>; an insert that names a campaign or
  a lead the database does not hold throws and stores nothing.
\<close>

definition event_create :: "Event \<Rightarrow> unit prog" where
  "event_create ev w =
     (if campaignStored (event_campaignId ev) (campaigns w) (leads w) \<and>
         (case event_leadId ev of None \<Rightarrow> True | Some lid \<Rightarrow> leadStored lid (leads w))
      then (Inr (), w\<lparr>events := events w @ [ev]\<rparr>)
      else (Inl foreignKeyFailed, w))"

text \<open>
  The latest event of a lead with a given type (\<open>findFirst\<close>, or \<open>findMany\<close> with
  \<open>take: 1\<close>, ordered by \<open>createdAt\<close> descending).
\<close>

definition event_findLatest :: "string \<Rightarrow> string \<Rightarrow> EventType \<Rightarrow> world \<Rightarrow> Event option" where
  "event_findLatest cid lid ty w =
     find (\<lambda>ev. event_campaignId ev = cid \<and> event_leadId ev = Some lid \<and> event_type ev = ty)
       (rev (events w))"

subsection \<open>Queues (src/queue/index.ts)\<close>

definition enqueueEnrich :: "string \<Rightarrow> unit prog" where
  "enqueueEnrich lid = effect (\<lambda>w. w\<lparr>enrichQueue := enrichQueue w @ [lid]\<rparr>)"

definition enqueueSite :: "string \<Rightarrow> unit prog" where
  "enqueueSite lid = effect (\<lambda>w. w\<lparr>siteQueue := siteQueue w @ [lid]\<rparr>)"

definition enqueueImage :: "string \<Rightarrow> unit prog" where
  "enqueueImage lid = effect (\<lambda>w. w\<lparr>imageQueue := imageQueue w @ [lid]\<rparr>)"

definition enqueueDeploy :: "string \<Rightarrow> unit prog" where
  "enqueueDeploy lid = effect (\<lambda>w. w\<lparr>deployQueue := deployQueue w @ [lid]\<rparr>)"

definition enqueueEmail :: "EmailQueueEntry \<Rightarrow> unit prog" where
  "enqueueEmail j = effect (\<lambda>w. w\<lparr>emailQueue := emailQueue w @ [j]\<rparr>)"

definition callQueue_add :: "CallQueueEntry \<Rightarrow> unit prog" where
  "callQueue_add j = effect (\<lambda>w. w\<lparr>callQueue := callQueue w @ [j]\<rparr>)"

section \<open>External collaborators\<close>

text \<open>
  The network, the file system, HTML parsing, regular expressions, the providers and the
  process environment are parameters of the handlers. A provider sees the calls made to it
  before, so it may answer a repeated call differently.
\<close>

record ListingRecord =
  li_businessName :: string
  li_websiteUrl :: "string option"
  li_phone :: "string option"
  li_email :: "string option"
  li_address :: "string option"
  li_sourceUrl :: "string option"

text \<open>
  What \<open>fetch\<close> does in \<open>safeFetchHtml\<close>: it throws (network error, abort by the timer),
  or gives a response with \<open>ok\<close>, the content-type header and the body (None when reading
  the body throws).
\<close>

datatype fetchResult = FetchThrows | FetchResponse bool "string option" "string option"

record GenerateSiteInput =
  gs_leadId :: string
  gs_businessName :: string
  gs_city :: string
  gs_services :: "string list"
  gs_phone :: "string option"
  gs_email :: "string option"

record GenerateSiteOutput =
  zipPath :: string
  summary :: string

record env =
  scrapeListings :: "string \<Rightarrow> string \<Rightarrow> int \<Rightarrow> error + ListingRecord list"
  newLeadId :: "nat \<Rightarrow> string"
  toAbsoluteUrl :: "string \<Rightarrow> string \<Rightarrow> error + string"
  fetch :: "string \<Rightarrow> fetchResult"
  rootText :: "string \<Rightarrow> string"
  bestGuessPhone :: "string \<Rightarrow> string option"
  bestGuessEmail :: "string \<Rightarrow> string option"
  headingKeywords :: "string \<Rightarrow> string list"
  generateSite :: "GenerateSiteInput \<Rightarrow> error + GenerateSiteOutput"
  leadImages :: "string \<Rightarrow> string \<Rightarrow> string \<Rightarrow> error + string \<times> string list"
  injectImageUrls :: "string \<Rightarrow> string option \<Rightarrow> string list \<Rightarrow> error + string"
  deploy :: "string \<Rightarrow> string \<Rightarrow> error + string"
  sendEmail :: "EmailSendInput list \<Rightarrow> EmailSendInput \<Rightarrow> error + string"
  placeCall :: "PlaceCallInput list \<Rightarrow> PlaceCallInput \<Rightarrow> error + string"
  CALL_WEBHOOK_BASE_URL :: "string option"
  zodErrorDetails :: "json \<Rightarrow> json"

section \<open>The Call stage (src/workers/caller.ts)\<close>

definition buildCallScript :: "string \<Rightarrow> string \<Rightarrow> string" where
  "buildCallScript name url =
     ''Hi, is this the owner of '' @ name
       @ ''? I sent a quick website preview earlier. Can I resend the link? '' @ url"

text \<open>
  The \<open>run\<close> closure of the Call stage. The provider call is recorded before its outcome
  is known: a call that throws has still been made.
\<close>

definition callStageRun ::
  "env \<Rightarrow> Lead \<Rightarrow> string \<Rightarrow> int \<Rightarrow> string \<Rightarrow> string \<Rightarrow> json prog" where
  "callStageRun env lead to attempt callScript callback w =
     (let input = \<lparr>call_to = to, script = callScript, callbackUrl = callback\<rparr>;
          w1 = w\<lparr>callCalls := callCalls w @ [input]\<rparr>
      in case placeCall env (callCalls w) input of
           Inl e \<Rightarrow> (Inl e, w1)
         | Inr callId \<Rightarrow>
             andThen (lead_update (lead_id lead)
                        (\<lambda>l. l\<lparr>callAttempts := callAttempts l + 1, status := CALLED_1,
                                lastError := None\<rparr>))
               (\<lambda>_. andThen (event_create
                        \<lparr>event_campaignId = campaignId lead, event_leadId = Some (lead_id lead),
                         event_type = E_CALL_PLACED,
                         metadata = JObj [(''attempt'', JNum attempt), (''callId'', JStr callId),
                                          (''callbackUrl'', JStr callback)]\<rparr>)
               (\<lambda>_ w'. (Inr (JObj [(''callId'', JStr callId)]), w'))) w1)"

definition processCallJob :: "env \<Rightarrow> string \<Rightarrow> int \<Rightarrow> unit prog" where
  "processCallJob env leadId attempt w =
     (case lead_findUnique leadId w of
        None \<Rightarrow> (Inl (Error (''Lead not found: '' @ leadId)), w)
      | Some lead \<Rightarrow>
          if doNotContact lead
          then (Inr (), logMessage ''caller'' (campaignId lead) (lead_id lead)
                          ''skipped call (doNotContact=true)'' w)
          else if \<not> truthy (phone lead)
          then (Inr (), logMessage ''caller'' (campaignId lead) (lead_id lead)
                          ''skipped call (missing phone)'' w)
          else if callAttempts lead \<ge> 2
          then (Inr (), logMessage ''caller'' (campaignId lead) (lead_id lead)
                          ''skipped call (callAttempts >= 2)'' w)
          else
            let name = orElse (businessName lead) ''your business'';
                url = orElse (demoUrl lead) ''the preview link'';
                callbackBase = orElse (CALL_WEBHOOK_BASE_URL env) ''http://localhost:3000'';
                callback = callbackBase @ ''/webhooks/calls/fake'';
                callScript = buildCallScript name url;
                idemKey = ''call:'' @ lead_id lead @ '':attempt:'' @ String attempt
            in (case runIdempotentStage
                      \<lparr>key = idemKey, stage = ''call'', in_campaignId = campaignId lead,
                       in_leadId = lead_id lead, workerName = ''caller'',
                       run = callStageRun env lead (orElse (phone lead) []) attempt callScript callback\<rparr>
                      w of
                 (Inl e, w') \<Rightarrow> (Inl e, w')
               | (Inr stageResult, w') \<Rightarrow>
                   if \<not> executed stageResult
                   then (Inr (), logMessage ''caller'' (campaignId lead) (lead_id lead)
                                   (''idempotency skip for attempt '' @ String attempt) w')
                   else (Inr (), logMessage ''caller'' (campaignId lead) (lead_id lead)
                                   (''call attempt '' @ String attempt @ '' placed'') w')))"

section \<open>The Email stage (src/workers/caller.ts, second file)\<close>

definition followUpCallDelayMs :: int where
  "followUpCallDelayMs = 30 * 60 * 1000"

definition buildSubject :: "string \<Rightarrow> int \<Rightarrow> string" where
  "buildSubject name step =
     (if step = 1 then ''Built this for '' @ name else ''Quick follow-up: website preview'')"

definition buildBody :: "string \<Rightarrow> string \<Rightarrow> int \<Rightarrow> string \<times> string" where
  "buildBody name url step =
     (if step = 1
      then (''<p>Hi '' @ name @ '',</p><p>I built a quick website preview for your business:</p><p><a href=''
              @ [CHR 0x22] @ url @ [CHR 0x22] @ ''>'' @ url
              @ ''</a></p><p>If useful, I can customize it further.</p>'',
            ''Hi '' @ name @ '','' @ [CHR 0x0A, CHR 0x0A]
              @ ''I built a quick website preview for your business:'' @ [CHR 0x0A] @ url
              @ [CHR 0x0A, CHR 0x0A] @ ''If useful, I can customize it further.'')
      else (''<p>Quick follow-up for '' @ name
              @ ''.</p><p>Your website preview is still live here:</p><p><a href=''
              @ [CHR 0x22] @ url @ [CHR 0x22] @ ''>'' @ url @ ''</a></p>'',
            ''Quick follow-up for '' @ name @ ''.'' @ [CHR 0x0A, CHR 0x0A]
              @ ''Your website preview is still live here:'' @ [CHR 0x0A] @ url))"

definition emailStageRun ::
  "env \<Rightarrow> Lead \<Rightarrow> string \<Rightarrow> int \<Rightarrow> string \<Rightarrow> string \<times> string \<Rightarrow> json prog" where
  "emailStageRun env lead to step subj body w =
     (let input = \<lparr>email_to = to, subject = subj, html = fst body, text_body = snd body,
                   headers = [(''x-campaign-id'', campaignId lead), (''x-lead-id'', lead_id lead),
                              (''x-email-step'', String step)]\<rparr>;
          w1 = w\<lparr>emailCalls := emailCalls w @ [input]\<rparr>
      in case sendEmail env (emailCalls w) input of
           Inl e \<Rightarrow> (Inl e, w1)
         | Inr messageId \<Rightarrow>
             andThen (lead_update (lead_id lead)
                        (\<lambda>l. l\<lparr>emailSentCount := emailSentCount l + 1, status := EMAILED_1,
                                lastError := None\<rparr>))
               (\<lambda>_. andThen (event_create
                        \<lparr>event_campaignId = campaignId lead, event_leadId = Some (lead_id lead),
                         event_type = E_EMAIL_SENT,
                         metadata = JObj [(''step'', JNum step), (''providerMessageId'', JStr messageId),
                                          (''subject'', JStr subj)]\<rparr>)
               (\<lambda>_. andThen (callQueue_add
                        \<lparr>cq_leadId = lead_id lead, cq_attempt = 1,
                         cq_delay = Some followUpCallDelayMs\<rparr>)
               (\<lambda>_ w'. (Inr (JObj [(''providerMessageId'', JStr messageId)]), w')))) w1)"

definition processEmailJob :: "env \<Rightarrow> string \<Rightarrow> int \<Rightarrow> unit prog" where
  "processEmailJob env leadId step w =
     (case lead_findUnique leadId w of
        None \<Rightarrow> (Inl (Error (''Lead not found: '' @ leadId)), w)
      | Some lead \<Rightarrow>
          if doNotContact lead
          then (Inr (), logMessage ''emailer'' (campaignId lead) (lead_id lead)
                          ''skipped email (doNotContact=true)'' w)
          else if \<not> truthy (email lead)
          then (Inr (), logMessage ''emailer'' (campaignId lead) (lead_id lead)
                          ''skipped email (missing email)'' w)
          else if \<not> truthy (demoUrl lead)
          then (Inl (Error (''Lead '' @ lead_id lead @ '' missing demoUrl; cannot email'')), w)
          else if emailSentCount lead \<ge> step
          then (Inr (), logMessage ''emailer'' (campaignId lead) (lead_id lead)
                          (''step '' @ String step @ '' already sent; skipping duplicate'') w)
          else
            let name = orElse (businessName lead) ''there'';
                subj = buildSubject name step;
                body = buildBody name (orElse (demoUrl lead) []) step;
                idemKey = ''email:'' @ lead_id lead @ '':step:'' @ String step
            in (case runIdempotentStage
                      \<lparr>key = idemKey, stage = ''email'', in_campaignId = campaignId lead,
                       in_leadId = lead_id lead, workerName = ''emailer'',
                       run = emailStageRun env lead (orElse (email lead) []) step subj body\<rparr> w of
                 (Inl e, w') \<Rightarrow> (Inl e, w')
               | (Inr stageResult, w') \<Rightarrow>
                   if \<not> executed stageResult
                   then (Inr (), logMessage ''emailer'' (campaignId lead) (lead_id lead)
                                   (''idempotency skip for step '' @ String step) w')
                   else (Inr (), logMessage ''emailer'' (campaignId lead) (lead_id lead)
                                   (''email step '' @ String step
                                      @ '' sent; follow-up call queued (+30m)'') w')))"

section \<open>The Enrich stage (src/workers/enricher.ts)\<close>

record PageResult =
  page_url :: string
  page_html :: string
  page_text :: string

record ExtractionSummary =
  ex_phone :: "string option"
  ex_email :: "string option"
  serviceKeywords :: "string list"
  claims :: "string list"
  pagesVisited :: "string list"

text \<open>The test \<open>/^https?:\/\//i\<close>.\<close>

definition withHttpProtocol :: "string \<Rightarrow> string" where
  "withHttpProtocol url =
     (if startsWith (toLowerCase url) ''http://'' \<or> startsWith (toLowerCase url) ''https://''
      then url else ''https://'' @ url)"

text \<open>
  Every failure gives null: a response that is not ok, a content type other than
  text/html, and anything thrown inside the \<open>try\<close> (by \<open>fetch\<close>, by the abort of the
  timer, by reading the body).
\<close>

definition safeFetchHtml :: "env \<Rightarrow> string \<Rightarrow> PageResult option" where
  "safeFetchHtml env url =
     (case fetch env url of
        FetchThrows \<Rightarrow> None
      | FetchResponse ok contentType body \<Rightarrow>
          if \<not> ok then None
          else if \<not> str_includes (orElse contentType []) ''text/html'' then None
          else (case body of
                  None \<Rightarrow> None
                | Some h \<Rightarrow> Some \<lparr>page_url = url, page_html = h, page_text = rootText env h\<rparr>))"

text \<open>The insertion order of a \<open>Set\<close>: the first occurrence of each element.\<close>

fun insertionOrder :: "string list \<Rightarrow> string list" where
  "insertionOrder [] = []"
| "insertionOrder (x # xs) = x # filter (\<lambda>y. y \<noteq> x) (insertionOrder xs)"

text \<open>
  The headings and navigation links of one page that pass the filters are a parameter
  (\<open>headingKeywords\<close>); the set over all pages and the cut to eight are modelled.
\<close>

definition extractServiceKeywords :: "env \<Rightarrow> string list \<Rightarrow> string list" where
  "extractServiceKeywords env htmlList =
     take 8 (insertionOrder (concat (map (headingKeywords env) htmlList)))"

definition extractClaims :: "string \<Rightarrow> string list" where
  "extractClaims t =
     (let lowered = toLowerCase t
      in (if str_includes lowered ''licensed'' then [''licensed''] else [])
         @ (if str_includes lowered ''insured'' then [''insured''] else [])
         @ (if str_includes lowered ''free estimate'' \<or> str_includes lowered ''free estimates''
            then [''free estimates''] else []))"

definition crawlLeadWebsite :: "env \<Rightarrow> string \<Rightarrow> error + ExtractionSummary" where
  "crawlLeadWebsite env site =
     (let normalizedBaseUrl = withHttpProtocol site
      in case toAbsoluteUrl env normalizedBaseUrl ''/services'' of
           Inl e \<Rightarrow> Inl e
         | Inr servicesUrl \<Rightarrow>
             (case toAbsoluteUrl env normalizedBaseUrl ''/contact'' of
                Inl e \<Rightarrow> Inl e
              | Inr contactUrl \<Rightarrow>
                  (let pageUrls = [normalizedBaseUrl, servicesUrl, contactUrl];
                       pages = List.map_filter (safeFetchHtml env) pageUrls;
                       combinedText = join (map page_text pages) '' ''
                   in Inr \<lparr>ex_phone = bestGuessPhone env combinedText,
                           ex_email = bestGuessEmail env combinedText,
                           serviceKeywords = extractServiceKeywords env (map page_html pages),
                           claims = extractClaims combinedText,
                           pagesVisited = map page_url pages\<rparr>)))"

definition jsonStrings :: "string list \<Rightarrow> json" where
  "jsonStrings xs = JArr (map JStr xs)"

text \<open>The body of the \<open>try\<close> block.\<close>

definition enrichFromWebsite :: "env \<Rightarrow> Lead \<Rightarrow> string \<Rightarrow> string \<Rightarrow> unit prog" where
  "enrichFromWebsite env lead leadId site =
     (case crawlLeadWebsite env site of
        Inl e \<Rightarrow> throw e
      | Inr extracted \<Rightarrow>
          (let ph = (case ex_phone extracted of None \<Rightarrow> phone lead | Some x \<Rightarrow> Some x);
               em = (case ex_email extracted of None \<Rightarrow> email lead | Some x \<Rightarrow> Some x)
           in andThen (lead_update leadId
                         (\<lambda>l. l\<lparr>phone := ph, email := em, status := ENRICHED,
                                 lastError := (if length (pagesVisited extracted) > 0 then None
                                               else Some ''crawl yielded no html pages'')\<rparr>))
                (\<lambda>_. andThen (event_create
                         \<lparr>event_campaignId = campaignId lead, event_leadId = Some leadId,
                          event_type = E_LEAD_ENRICHED,
                          metadata = JObj [(''phone'', jsonOfOption ph), (''email'', jsonOfOption em),
                            (''serviceKeywords'', jsonStrings (serviceKeywords extracted)),
                            (''claims'', jsonStrings (claims extracted)),
                            (''pagesVisited'', jsonStrings (pagesVisited extracted))]\<rparr>)
                (\<lambda>_. andThen (enqueueSite leadId)
                (\<lambda>_. effect (logMessage ''enricher'' (campaignId lead) leadId
                        (''enriched; pages='' @ String (int (length (pagesVisited extracted)))
                           @ '', services='' @ String (int (length (serviceKeywords extracted))))))))))"

text \<open>The \<open>catch\<close> block, with \<open>details\<close> the message of what was thrown.\<close>

definition enrichFallback :: "Lead \<Rightarrow> string \<Rightarrow> string \<Rightarrow> unit prog" where
  "enrichFallback lead leadId details =
     andThen (lead_update leadId (\<lambda>l. l\<lparr>status := ENRICHED, lastError := Some details\<rparr>))
       (\<lambda>_. andThen (event_create
                \<lparr>event_campaignId = campaignId lead, event_leadId = Some leadId,
                 event_type = E_LEAD_ENRICHED,
                 metadata = JObj [(''error'', JStr details), (''serviceKeywords'', JArr []),
                                  (''claims'', JArr []), (''pagesVisited'', JArr [])]\<rparr>)
       (\<lambda>_. andThen (enqueueSite leadId)
       (\<lambda>_. effect (logMessage ''enricher'' (campaignId lead) leadId
               (''enrichment fallback path used ('' @ details @ '')'')))))"

definition processEnrichJob :: "env \<Rightarrow> string \<Rightarrow> unit prog" where
  "processEnrichJob env leadId w =
     (case lead_findUnique leadId w of
        None \<Rightarrow> (Inl (Error (''Lead not found: '' @ leadId)), w)
      | Some lead \<Rightarrow>
          if doNotContact lead
          then (Inr (), logMessage ''enricher'' (campaignId lead) leadId
                          ''skipped enrichment (doNotContact=true)'' w)
          else if \<not> truthy (websiteUrl lead)
          then andThen (lead_update leadId (\<lambda>l. l\<lparr>status := ENRICHED, lastError := Some ''no website''\<rparr>))
                 (\<lambda>_. andThen (event_create
                          \<lparr>event_campaignId = campaignId lead, event_leadId = Some leadId,
                           event_type = E_LEAD_ENRICHED,
                           metadata = JObj [(''reason'', JStr ''no website''),
                             (''serviceKeywords'', JArr []), (''claims'', JArr []),
                             (''pagesVisited'', JArr [])]\<rparr>)
                 (\<lambda>_. andThen (enqueueSite leadId)
                 (\<lambda>_. effect (logMessage ''enricher'' (campaignId lead) leadId
                         ''enriched without website; queued generic site generation'')))) w
          else (case enrichFromWebsite env lead leadId (orElse (websiteUrl lead) []) w of
                  (Inr u, w') \<Rightarrow> (Inr u, w')
                | (Inl e, w') \<Rightarrow> enrichFallback lead leadId (message e) w'))"

section \<open>Site-Generate, Image-Assign and Deploy\<close>

text \<open>
  \<open>Array.isArray(latestMetadata?.serviceKeywords)\<close> and the filter that keeps the strings
  (src/workers/site-generator.ts).
\<close>

definition servicesOf :: "Event option \<Rightarrow> string list" where
  "servicesOf latest =
     (case latest of
        Some ev \<Rightarrow>
          (case metadata ev of
             JObj kvs \<Rightarrow>
               (case map_of kvs ''serviceKeywords'' of
                  Some (JArr xs) \<Rightarrow> List.map_filter (\<lambda>j. case j of JStr s \<Rightarrow> Some s | _ \<Rightarrow> None) xs
                | _ \<Rightarrow> [])
           | _ \<Rightarrow> [])
      | None \<Rightarrow> [])"

text \<open>
  The lead is loaded with its campaign; reading \<open>lead.campaign.city\<close> of a lead without
  one is a TypeError.
\<close>

definition processSiteJob :: "env \<Rightarrow> string \<Rightarrow> unit prog" where
  "processSiteJob env leadId w =
     (case lead_findUnique leadId w of
        None \<Rightarrow> (Inl (Error (''Lead not found: '' @ leadId)), w)
      | Some lead \<Rightarrow>
          (case campaign_findUnique (campaignId lead) w of
             None \<Rightarrow> (Inl (TypeError ''Cannot read properties of null''), w)
           | Some campaign \<Rightarrow>
               (case generateSite env
                       \<lparr>gs_leadId = lead_id lead,
                        gs_businessName = orElse (businessName lead) ''Local Contractor'',
                        gs_city = city campaign,
                        gs_services = servicesOf (event_findLatest (campaignId lead) leadId E_LEAD_ENRICHED w),
                        gs_phone = phone lead, gs_email = email lead\<rparr> of
                  Inl e \<Rightarrow> (Inl e, w)
                | Inr output \<Rightarrow>
                    andThen (lead_update (lead_id lead) (\<lambda>l. l\<lparr>status := SITE_GENERATED, lastError := None\<rparr>))
                      (\<lambda>_. andThen (event_create
                               \<lparr>event_campaignId = campaignId lead, event_leadId = Some (lead_id lead),
                                event_type = E_SITE_GENERATED,
                                metadata = JObj [(''zipPath'', JStr (zipPath output)),
                                                 (''summary'', JStr (summary output))]\<rparr>)
                      (\<lambda>_. andThen (enqueueImage (lead_id lead))
                      (\<lambda>_. effect (logMessage ''site-generator'' (campaignId lead) (lead_id lead)
                              (''site generated at '' @ zipPath output))))) w)))"

text \<open>
  Image-Assign (second file of src/workers/scraper.ts). The pool of the campaign's niche
  and the pick by the hash of the lead id are the parameter \<open>leadImages\<close>.
\<close>

definition defaultStyle :: string where
  "defaultStyle = ''clean-local''"

definition processImageJob :: "env \<Rightarrow> string \<Rightarrow> unit prog" where
  "processImageJob env leadId w =
     (case lead_findUnique leadId w of
        None \<Rightarrow> (Inl (Error (''Lead not found: '' @ leadId)), w)
      | Some lead \<Rightarrow>
          (case campaign_findUnique (campaignId lead) w of
             None \<Rightarrow> (Inl (TypeError ''Cannot read properties of null''), w)
           | Some campaign \<Rightarrow>
               (case leadImages env (niche campaign) defaultStyle (lead_id lead) of
                  Inl e \<Rightarrow> (Inl e, w)
                | Inr (hero, services) \<Rightarrow>
                    andThen (lead_update (lead_id lead)
                               (\<lambda>l. l\<lparr>heroImageUrl := Some hero, serviceImageUrls := services,
                                       status := IMAGES_READY, lastError := None\<rparr>))
                      (\<lambda>_. andThen (event_create
                               \<lparr>event_campaignId = campaignId lead, event_leadId = Some (lead_id lead),
                                event_type = E_IMAGES_READY,
                                metadata = JObj [(''style'', JStr defaultStyle),
                                                 (''heroImageUrl'', JStr hero),
                                                 (''serviceImageUrlsCount'', JNum (int (length services)))]\<rparr>)
                      (\<lambda>_. andThen (enqueueDeploy (lead_id lead))
                      (\<lambda>_. effect (logMessage ''image-generator'' (campaignId lead) (lead_id lead)
                              ''images assigned and deploy queued'')))) w)))"

text \<open>
  Deploy (workers/deployer.ts). \<open>zipPath\<close> is read from the latest SITE_GENERATED event;
  the only writer of that event stores a string there.
\<close>

fun statusName :: "LeadStatus \<Rightarrow> string" where
  "statusName NEW = ''NEW''"
| "statusName SCRAPED = ''SCRAPED''"
| "statusName ENRICHED = ''ENRICHED''"
| "statusName SITE_GENERATED = ''SITE_GENERATED''"
| "statusName IMAGES_READY = ''IMAGES_READY''"
| "statusName DEPLOYED = ''DEPLOYED''"
| "statusName EMAILED_1 = ''EMAILED_1''"
| "statusName CALLED_1 = ''CALLED_1''"
| "statusName REPLIED = ''REPLIED''"
| "statusName BOOKED = ''BOOKED''"
| "statusName DO_NOT_CONTACT = ''DO_NOT_CONTACT''"

definition zipPathOf :: "Event option \<Rightarrow> string option" where
  "zipPathOf latest =
     (case latest of
        Some ev \<Rightarrow>
          (case metadata ev of
             JObj kvs \<Rightarrow> (case map_of kvs ''zipPath'' of Some (JStr p) \<Rightarrow> Some p | _ \<Rightarrow> None)
           | _ \<Rightarrow> None)
      | None \<Rightarrow> None)"

definition processDeployJob :: "env \<Rightarrow> string \<Rightarrow> unit prog" where
  "processDeployJob env leadId w =
     (case lead_findUnique leadId w of
        None \<Rightarrow> (Inl (Error (''Lead not found: '' @ leadId)), w)
      | Some lead \<Rightarrow>
          if status lead \<noteq> IMAGES_READY
          then (Inl (Error (''Lead '' @ leadId @ '' must be IMAGES_READY before deploy (current=''
                              @ statusName (status lead) @ '')'')), w)
          else if \<not> truthy (zipPathOf (event_findLatest (campaignId lead) leadId E_SITE_GENERATED w))
          then (Inl (Error (''No generated site bundle found for lead '' @ leadId)), w)
          else
            (case injectImageUrls env
                    (orElse (zipPathOf (event_findLatest (campaignId lead) leadId E_SITE_GENERATED w)) [])
                    (heroImageUrl lead) (serviceImageUrls lead) of
               Inl e \<Rightarrow> (Inl e, w)
             | Inr injectedZipPath \<Rightarrow>
                 (case deploy env injectedZipPath (lead_id lead) of
                    Inl e \<Rightarrow> (Inl e, w)
                  | Inr url \<Rightarrow>
                      andThen (lead_update (lead_id lead)
                                 (\<lambda>l. l\<lparr>demoUrl := Some url, status := DEPLOYED, lastError := None\<rparr>))
                        (\<lambda>_. andThen (event_create
                                 \<lparr>event_campaignId = campaignId lead, event_leadId = Some (lead_id lead),
                                  event_type = E_DEPLOYED, metadata = JObj [(''url'', JStr url)]\<rparr>)
                        (\<lambda>_. andThen (enqueueEmail \<lparr>eq_leadId = lead_id lead, eq_step = 1\<rparr>)
                        (\<lambda>_. effect (logMessage ''deployer'' (campaignId lead) (lead_id lead)
                                (''deployed to '' @ url @ '' and queued email step 1''))))) w)))"

section \<open>The Scrape stage (src/workers/scraper.ts)\<close>

text \<open>
  A listing with a website is upserted on the pair (campaignId, websiteUrl); a listing
  without one (null or the empty string) is always inserted, with a null \<open>websiteUrl\<close>.
\<close>

definition upsertLeadFromListing :: "env \<Rightarrow> string \<Rightarrow> ListingRecord \<Rightarrow> Lead prog" where
  "upsertLeadFromListing env cid listing =
     (if truthy (li_websiteUrl listing)
      then lead_upsert (newLeadId env) cid (orElse (li_websiteUrl listing) [])
             (\<lambda>l. l\<lparr>businessName := Some (li_businessName listing), phone := li_phone listing,
                     email := li_email listing, address := li_address listing,
                     sourceUrl := li_sourceUrl listing, status := SCRAPED, lastError := None\<rparr>)
             (leadDefaults\<lparr>campaignId := cid, businessName := Some (li_businessName listing),
                websiteUrl := li_websiteUrl listing, phone := li_phone listing,
                email := li_email listing, address := li_address listing,
                sourceUrl := li_sourceUrl listing, status := SCRAPED\<rparr>)
      else lead_create (newLeadId env)
             (leadDefaults\<lparr>campaignId := cid, businessName := Some (li_businessName listing),
                websiteUrl := None, phone := li_phone listing, email := li_email listing,
                address := li_address listing, sourceUrl := li_sourceUrl listing,
                status := SCRAPED\<rparr>))"

text \<open>The body of the \<open>try\<close> block of the loop, for one listing.\<close>

definition scrapeOne :: "env \<Rightarrow> string \<Rightarrow> ListingRecord \<Rightarrow> Lead prog" where
  "scrapeOne env cid listing =
     andThen (upsertLeadFromListing env cid listing)
       (\<lambda>lead. andThen (event_create
                  \<lparr>event_campaignId = cid, event_leadId = Some (lead_id lead),
                   event_type = E_LEAD_SCRAPED,
                   metadata = JObj [(''websiteUrl'', jsonOfOption (li_websiteUrl listing)),
                                    (''sourceUrl'', jsonOfOption (li_sourceUrl listing))]\<rparr>)
       (\<lambda>_. andThen (enqueueEnrich (lead_id lead))
       (\<lambda>_ w. (Inr lead, w))))"

text \<open>The loop over the listings, with the two counters; a listing that fails is logged.\<close>

fun scrapeLoop :: "env \<Rightarrow> string \<Rightarrow> ListingRecord list \<Rightarrow> nat \<times> nat \<Rightarrow> world \<Rightarrow> (nat \<times> nat) \<times> world" where
  "scrapeLoop env cid [] counts w = (counts, w)"
| "scrapeLoop env cid (listing # rest) counts w =
     (case scrapeOne env cid listing w of
        (Inr lead, w') \<Rightarrow>
          scrapeLoop env cid rest (fst counts + 1, snd counts)
            (logMessage ''scraper'' cid (lead_id lead) ''scraped and queued for enrichment'' w')
      | (Inl e, w') \<Rightarrow>
          scrapeLoop env cid rest (fst counts, snd counts + 1)
            (logMessage ''scraper'' cid ''-''
               (''lead failed: '' @ li_businessName listing @ '' ('' @ message e @ '')'') w'))"

definition processScrapeJob :: "env \<Rightarrow> string \<Rightarrow> unit prog" where
  "processScrapeJob env cid w =
     (let w0 = logMessage ''scraper'' cid ''-'' ''starting scrape batch'' w
      in case campaign_findUnique cid w0 of
           None \<Rightarrow> (Inl (Error (''Campaign not found: '' @ cid)), w0)
         | Some campaign \<Rightarrow>
             (case scrapeListings env (niche campaign) (city campaign) (campaign_limit campaign) of
                Inl e \<Rightarrow> (Inl e, w0)
              | Inr listings \<Rightarrow>
                  (case scrapeLoop env cid listings (0, 0) w0 of
                     (counts, w1) \<Rightarrow>
                       andThen (campaign_update cid (\<lambda>c. c\<lparr>campaign_status := RUNNING\<rparr>))
                         (\<lambda>_. effect (logMessage ''scraper'' cid ''-''
                                 (''batch completed: '' @ String (int (fst counts)) @ '' succeeded, ''
                                    @ String (int (snd counts)) @ '' failed''))) w1)))"

section \<open>The call webhook (api/webhooks-handler.ts)\<close>

record CallWebhookPayload =
  p_leadId :: "string option"
  p_campaignId :: "string option"
  p_callId :: "string option"
  p_status :: string
  p_transcript :: "string option"

record Request =
  req_body :: json
  req_provider :: string

record Response =
  statusCode :: nat
  res_body :: json

text \<open>
  \<open>z.string().optional()\<close> on a key of the body: absent is accepted, a string is
  accepted, anything else (null too) is rejected (None).
\<close>

definition optionalString :: "(string \<times> json) list \<Rightarrow> string \<Rightarrow> string option option" where
  "optionalString kvs k =
     (case map_of kvs k of None \<Rightarrow> Some None | Some (JStr s) \<Rightarrow> Some (Some s) | Some _ \<Rightarrow> None)"

definition callWebhookSchema_safeParse :: "json \<Rightarrow> CallWebhookPayload option" where
  "callWebhookSchema_safeParse body =
     (case body of
        JObj kvs \<Rightarrow>
          (case (optionalString kvs ''leadId'', optionalString kvs ''campaignId'',
                 optionalString kvs ''callId'', map_of kvs ''status'',
                 optionalString kvs ''transcript'') of
             (Some lid, Some cid, Some callId, Some (JStr st), Some tr) \<Rightarrow>
               Some \<lparr>p_leadId = lid, p_campaignId = cid, p_callId = callId, p_status = st,
                     p_transcript = tr\<rparr>
           | _ \<Rightarrow> None)
      | _ \<Rightarrow> None)"

definition phrases :: "string list" where
  "phrases = [''do not call'', ''don'' @ [CHR 0x27] @ ''t call'', ''stop calling'', ''remove me'',
              ''opt out'', ''unsubscribe'']"

definition hasOptOutIntent :: "string \<Rightarrow> bool" where
  "hasOptOutIntent transcript = list_ex (\<lambda>phrase. str_includes (toLowerCase transcript) phrase) phrases"

text \<open>
  The handler from the test of \<open>campaignId\<close> on, with the values the two mutable locals
  \<open>leadId\<close> and \<open>campaignId\<close> have at that point.
\<close>

definition recordCallResult ::
  "Request \<Rightarrow> CallWebhookPayload \<Rightarrow> string option \<Rightarrow> string option \<Rightarrow> Response prog" where
  "recordCallResult req payload leadId cid w =
     (if \<not> truthy cid
      then (Inr \<lparr>statusCode = 400,
                  res_body = JObj [(''error'',
                    JStr ''campaignId is required when leadId is not provided'')]\<rparr>, w)
      else
        let transcript = orElse (p_transcript payload) [];
            optOut = (if length transcript > 0 then hasOptOutIntent transcript else False)
        in andThen (event_create
                     \<lparr>event_campaignId = orElse cid [], event_leadId = leadId,
                      event_type = E_CALL_RESULT,
                      metadata = JObj [(''provider'', JStr (req_provider req)),
                        (''callId'', jsonOfOption (p_callId payload)),
                        (''status'', JStr (p_status payload)),
                        (''transcript'', if transcript = [] then JNull else JStr transcript),
                        (''optOut'', JBool optOut)]\<rparr>)
             (\<lambda>_. andThen (if truthy leadId \<and> optOut
                            then lead_update (orElse leadId [])
                                   (\<lambda>l. l\<lparr>doNotContact := True, status := DO_NOT_CONTACT\<rparr>)
                            else effect (\<lambda>w. w))
             (\<lambda>_ w'. (Inr \<lparr>statusCode = 200,
                           res_body = JObj [(''ok'', JBool True),
                             (''provider'', JStr (req_provider req)),
                             (''optOutApplied'', JBool (truthy leadId \<and> optOut))]\<rparr>, w'))) w)"

definition callWebhookHandler :: "env \<Rightarrow> Request \<Rightarrow> Response prog" where
  "callWebhookHandler env req w =
     (case callWebhookSchema_safeParse (req_body req) of
        None \<Rightarrow>
          (Inr \<lparr>statusCode = 400,
                res_body = JObj [(''error'', JStr ''Invalid webhook payload''),
                                 (''details'', zodErrorDetails env (req_body req))]\<rparr>, w)
      | Some payload \<Rightarrow>
          if truthy (p_leadId payload)
          then (case lead_findUnique (orElse (p_leadId payload) []) w of
                  None \<Rightarrow>
                    (Inr \<lparr>statusCode = 404, res_body = JObj [(''error'', JStr ''Lead not found'')]\<rparr>, w)
                | Some lead \<Rightarrow>
                    recordCallResult req payload (Some (lead_id lead)) (Some (campaignId lead)) w)
          else recordCallResult req payload (p_leadId payload) (p_campaignId payload) w)"

section \<open>The workers\<close>

text \<open>
  One worker per queue, each with its handler: the job of a queue is the payload its
  handler receives.
\<close>

datatype job =
  ScrapeJob string | EnrichJob string | SiteJob string | ImageJob string | DeployJob string
  | EmailJob string int | CallJob string int

fun processJob :: "env \<Rightarrow> job \<Rightarrow> unit prog" where
  "processJob env (ScrapeJob cid) = processScrapeJob env cid"
| "processJob env (EnrichJob leadId) = processEnrichJob env leadId"
| "processJob env (SiteJob leadId) = processSiteJob env leadId"
| "processJob env (ImageJob leadId) = processImageJob env leadId"
| "processJob env (DeployJob leadId) = processDeployJob env leadId"
| "processJob env (EmailJob leadId step) = processEmailJob env leadId step"
| "processJob env (CallJob leadId attempt) = processCallJob env leadId attempt"

text \<open>The status a stage's handler writes.\<close>

fun stageStatus :: "job \<Rightarrow> LeadStatus" where
  "stageStatus (ScrapeJob _) = SCRAPED"
| "stageStatus (EnrichJob _) = ENRICHED"
| "stageStatus (SiteJob _) = SITE_GENERATED"
| "stageStatus (ImageJob _) = IMAGES_READY"
| "stageStatus (DeployJob _) = DEPLOYED"
| "stageStatus (EmailJob _ _) = EMAILED_1"
| "stageStatus (CallJob _ _) = CALLED_1"

text \<open>The position of a status in the forward order of the enum.\<close>

fun rank :: "LeadStatus \<Rightarrow> nat" where
  "rank NEW = 0"
| "rank SCRAPED = 1"
| "rank ENRICHED = 2"
| "rank SITE_GENERATED = 3"
| "rank IMAGES_READY = 4"
| "rank DEPLOYED = 5"
| "rank EMAILED_1 = 6"
| "rank CALLED_1 = 7"
| "rank REPLIED = 8"
| "rank BOOKED = 9"
| "rank DO_NOT_CONTACT = 10"

section \<open>Properties of the Lead table\<close>

text \<open>
  The pair the unique index \<open>Lead_campaignId_websiteUrl_key\<close> is built on, for a row
  whose \<open>websiteUrl\<close> is not null; \<open>uniqueSites\<close> says that no two rows of the table
  have the same pair.
\<close>

definition siteKey :: "Lead \<Rightarrow> (string \<times> string) option" where
  "siteKey l = map_option (\<lambda>u. (campaignId l, u)) (websiteUrl l)"

definition uniqueSites :: "world \<Rightarrow> bool" where
  "uniqueSites w = distinct (List.map_filter siteKey (leads w))"

text \<open>
  What one run of a handler with status s may do to the table: every row that was there is
  still there under its id, with its status unchanged or set to s, and the pairs stay
  distinct when they were.
\<close>

definition rowsStep :: "LeadStatus \<Rightarrow> Lead list \<Rightarrow> Lead list \<Rightarrow> bool" where
  "rowsStep s ls ls' =
     ((\<forall>i l. find (\<lambda>l. lead_id l = i) ls = Some l \<longrightarrow>
          (\<exists>l'. find (\<lambda>l. lead_id l = i) ls' = Some l' \<and> (status l' = status l \<or> status l' = s)))
      \<and> (distinct (List.map_filter siteKey ls) \<longrightarrow> distinct (List.map_filter siteKey ls')))"

definition stepsBy :: "LeadStatus \<Rightarrow> 'a prog \<Rightarrow> bool" where
  "stepsBy s m = (\<forall>w r w'. m w = (r, w') \<longrightarrow> rowsStep s (leads w) (leads w'))"

section \<open>Example data\<close>

definition exampleStageInput :: RunIdempotentStageInput where
  "exampleStageInput =
     \<lparr>key = ''call:L1:attempt:1'', stage = ''call'', in_campaignId = ''c1'',
      in_leadId = ''L1'', workerName = ''caller'',
      run = (\<lambda>w. (Inr (JStr ''call-1''), logLine ''placed'' w))\<rparr>"

definition exampleClaimRow :: IdempotencyKey where
  "exampleClaimRow =
     \<lparr>ik_key = ''call:L1:attempt:1'', ik_stage = ''call'', ik_campaignId = Some ''c1'',
      ik_leadId = Some ''L1'', ik_result = None\<rparr>"

definition exampleEnv :: env where
  "exampleEnv =
     \<lparr>scrapeListings = (\<lambda>n c k. Inr []), newLeadId = (\<lambda>n. ''lead-'' @ digits n),
      toAbsoluteUrl = (\<lambda>b p. Inr (b @ p)), fetch = (\<lambda>u. FetchThrows), rootText = (\<lambda>h. h),
      bestGuessPhone = (\<lambda>t. None), bestGuessEmail = (\<lambda>t. None), headingKeywords = (\<lambda>h. []),
      generateSite = (\<lambda>i. Inr \<lparr>zipPath = ''/tmp/'' @ gs_leadId i @ ''.zip'', summary = ''site''\<rparr>),
      leadImages = (\<lambda>n s i. Inr (''hero.png'', [''a.png'', ''b.png'', ''c.png''])),
      injectImageUrls = (\<lambda>z h s. Inr (z @ ''-ready.zip'')),
      deploy = (\<lambda>z p. Inr (''http://localhost:3000/demo/'' @ p)),
      sendEmail = (\<lambda>sent i. Inr ''msg-1''), placeCall = (\<lambda>placed i. Inr ''call-1''),
      CALL_WEBHOOK_BASE_URL = None, zodErrorDetails = (\<lambda>b. JNull)\<rparr>"

definition exampleLead :: Lead where
  "exampleLead =
     leadDefaults\<lparr>lead_id := ''L1'', campaignId := ''c1'', businessName := Some ''Acme Roofing'',
       websiteUrl := Some ''https://acme.example.com'', phone := Some ''+1-555-0101'',
       email := Some ''hello@acme.example.com'', status := SCRAPED\<rparr>"

definition exampleCampaign :: Campaign where
  "exampleCampaign =
     \<lparr>campaign_id = ''c1'', niche = ''roofers'', city = ''Dallas'', campaign_limit = 5,
      campaign_status = CREATED\<rparr>"

text \<open>The five phrases the specification lists for the webhook.\<close>

definition specPhrases :: "string list" where
  "specPhrases = [''do not call'', ''stop calling'', ''remove me'', ''opt out'', ''unsubscribe'']"

text \<open>
  Following the specification's words: the phrase is a substring of the transcript up to
  the case of letters.
\<close>

definition containsIgnoringCase :: "string \<Rightarrow> string \<Rightarrow> bool" where
  "containsIgnoringCase transcript phrase =
     (\<exists>pre mid post. transcript = pre @ mid @ post \<and> toLowerCase mid = toLowerCase phrase)"

definition readyLead :: Lead where
  "readyLead = exampleLead\<lparr>demoUrl := Some ''http://localhost:3000/demo/L1'', status := DEPLOYED\<rparr>"

definition readyWorld :: world where
  "readyWorld = emptyWorld\<lparr>campaigns := [exampleCampaign], leads := [readyLead]\<rparr>"

definition exampleListing :: ListingRecord where
  "exampleListing =
     \<lparr>li_businessName = ''Acme Roofing LLC'', li_websiteUrl = Some ''https://acme.example.com'',
      li_phone = None, li_email = None, li_address = Some ''Dallas'', li_sourceUrl = None\<rparr>"

definition rescrapeEnv :: env where
  "rescrapeEnv = exampleEnv\<lparr>scrapeListings := (\<lambda>n c k. Inr [exampleListing])\<rparr>"

section \<open>Basic facts about sequencing and the tables\<close>

lemma andThen_Inl: "m w = (Inl e, w') \<Longrightarrow> andThen m f w = (Inl e, w')"
  by (simp add: andThen_def)

lemma andThen_Inr: "m w = (Inr x, w') \<Longrightarrow> andThen m f w = f x w'"
  by (simp add: andThen_def)

lemma andThen_effect [simp]: "andThen (effect g) f w = f () (g w)"
  by (simp add: andThen_def effect_def)

lemma andThen_throw [simp]: "andThen (throw e) f w = (Inl e, w)"
  by (simp add: andThen_def throw_def)

subsection \<open>Foreign keys of an event\<close>

text \<open>An update of lead rows that keeps their keys keeps what the foreign keys can name.\<close>

lemma campaignStored_rows [simp]:
  assumes "\<And>l. campaignId (data l) = campaignId l"
  shows "campaignStored c cs (map (\<lambda>l. if P l then data l else l) ls) = campaignStored c cs ls"
proof -
  have "list_ex (\<lambda>l. campaignId l = c) (map (\<lambda>l. if P l then data l else l) ls)
        = list_ex (\<lambda>l. campaignId l = c) ls"
    by (induction ls) (simp_all add: assms)
  then show ?thesis by (simp add: campaignStored_def)
qed

lemma leadStored_rows [simp]:
  assumes "\<And>l. lead_id (data l) = lead_id l"
  shows "leadStored i (map (\<lambda>l. if P l then data l else l) ls) = leadStored i ls"
  unfolding leadStored_def by (induction ls) (simp_all add: assms)

text \<open>A lead that has been loaded, and its campaign, can be named by an event.\<close>

lemma found_leadStored [simp]: "lead_findUnique i w = Some l \<Longrightarrow> leadStored i (leads w)"
  by (auto simp: lead_findUnique_def leadStored_def list_ex_iff find_Some_iff)

lemma found_campaignStored [simp]:
  "lead_findUnique i w = Some l \<Longrightarrow> campaignStored (campaignId l) cs (leads w)"
  by (auto simp: lead_findUnique_def campaignStored_def list_ex_iff find_Some_iff)

lemma campaign_found_stored [simp]:
  "campaign_findUnique c w = Some row \<Longrightarrow> campaignStored c (campaigns w) ls"
  by (auto simp: campaign_findUnique_def campaignStored_def list_ex_iff find_Some_iff)

text \<open>
  Where the Campaign table has the campaign of every lead, as the foreign key of Lead
  makes it, the campaigns an event can name are the rows of the Campaign table.
\<close>

lemma campaignStored_iff:
  assumes "\<forall>l \<in> set (leads w). campaign_findUnique (campaignId l) w \<noteq> None"
  shows "campaignStored c (campaigns w) (leads w) \<longleftrightarrow> campaign_findUnique c w \<noteq> None"
  using assms
  by (auto simp: campaignStored_def campaign_findUnique_def list_ex_iff find_None_iff)

lemma event_create_stored:
  "campaignStored (event_campaignId ev) (campaigns w) (leads w) \<Longrightarrow>
   (case event_leadId ev of None \<Rightarrow> True | Some lid \<Rightarrow> leadStored lid (leads w)) \<Longrightarrow>
   event_create ev w = (Inr (), w\<lparr>events := events w @ [ev]\<rparr>)"
  by (simp add: event_create_def)

lemma andThen_event_create [simp]:
  "campaignStored (event_campaignId ev) (campaigns w) (leads w) \<Longrightarrow>
   (case event_leadId ev of None \<Rightarrow> True | Some lid \<Rightarrow> leadStored lid (leads w)) \<Longrightarrow>
   andThen (event_create ev) f w = f () (w\<lparr>events := events w @ [ev]\<rparr>)"
  by (simp add: andThen_def event_create_def)

lemma andThen_event_create_refused:
  "\<not> campaignStored (event_campaignId ev) (campaigns w) (leads w) \<Longrightarrow>
   andThen (event_create ev) f w = (Inl foreignKeyFailed, w)"
  by (simp add: andThen_def event_create_def)

lemma lead_update_found:
  "lead_findUnique i w = Some l \<Longrightarrow>
   lead_update i data w =
     (Inr (), w\<lparr>leads := map (\<lambda>l. if lead_id l = i then data l else l) (leads w)\<rparr>)"
  by (simp add: lead_update_def)

lemma andThen_lead_update_found:
  "lead_findUnique i w = Some l \<Longrightarrow>
   andThen (lead_update i data) f w =
     f () (w\<lparr>leads := map (\<lambda>l. if lead_id l = i then data l else l) (leads w)\<rparr>)"
  by (simp add: andThen_def lead_update_found)

lemma lead_findUnique_id: "lead_findUnique i w = Some l \<Longrightarrow> lead_id l = i"
  by (auto simp: lead_findUnique_def find_Some_iff)

lemma lead_findUnique_frame [simp]:
  "lead_findUnique i (w\<lparr>events := ev\<rparr>) = lead_findUnique i w"
  "lead_findUnique i (w\<lparr>logs := lg\<rparr>) = lead_findUnique i w"
  "lead_findUnique i (w\<lparr>idempotencyKeys := ks\<rparr>) = lead_findUnique i w"
  "lead_findUnique i (w\<lparr>callCalls := cc\<rparr>) = lead_findUnique i w"
  "lead_findUnique i (w\<lparr>emailCalls := ec\<rparr>) = lead_findUnique i w"
  "lead_findUnique i (w\<lparr>callQueue := cq\<rparr>) = lead_findUnique i w"
  "lead_findUnique i (w\<lparr>siteQueue := sq\<rparr>) = lead_findUnique i w"
  by (simp_all add: lead_findUnique_def)

subsection \<open>String search\<close>

lemma startsWith_iff: "startsWith s p \<longleftrightarrow> (\<exists>post. s = p @ post)"
  by (induction s p rule: startsWith.induct) auto

lemma str_includes_iff: "str_includes s p \<longleftrightarrow> (\<exists>pre post. s = pre @ p @ post)"
proof (induction s)
  case Nil
  then show ?case by (simp add: startsWith_iff)
next
  case (Cons c cs)
  show ?case
  proof
    assume "str_includes (c # cs) p"
    then consider "startsWith (c # cs) p" | "str_includes cs p" by auto
    then show "\<exists>pre post. c # cs = pre @ p @ post"
    proof cases
      case 1
      then obtain post where "c # cs = [] @ p @ post" by (auto simp: startsWith_iff)
      then show ?thesis by blast
    next
      case 2
      then obtain pre post where "cs = pre @ p @ post" using Cons.IH by blast
      then have "c # cs = (c # pre) @ p @ post" by simp
      then show ?thesis by blast
    qed
  next
    assume "\<exists>pre post. c # cs = pre @ p @ post"
    then obtain pre post where eq: "c # cs = pre @ p @ post" by blast
    show "str_includes (c # cs) p"
    proof (cases pre)
      case Nil
      with eq have "startsWith (c # cs) p" by (auto simp: startsWith_iff)
      then show ?thesis by simp
    next
      case (Cons d pre')
      with eq have "cs = pre' @ p @ post" by simp
      then have "str_includes cs p" using Cons.IH by blast
      then show ?thesis by simp
    qed
  qed
qed

lemma toLowerCase_append: "toLowerCase (a @ b) = toLowerCase a @ toLowerCase b"
  by (simp add: toLowerCase_def)

lemma toLowerCase_split:
  "toLowerCase t = a @ b \<Longrightarrow> \<exists>a' b'. t = a' @ b' \<and> toLowerCase a' = a \<and> toLowerCase b' = b"
  unfolding toLowerCase_def by (auto simp: map_eq_append_conv)

lemma containsIgnoringCase_search:
  assumes "toLowerCase phrase = phrase"
  shows "containsIgnoringCase transcript phrase \<longleftrightarrow> str_includes (toLowerCase transcript) phrase"
proof
  assume "containsIgnoringCase transcript phrase"
  then obtain pre mid post where "transcript = pre @ mid @ post" "toLowerCase mid = phrase"
    using assms by (auto simp: containsIgnoringCase_def)
  then have "toLowerCase transcript = toLowerCase pre @ phrase @ toLowerCase post"
    by (simp add: toLowerCase_append)
  then show "str_includes (toLowerCase transcript) phrase"
    unfolding str_includes_iff by blast
next
  assume "str_includes (toLowerCase transcript) phrase"
  then obtain a b where "toLowerCase transcript = a @ phrase @ b"
    unfolding str_includes_iff by blast
  then obtain pre rest where t: "transcript = pre @ rest" and "toLowerCase rest = phrase @ b"
    using toLowerCase_split by blast
  then obtain mid post where "rest = mid @ post" "toLowerCase mid = phrase"
    using toLowerCase_split by blast
  with t show "containsIgnoringCase transcript phrase"
    using assms by (auto simp: containsIgnoringCase_def)
qed

lemma phrases_lower: "p \<in> set phrases \<Longrightarrow> toLowerCase p = p"
  by (auto simp: phrases_def toLowerCase_def)

section \<open>The contact stages, step by step\<close>

lemma callStageRun_ok:
  assumes "lead_findUnique (lead_id lead) w = Some lead"
    and "placeCall env (callCalls w) \<lparr>call_to = to, script = sc, callbackUrl = cb\<rparr> = Inr callId"
  shows "callStageRun env lead to attempt sc cb w =
     (Inr (JObj [(''callId'', JStr callId)]),
      w\<lparr>callCalls := callCalls w @ [\<lparr>call_to = to, script = sc, callbackUrl = cb\<rparr>],
        leads := map (\<lambda>l. if lead_id l = lead_id lead
                           then l\<lparr>callAttempts := callAttempts l + 1, status := CALLED_1, lastError := None\<rparr>
                           else l) (leads w),
        events := events w @
          [\<lparr>event_campaignId = campaignId lead, event_leadId = Some (lead_id lead),
            event_type = E_CALL_PLACED,
            metadata = JObj [(''attempt'', JNum attempt), (''callId'', JStr callId),
                             (''callbackUrl'', JStr cb)]\<rparr>]\<rparr>)"
  using assms
  by (simp add: callStageRun_def Let_def andThen_lead_update_found)

lemma processCallJob_replay:
  assumes "lead_findUnique leadId w = Some lead"
    and "idempotencyKeys w (''call:'' @ leadId @ '':attempt:'' @ String attempt) = Some row"
    and "committedValue (ik_result row) = Some v"
  shows "\<exists>line. processCallJob env leadId attempt w = (Inr (), w\<lparr>logs := logs w @ [line]\<rparr>)"
proof -
  have id: "lead_id lead = leadId" using assms(1) by (auto dest: lead_findUnique_id)
  show ?thesis
    using assms id
    by (auto simp: processCallJob_def Let_def runIdempotentStage_def idempotencyKey_findUnique_def
        logMessage_def logLine_def)
qed

lemma find_update_row:
  assumes "\<And>l. lead_id (data l) = lead_id l"
  shows "find (\<lambda>l. lead_id l = j) (map (\<lambda>l. if lead_id l = i then data l else l) ls)
         = map_option (\<lambda>l. if lead_id l = i then data l else l) (find (\<lambda>l. lead_id l = j) ls)"
  using assms by (induction ls) auto

lemma lead_findUnique_after_update:
  assumes "\<And>l. lead_id (data l) = lead_id l"
  shows "lead_findUnique j (w\<lparr>leads := map (\<lambda>l. if lead_id l = i then data l else l) (leads w)\<rparr>)
         = map_option (\<lambda>l. if lead_id l = i then data l else l) (lead_findUnique j w)"
  using find_update_row [OF assms] by (simp add: lead_findUnique_def)

lemma emailStageRun_ok:
  assumes "lead_findUnique (lead_id lead) w = Some lead"
    and "sendEmail env (emailCalls w)
           \<lparr>email_to = to, subject = subj, html = fst body, text_body = snd body,
            headers = [(''x-campaign-id'', campaignId lead), (''x-lead-id'', lead_id lead),
                       (''x-email-step'', String step)]\<rparr> = Inr messageId"
  shows "emailStageRun env lead to step subj body w =
     (Inr (JObj [(''providerMessageId'', JStr messageId)]),
      w\<lparr>emailCalls := emailCalls w @
          [\<lparr>email_to = to, subject = subj, html = fst body, text_body = snd body,
            headers = [(''x-campaign-id'', campaignId lead), (''x-lead-id'', lead_id lead),
                       (''x-email-step'', String step)]\<rparr>],
        leads := map (\<lambda>l. if lead_id l = lead_id lead
                           then l\<lparr>emailSentCount := emailSentCount l + 1, status := EMAILED_1, lastError := None\<rparr>
                           else l) (leads w),
        events := events w @
          [\<lparr>event_campaignId = campaignId lead, event_leadId = Some (lead_id lead),
            event_type = E_EMAIL_SENT,
            metadata = JObj [(''step'', JNum step), (''providerMessageId'', JStr messageId),
                             (''subject'', JStr subj)]\<rparr>],
        callQueue := callQueue w @
          [\<lparr>cq_leadId = lead_id lead, cq_attempt = 1, cq_delay = Some followUpCallDelayMs\<rparr>]\<rparr>)"
  using assms
  by (simp add: emailStageRun_def Let_def andThen_lead_update_found callQueue_add_def)

lemma runIdempotentStage_fresh_ok:
  assumes "idempotencyKeys w (key input) = None"
    and "run input (w\<lparr>idempotencyKeys := (idempotencyKeys w)(key input \<mapsto>
            \<lparr>ik_key = key input, ik_stage = stage input,
             ik_campaignId = Some (in_campaignId input),
             ik_leadId = Some (in_leadId input), ik_result = None\<rparr>)\<rparr>) = (Inr r, w2)"
    and "idempotencyKeys w2 = (idempotencyKeys w)(key input \<mapsto>
            \<lparr>ik_key = key input, ik_stage = stage input,
             ik_campaignId = Some (in_campaignId input),
             ik_leadId = Some (in_leadId input), ik_result = None\<rparr>)"
  shows "runIdempotentStage input w =
        (Inr \<lparr>executed = True, result = r\<rparr>,
         w2\<lparr>idempotencyKeys := (idempotencyKeys w)(key input \<mapsto>
            \<lparr>ik_key = key input, ik_stage = stage input,
             ik_campaignId = Some (in_campaignId input),
             ik_leadId = Some (in_leadId input), ik_result = Some (JObj [(''value'', r)])\<rparr>)\<rparr>)"
  using assms
  by (simp add: runIdempotentStage_def idempotencyKey_findUnique_def idempotencyKey_create_def
      idempotencyKey_update_def)

lemma processCallJob_first:
  assumes "lead_findUnique leadId w = Some lead" "\<not> doNotContact lead"
    and "phone lead = Some to" "to \<noteq> []" "callAttempts lead < 2"
    and "idempotencyKeys w (''call:'' @ leadId @ '':attempt:'' @ String attempt) = None"
    and "placeCall env (callCalls w)
           \<lparr>call_to = to,
            script = buildCallScript (orElse (businessName lead) ''your business'')
                       (orElse (demoUrl lead) ''the preview link''),
            callbackUrl = orElse (CALL_WEBHOOK_BASE_URL env) ''http://localhost:3000''
                            @ ''/webhooks/calls/fake''\<rparr> = Inr callId"
  shows "processCallJob env leadId attempt w =
     (Inr (),
      w\<lparr>callCalls := callCalls w @
          [\<lparr>call_to = to,
            script = buildCallScript (orElse (businessName lead) ''your business'')
                       (orElse (demoUrl lead) ''the preview link''),
            callbackUrl = orElse (CALL_WEBHOOK_BASE_URL env) ''http://localhost:3000''
                            @ ''/webhooks/calls/fake''\<rparr>],
        leads := map (\<lambda>l. if lead_id l = leadId
                           then l\<lparr>callAttempts := callAttempts l + 1, status := CALLED_1, lastError := None\<rparr>
                           else l) (leads w),
        events := events w @
          [\<lparr>event_campaignId = campaignId lead, event_leadId = Some leadId,
            event_type = E_CALL_PLACED,
            metadata = JObj [(''attempt'', JNum attempt), (''callId'', JStr callId),
               (''callbackUrl'', JStr (orElse (CALL_WEBHOOK_BASE_URL env) ''http://localhost:3000''
                            @ ''/webhooks/calls/fake''))]\<rparr>],
        idempotencyKeys := (idempotencyKeys w)(''call:'' @ leadId @ '':attempt:'' @ String attempt \<mapsto>
            \<lparr>ik_key = ''call:'' @ leadId @ '':attempt:'' @ String attempt, ik_stage = ''call'',
             ik_campaignId = Some (campaignId lead), ik_leadId = Some leadId,
             ik_result = Some (JObj [(''value'', JObj [(''callId'', JStr callId)])])\<rparr>),
        logs := logs w @ [''['' @ campaignId lead @ '']['' @ leadId @ ''][caller] call attempt ''
                           @ String attempt @ '' placed'']\<rparr>)"
proof -
  have id: "lead_id lead = leadId" using assms(1) by (auto dest: lead_findUnique_id)
  let ?k = "''call:'' @ leadId @ '':attempt:'' @ String attempt"
  let ?cb = "orElse (CALL_WEBHOOK_BASE_URL env) ''http://localhost:3000'' @ ''/webhooks/calls/fake''"
  let ?sc = "buildCallScript (orElse (businessName lead) ''your business'')
                       (orElse (demoUrl lead) ''the preview link'')"
  let ?input = "\<lparr>key = ?k, stage = ''call'', in_campaignId = campaignId lead,
                       in_leadId = lead_id lead, workerName = ''caller'',
                       run = callStageRun env lead to attempt ?sc ?cb\<rparr>"
  let ?w1 = "w\<lparr>idempotencyKeys := (idempotencyKeys w)(?k \<mapsto>
            \<lparr>ik_key = ?k, ik_stage = ''call'', ik_campaignId = Some (campaignId lead),
             ik_leadId = Some (lead_id lead), ik_result = None\<rparr>)\<rparr>"
  have run: "callStageRun env lead to attempt ?sc ?cb ?w1 =
     (Inr (JObj [(''callId'', JStr callId)]),
      ?w1\<lparr>callCalls := callCalls ?w1 @ [\<lparr>call_to = to, script = ?sc, callbackUrl = ?cb\<rparr>],
        leads := map (\<lambda>l. if lead_id l = lead_id lead
                           then l\<lparr>callAttempts := callAttempts l + 1, status := CALLED_1, lastError := None\<rparr>
                           else l) (leads ?w1),
        events := events ?w1 @
          [\<lparr>event_campaignId = campaignId lead, event_leadId = Some (lead_id lead),
            event_type = E_CALL_PLACED,
            metadata = JObj [(''attempt'', JNum attempt), (''callId'', JStr callId),
                             (''callbackUrl'', JStr ?cb)]\<rparr>]\<rparr>)"
    by (rule callStageRun_ok) (use assms id in simp_all)
  have stage: "runIdempotentStage ?input w = (Inr \<lparr>executed = True, result = JObj [(''callId'', JStr callId)]\<rparr>,
      (snd (callStageRun env lead to attempt ?sc ?cb ?w1))\<lparr>idempotencyKeys := (idempotencyKeys w)(?k \<mapsto>
            \<lparr>ik_key = ?k, ik_stage = ''call'', ik_campaignId = Some (campaignId lead),
             ik_leadId = Some (lead_id lead),
             ik_result = Some (JObj [(''value'', JObj [(''callId'', JStr callId)])])\<rparr>)\<rparr>)"
    using runIdempotentStage_fresh_ok [where input = ?input and w = w
        and r = "JObj [(''callId'', JStr callId)]"
        and ?w2.0 = "snd (callStageRun env lead to attempt ?sc ?cb ?w1)"] assms(6) run
    by simp
  show ?thesis
    unfolding processCallJob_def
    using assms(1-5) id stage run
    by (simp add: Let_def truthy_def orElse_def logMessage_def logLine_def)
qed

lemma processEmailJob_replay:
  assumes "lead_findUnique leadId w = Some lead"
    and "idempotencyKeys w (''email:'' @ leadId @ '':step:'' @ String step) = Some row"
    and "committedValue (ik_result row) = Some v"
    and "truthy (email lead) \<longrightarrow> truthy (demoUrl lead)"
  shows "\<exists>line. processEmailJob env leadId step w = (Inr (), w\<lparr>logs := logs w @ [line]\<rparr>)"
proof -
  have id: "lead_id lead = leadId" using assms(1) by (auto dest: lead_findUnique_id)
  show ?thesis
    using assms id
    by (auto simp: processEmailJob_def Let_def runIdempotentStage_def idempotencyKey_findUnique_def
        logMessage_def logLine_def)
qed

lemma processEmailJob_first:
  assumes "lead_findUnique leadId w = Some lead" "\<not> doNotContact lead"
    and "email lead = Some to" "to \<noteq> []" "demoUrl lead = Some url" "url \<noteq> []"
    and "emailSentCount lead < step"
    and "idempotencyKeys w (''email:'' @ leadId @ '':step:'' @ String step) = None"
    and "sendEmail env (emailCalls w)
           \<lparr>email_to = to, subject = buildSubject (orElse (businessName lead) ''there'') step,
            html = fst (buildBody (orElse (businessName lead) ''there'') url step),
            text_body = snd (buildBody (orElse (businessName lead) ''there'') url step),
            headers = [(''x-campaign-id'', campaignId lead), (''x-lead-id'', leadId),
                       (''x-email-step'', String step)]\<rparr> = Inr messageId"
  shows "processEmailJob env leadId step w =
     (Inr (),
      w\<lparr>emailCalls := emailCalls w @
          [\<lparr>email_to = to, subject = buildSubject (orElse (businessName lead) ''there'') step,
            html = fst (buildBody (orElse (businessName lead) ''there'') url step),
            text_body = snd (buildBody (orElse (businessName lead) ''there'') url step),
            headers = [(''x-campaign-id'', campaignId lead), (''x-lead-id'', leadId),
                       (''x-email-step'', String step)]\<rparr>],
        leads := map (\<lambda>l. if lead_id l = leadId
                           then l\<lparr>emailSentCount := emailSentCount l + 1, status := EMAILED_1, lastError := None\<rparr>
                           else l) (leads w),
        events := events w @
          [\<lparr>event_campaignId = campaignId lead, event_leadId = Some leadId,
            event_type = E_EMAIL_SENT,
            metadata = JObj [(''step'', JNum step), (''providerMessageId'', JStr messageId),
               (''subject'', JStr (buildSubject (orElse (businessName lead) ''there'') step))]\<rparr>],
        callQueue := callQueue w @
          [\<lparr>cq_leadId = leadId, cq_attempt = 1, cq_delay = Some followUpCallDelayMs\<rparr>],
        idempotencyKeys := (idempotencyKeys w)(''email:'' @ leadId @ '':step:'' @ String step \<mapsto>
            \<lparr>ik_key = ''email:'' @ leadId @ '':step:'' @ String step, ik_stage = ''email'',
             ik_campaignId = Some (campaignId lead), ik_leadId = Some leadId,
             ik_result = Some (JObj [(''value'', JObj [(''providerMessageId'', JStr messageId)])])\<rparr>),
        logs := logs w @ [''['' @ campaignId lead @ '']['' @ leadId @ ''][emailer] email step ''
                           @ String step @ '' sent; follow-up call queued (+30m)'']\<rparr>)"
proof -
  have id: "lead_id lead = leadId" using assms(1) by (auto dest: lead_findUnique_id)
  let ?k = "''email:'' @ leadId @ '':step:'' @ String step"
  let ?subj = "buildSubject (orElse (businessName lead) ''there'') step"
  let ?body = "buildBody (orElse (businessName lead) ''there'') url step"
  let ?input = "\<lparr>key = ?k, stage = ''email'', in_campaignId = campaignId lead,
                       in_leadId = lead_id lead, workerName = ''emailer'',
                       run = emailStageRun env lead to step ?subj ?body\<rparr>"
  let ?w1 = "w\<lparr>idempotencyKeys := (idempotencyKeys w)(?k \<mapsto>
            \<lparr>ik_key = ?k, ik_stage = ''email'', ik_campaignId = Some (campaignId lead),
             ik_leadId = Some (lead_id lead), ik_result = None\<rparr>)\<rparr>"
  have run: "emailStageRun env lead to step ?subj ?body ?w1 =
     (Inr (JObj [(''providerMessageId'', JStr messageId)]),
      ?w1\<lparr>emailCalls := emailCalls ?w1 @
          [\<lparr>email_to = to, subject = ?subj, html = fst ?body, text_body = snd ?body,
            headers = [(''x-campaign-id'', campaignId lead), (''x-lead-id'', lead_id lead),
                       (''x-email-step'', String step)]\<rparr>],
        leads := map (\<lambda>l. if lead_id l = lead_id lead
                           then l\<lparr>emailSentCount := emailSentCount l + 1, status := EMAILED_1, lastError := None\<rparr>
                           else l) (leads ?w1),
        events := events ?w1 @
          [\<lparr>event_campaignId = campaignId lead, event_leadId = Some (lead_id lead),
            event_type = E_EMAIL_SENT,
            metadata = JObj [(''step'', JNum step), (''providerMessageId'', JStr messageId),
                             (''subject'', JStr ?subj)]\<rparr>],
        callQueue := callQueue ?w1 @
          [\<lparr>cq_leadId = lead_id lead, cq_attempt = 1, cq_delay = Some followUpCallDelayMs\<rparr>]\<rparr>)"
    by (rule emailStageRun_ok) (use assms id in simp_all)
  have stage: "runIdempotentStage ?input w =
     (Inr \<lparr>executed = True, result = JObj [(''providerMessageId'', JStr messageId)]\<rparr>,
      (snd (emailStageRun env lead to step ?subj ?body ?w1))\<lparr>idempotencyKeys := (idempotencyKeys w)(?k \<mapsto>
            \<lparr>ik_key = ?k, ik_stage = ''email'', ik_campaignId = Some (campaignId lead),
             ik_leadId = Some (lead_id lead),
             ik_result = Some (JObj [(''value'', JObj [(''providerMessageId'', JStr messageId)])])\<rparr>)\<rparr>)"
    using runIdempotentStage_fresh_ok [where input = ?input and w = w
        and r = "JObj [(''providerMessageId'', JStr messageId)]"
        and ?w2.0 = "snd (emailStageRun env lead to step ?subj ?body ?w1)"] assms(8) run
    by simp
  show ?thesis
    unfolding processEmailJob_def
    using assms(1-7) id stage run
    by (simp add: Let_def truthy_def orElse_def logMessage_def logLine_def)
qed

lemma String_1: "String 1 = ''1''" and String_2: "String 2 = ''2''" and String_0: "String 0 = ''0''"
  by (simp_all add: String_def digits.simps)

section \<open>The Enrich stage, branch by branch\<close>

lemma safeFetchHtml_None_iff:
  "safeFetchHtml env u = None \<longleftrightarrow>
     (case fetch env u of
        FetchThrows \<Rightarrow> True
      | FetchResponse ok contentType body \<Rightarrow>
          \<not> ok \<or> \<not> str_includes (orElse contentType []) ''text/html'' \<or> body = None)"
  by (auto simp: safeFetchHtml_def split: fetchResult.splits option.splits)

text \<open>
  The crawl fetches three pages: the site itself, \<open>/services\<close> and \<open>/contact\<close>. When
  none of the three gives a page, nothing is extracted.
\<close>

lemma crawl_no_pages:
  assumes "crawlLeadWebsite env site = Inr ex"
    and "toAbsoluteUrl env (withHttpProtocol site) ''/services'' = Inr servicesUrl"
    and "toAbsoluteUrl env (withHttpProtocol site) ''/contact'' = Inr contactUrl"
    and "safeFetchHtml env (withHttpProtocol site) = None"
    and "safeFetchHtml env servicesUrl = None"
    and "safeFetchHtml env contactUrl = None"
  shows "pagesVisited ex = [] \<and> serviceKeywords ex = [] \<and> claims ex = []"
proof -
  have "List.map_filter (safeFetchHtml env) [withHttpProtocol site, servicesUrl, contactUrl] = []"
    using assms(4-6) by (simp add: List.map_filter_simps)
  then show ?thesis
    using assms(1-3)
    by (auto simp: crawlLeadWebsite_def Let_def extractServiceKeywords_def extractClaims_def
        toLowerCase_def)
qed

lemma enrich_no_website:
  assumes "lead_findUnique leadId w = Some lead" "\<not> doNotContact lead" "\<not> truthy (websiteUrl lead)"
  shows "processEnrichJob env leadId w =
    (Inr (),
     w\<lparr>leads := map (\<lambda>l. if lead_id l = leadId then l\<lparr>status := ENRICHED, lastError := Some ''no website''\<rparr> else l) (leads w),
       events := events w @
         [\<lparr>event_campaignId = campaignId lead, event_leadId = Some leadId, event_type = E_LEAD_ENRICHED,
           metadata = JObj [(''reason'', JStr ''no website''), (''serviceKeywords'', JArr []),
                            (''claims'', JArr []), (''pagesVisited'', JArr [])]\<rparr>],
       siteQueue := siteQueue w @ [leadId],
       logs := logs w @ [''['' @ campaignId lead @ '']['' @ leadId
           @ ''][enricher] enriched without website; queued generic site generation'']\<rparr>)"
  using assms
  by (simp add: processEnrichJob_def andThen_lead_update_found enqueueSite_def effect_def
      logMessage_def logLine_def)

lemma enrichFallback_found:
  assumes "lead_findUnique leadId w = Some lead"
  shows "enrichFallback lead leadId details w =
    (Inr (),
     w\<lparr>leads := map (\<lambda>l. if lead_id l = leadId then l\<lparr>status := ENRICHED, lastError := Some details\<rparr> else l) (leads w),
       events := events w @
         [\<lparr>event_campaignId = campaignId lead, event_leadId = Some leadId, event_type = E_LEAD_ENRICHED,
           metadata = JObj [(''error'', JStr details), (''serviceKeywords'', JArr []),
                            (''claims'', JArr []), (''pagesVisited'', JArr [])]\<rparr>],
       siteQueue := siteQueue w @ [leadId],
       logs := logs w @ [''['' @ campaignId lead @ '']['' @ leadId
           @ ''][enricher] enrichment fallback path used ('' @ details @ '')'']\<rparr>)"
  using assms
  by (simp add: enrichFallback_def andThen_lead_update_found enqueueSite_def effect_def
      logMessage_def logLine_def)

lemma enrich_crawl_throws:
  assumes "lead_findUnique leadId w = Some lead" "\<not> doNotContact lead" "truthy (websiteUrl lead)"
    and "crawlLeadWebsite env (orElse (websiteUrl lead) []) = Inl e"
  shows "processEnrichJob env leadId w = enrichFallback lead leadId (message e) w"
  using assms
  by (simp add: processEnrichJob_def enrichFromWebsite_def throw_def)

lemma enrich_crawl_ok:
  assumes "lead_findUnique leadId w = Some lead" "\<not> doNotContact lead" "truthy (websiteUrl lead)"
    and "crawlLeadWebsite env (orElse (websiteUrl lead) []) = Inr ex"
  shows "processEnrichJob env leadId w =
    (Inr (),
     w\<lparr>leads := map (\<lambda>l. if lead_id l = leadId
          then l\<lparr>phone := (case ex_phone ex of None \<Rightarrow> phone lead | Some x \<Rightarrow> Some x),
                 email := (case ex_email ex of None \<Rightarrow> email lead | Some x \<Rightarrow> Some x),
                 status := ENRICHED,
                 lastError := (if length (pagesVisited ex) > 0 then None
                               else Some ''crawl yielded no html pages'')\<rparr> else l) (leads w),
       events := events w @
         [\<lparr>event_campaignId = campaignId lead, event_leadId = Some leadId, event_type = E_LEAD_ENRICHED,
           metadata = JObj [(''phone'', jsonOfOption (case ex_phone ex of None \<Rightarrow> phone lead | Some x \<Rightarrow> Some x)),
                            (''email'', jsonOfOption (case ex_email ex of None \<Rightarrow> email lead | Some x \<Rightarrow> Some x)),
                            (''serviceKeywords'', jsonStrings (serviceKeywords ex)),
                            (''claims'', jsonStrings (claims ex)),
                            (''pagesVisited'', jsonStrings (pagesVisited ex))]\<rparr>],
       siteQueue := siteQueue w @ [leadId],
       logs := logs w @ [''['' @ campaignId lead @ '']['' @ leadId
           @ ''][enricher] enriched; pages='' @ String (int (length (pagesVisited ex)))
           @ '', services='' @ String (int (length (serviceKeywords ex)))]\<rparr>)"
  using assms
  by (simp add: processEnrichJob_def enrichFromWebsite_def Let_def andThen_lead_update_found
      enqueueSite_def effect_def logMessage_def logLine_def)

section \<open>What the handlers do to the Lead table\<close>

lemma rowsStep_refl [simp]: "rowsStep s ls ls"
  by (simp add: rowsStep_def)

lemma rowsStep_trans:
  assumes ab: "rowsStep s a b" and bc: "rowsStep s b c"
  shows "rowsStep s a c"
  unfolding rowsStep_def
proof (intro conjI allI impI)
  fix i l assume "find (\<lambda>l. lead_id l = i) a = Some l"
  then obtain l' where l': "find (\<lambda>l. lead_id l = i) b = Some l'" "status l' = status l \<or> status l' = s"
    using ab unfolding rowsStep_def by blast
  then obtain l'' where "find (\<lambda>l. lead_id l = i) c = Some l''" "status l'' = status l' \<or> status l'' = s"
    using bc unfolding rowsStep_def by blast
  with l' show "\<exists>l'. find (\<lambda>l. lead_id l = i) c = Some l' \<and> (status l' = status l \<or> status l' = s)"
    by auto
next
  assume "distinct (List.map_filter siteKey a)"
  then show "distinct (List.map_filter siteKey c)"
    using ab bc unfolding rowsStep_def by blast
qed

lemma find_map_cond:
  assumes "\<And>l. lead_id (data l) = lead_id l"
  shows "find (\<lambda>l. lead_id l = j) (map (\<lambda>l. if P l then data l else l) ls)
         = map_option (\<lambda>l. if P l then data l else l) (find (\<lambda>l. lead_id l = j) ls)"
  using assms by (induction ls) auto

lemma map_filter_map_cond:
  assumes "\<And>l. siteKey (data l) = siteKey l"
  shows "List.map_filter siteKey (map (\<lambda>l. if P l then data l else l) ls) = List.map_filter siteKey ls"
  using assms by (induction ls) (auto simp: List.map_filter_simps split: option.splits)

lemma rowsStep_update:
  assumes "\<And>l. lead_id (data l) = lead_id l" "\<And>l. siteKey (data l) = siteKey l"
    and "\<And>l. status (data l) = status l \<or> status (data l) = s"
  shows "rowsStep s ls (map (\<lambda>l. if P l then data l else l) ls)"
  unfolding rowsStep_def
  using assms(3) by (auto simp: find_map_cond [OF assms(1)] map_filter_map_cond [OF assms(2)])

lemma find_append_old:
  "find Q ls = Some l \<Longrightarrow> find Q (ls @ [row]) = Some l"
  by (induction ls) (auto split: if_splits)

lemma siteKey_mem:
  "(c, u) \<in> set (List.map_filter siteKey ls) \<longleftrightarrow> list_ex (\<lambda>l. campaignId l = c \<and> websiteUrl l = Some u) ls"
  by (induction ls) (auto simp: List.map_filter_simps siteKey_def split: option.splits)

lemma map_filter_append1:
  "List.map_filter f (ls @ [x]) = List.map_filter f ls @ (case f x of None \<Rightarrow> [] | Some y \<Rightarrow> [y])"
  by (induction ls) (auto simp: List.map_filter_simps split: option.splits)

lemma rowsStep_append:
  assumes "websiteUrl row = None \<or>
           \<not> list_ex (\<lambda>l. campaignId l = campaignId row \<and> websiteUrl l = websiteUrl row) ls"
  shows "rowsStep s ls (ls @ [row])"
  unfolding rowsStep_def
  using assms
  by (auto simp: find_append_old map_filter_append1 siteKey_mem siteKey_def split: option.splits)

lemma stepsByI: "(\<And>w r w'. m w = (r, w') \<Longrightarrow> rowsStep s (leads w) (leads w')) \<Longrightarrow> stepsBy s m"
  by (simp add: stepsBy_def)

lemma stepsByD: "stepsBy s m \<Longrightarrow> m w = (r, w') \<Longrightarrow> rowsStep s (leads w) (leads w')"
  by (simp add: stepsBy_def)

lemma stepsBy_andThen:
  assumes "stepsBy s m" "\<And>x. stepsBy s (f x)"
  shows "stepsBy s (andThen m f)"
proof (rule stepsByI)
  fix w r w' assume a: "andThen m f w = (r, w')"
  obtain r1 w1 where m: "m w = (r1, w1)" by (cases "m w")
  then have s1: "rowsStep s (leads w) (leads w1)" using assms(1) by (rule stepsByD [rotated])
  show "rowsStep s (leads w) (leads w')"
  proof (cases r1)
    case (Inl e)
    with a m have "w' = w1" by (simp add: andThen_def)
    with s1 show ?thesis by simp
  next
    case (Inr x)
    with a m have "f x w1 = (r, w')" by (simp add: andThen_def)
    then have "rowsStep s (leads w1) (leads w')" using assms(2) by (rule stepsByD [rotated])
    with s1 show ?thesis by (rule rowsStep_trans)
  qed
qed

lemma stepsBy_effect: "(\<And>w. leads (g w) = leads w) \<Longrightarrow> stepsBy s (effect g)"
  by (auto simp: stepsBy_def effect_def)

lemma stepsBy_return [simp]: "stepsBy s (\<lambda>w. (r, w))"
  by (simp add: stepsBy_def)

lemma stepsBy_throw [simp]: "stepsBy s (throw e)"
  by (simp add: stepsBy_def throw_def)

lemma stepsBy_event_create [simp]: "stepsBy s (event_create ev)"
  by (auto simp: stepsBy_def event_create_def split: if_splits)

lemma stepsBy_simple [simp]:
  "stepsBy s (enqueueEnrich i)" "stepsBy s (enqueueSite i)"
  "stepsBy s (enqueueImage i)" "stepsBy s (enqueueDeploy i)" "stepsBy s (enqueueEmail ej)"
  "stepsBy s (callQueue_add cj)" "stepsBy s (effect (logMessage wn c i msg))"
  by (auto simp: enqueueEnrich_def enqueueSite_def enqueueImage_def
      enqueueDeploy_def enqueueEmail_def callQueue_add_def logMessage_def logLine_def
      intro!: stepsBy_effect)

lemma stepsBy_campaign_update [simp]: "stepsBy s (campaign_update i data)"
  by (auto simp: stepsBy_def campaign_update_def split: option.splits)

lemma stepsBy_lead_update:
  assumes "\<And>l. lead_id (data l) = lead_id l" "\<And>l. siteKey (data l) = siteKey l"
    and "\<And>l. status (data l) = status l \<or> status (data l) = s"
  shows "stepsBy s (lead_update i data)"
  using rowsStep_update [OF assms, where P = "\<lambda>l. lead_id l = i"]
  by (auto simp: stepsBy_def lead_update_def split: option.splits)

lemma lead_create_leads:
  "leads (snd (lead_create gen data w)) =
     (if list_ex (\<lambda>l. lead_id l = gen (idCounter w)) (leads w) then leads w
      else if websiteUrl data \<noteq> None \<and>
              list_ex (\<lambda>l. campaignId l = campaignId data \<and> websiteUrl l = websiteUrl data) (leads w)
      then leads w
      else leads w @ [data\<lparr>lead_id := gen (idCounter w)\<rparr>])"
  by (simp add: lead_create_def Let_def)

lemma stepsBy_lead_create: "stepsBy s (lead_create gen data)"
proof (rule stepsByI)
  fix w r w' assume a: "lead_create gen data w = (r, w')"
  then have w': "w' = snd (lead_create gen data w)" by simp
  let ?row = "data\<lparr>lead_id := gen (idCounter w)\<rparr>"
  have new: "websiteUrl data = None \<or>
      \<not> list_ex (\<lambda>l. campaignId l = campaignId data \<and> websiteUrl l = websiteUrl data) (leads w)
      \<Longrightarrow> rowsStep s (leads w) (leads w @ [?row])"
    by (rule rowsStep_append) simp
  show "rowsStep s (leads w) (leads w')"
    unfolding w' lead_create_leads using new by auto
qed

lemma stepsBy_lead_upsert:
  assumes "\<And>l. lead_id (upd l) = lead_id l" "\<And>l. siteKey (upd l) = siteKey l"
    and "\<And>l. status (upd l) = status l \<or> status (upd l) = s"
  shows "stepsBy s (lead_upsert gen cid url upd data)"
proof (rule stepsByI)
  fix w r w' assume a: "lead_upsert gen cid url upd data w = (r, w')"
  show "rowsStep s (leads w) (leads w')"
  proof (cases "find (\<lambda>l. campaignId l = cid \<and> websiteUrl l = Some url) (leads w)")
    case None
    with a have "lead_create gen data w = (r, w')" by (simp add: lead_upsert_def)
    then show ?thesis using stepsBy_lead_create by (rule stepsByD [rotated])
  next
    case (Some existing)
    with a have "leads w' = map (\<lambda>l. if campaignId l = cid \<and> websiteUrl l = Some url then upd l else l) (leads w)"
      by (auto simp: lead_upsert_def)
    then show ?thesis using rowsStep_update [OF assms] by simp
  qed
qed

lemma idempotencyKey_ops_leads [simp]:
  "leads (snd (idempotencyKey_create row w)) = leads w"
  "leads (snd (idempotencyKey_update k v w)) = leads w"
  "leads (snd (idempotencyKey_delete k w)) = leads w"
  by (simp_all add: idempotencyKey_create_def idempotencyKey_update_def idempotencyKey_delete_def
      split: option.splits)

lemma releaseClaim_leads [simp]: "leads (snd (releaseClaim k e w)) = leads w"
proof -
  obtain r1 w1 where d: "idempotencyKey_delete k w = (r1, w1)" by (cases "idempotencyKey_delete k w")
  then have "leads w1 = leads w" using idempotencyKey_ops_leads(3) [of k w] by simp
  with d show ?thesis by (cases r1) (simp_all add: releaseClaim_def)
qed

lemma stepsBy_runIdempotentStage:
  assumes "stepsBy s (run input)"
  shows "stepsBy s (runIdempotentStage input)"
proof (rule stepsByI)
  fix w r w' assume a: "runIdempotentStage input w = (r, w')"
  show "rowsStep s (leads w) (leads w')"
  proof (cases "idempotencyKeys w (key input)")
    case (Some row)
    with a have "leads w' = leads w"
      by (cases "committedValue (ik_result row)")
        (auto simp: runIdempotentStage_def idempotencyKey_findUnique_def idempotencyHitLog_def
          logLine_def)
    then show ?thesis by simp
  next
    case None
    let ?w1 = "w\<lparr>idempotencyKeys := (idempotencyKeys w)(key input \<mapsto>
                  \<lparr>ik_key = key input, ik_stage = stage input,
                   ik_campaignId = Some (in_campaignId input),
                   ik_leadId = Some (in_leadId input), ik_result = None\<rparr>)\<rparr>"
    obtain r2 w2 where run: "run input ?w1 = (r2, w2)" by (cases "run input ?w1")
    then have "rowsStep s (leads ?w1) (leads w2)" using assms by (rule stepsByD [rotated])
    then have s2: "rowsStep s (leads w) (leads w2)" by simp
    have "leads w' = leads w2"
    proof (cases r2)
      case (Inl e)
      with a None run have "(r, w') = releaseClaim (key input) e w2"
        by (simp add: runIdempotentStage_def idempotencyKey_findUnique_def idempotencyKey_create_def)
      moreover have "leads (snd (releaseClaim (key input) e w2
          :: (error + RunIdempotentStageOutput) \<times> world)) = leads w2" by simp
      ultimately show ?thesis by (metis snd_conv)
    next
      case (Inr v)
      obtain r3 w3 where u: "idempotencyKey_update (key input) (JObj [(''value'', v)]) w2 = (r3, w3)"
        by (cases "idempotencyKey_update (key input) (JObj [(''value'', v)]) w2")
      then have l3: "leads w3 = leads w2"
        using idempotencyKey_ops_leads(2) [of "key input" "JObj [(''value'', v)]" w2] by simp
      show ?thesis
      proof (cases r3)
        case (Inl e)
        with a None run Inr u have "(r, w') = releaseClaim (key input) e w3"
          by (simp add: runIdempotentStage_def idempotencyKey_findUnique_def idempotencyKey_create_def)
        moreover have "leads (snd (releaseClaim (key input) e w3
            :: (error + RunIdempotentStageOutput) \<times> world)) = leads w3" by simp
        ultimately show ?thesis using l3 by (metis snd_conv)
      next
        case (Inr x)
        with a None run \<open>r2 = Inr v\<close> u have "w' = w3"
          by (simp add: runIdempotentStage_def idempotencyKey_findUnique_def idempotencyKey_create_def)
        with l3 show ?thesis by simp
      qed
    qed
    with s2 show ?thesis by simp
  qed
qed

lemma siteKey_status [simp]:
  "siteKey (l\<lparr>status := s\<rparr>) = siteKey l" "siteKey (l\<lparr>lastError := e\<rparr>) = siteKey l"
  "siteKey (l\<lparr>callAttempts := n\<rparr>) = siteKey l" "siteKey (l\<lparr>emailSentCount := n\<rparr>) = siteKey l"
  "siteKey (l\<lparr>phone := p\<rparr>) = siteKey l" "siteKey (l\<lparr>email := p\<rparr>) = siteKey l"
  "siteKey (l\<lparr>demoUrl := p\<rparr>) = siteKey l" "siteKey (l\<lparr>heroImageUrl := p\<rparr>) = siteKey l"
  "siteKey (l\<lparr>serviceImageUrls := ps\<rparr>) = siteKey l" "siteKey (l\<lparr>doNotContact := b\<rparr>) = siteKey l"
  "siteKey (l\<lparr>businessName := p\<rparr>) = siteKey l" "siteKey (l\<lparr>address := p\<rparr>) = siteKey l"
  "siteKey (l\<lparr>sourceUrl := p\<rparr>) = siteKey l"
  by (simp_all add: siteKey_def)

lemma stepsBy_callStageRun: "stepsBy CALLED_1 (callStageRun env lead to attempt sc cb)"
proof (rule stepsByI)
  fix w r w' assume a: "callStageRun env lead to attempt sc cb w = (r, w')"
  let ?input = "\<lparr>call_to = to, script = sc, callbackUrl = cb\<rparr>"
  let ?w1 = "w\<lparr>callCalls := callCalls w @ [?input]\<rparr>"
  show "rowsStep CALLED_1 (leads w) (leads w')"
  proof (cases "placeCall env (callCalls w) ?input")
    case (Inl e)
    with a have "w' = ?w1" by (simp add: callStageRun_def Let_def)
    then show ?thesis by simp
  next
    case (Inr callId)
    have "stepsBy CALLED_1
       (andThen (lead_update (lead_id lead)
                        (\<lambda>l. l\<lparr>callAttempts := callAttempts l + 1, status := CALLED_1,
                                lastError := None\<rparr>))
               (\<lambda>_. andThen (event_create
                        \<lparr>event_campaignId = campaignId lead, event_leadId = Some (lead_id lead),
                         event_type = E_CALL_PLACED,
                         metadata = JObj [(''attempt'', JNum attempt), (''callId'', JStr callId),
                                          (''callbackUrl'', JStr cb)]\<rparr>)
               (\<lambda>_ w'. (Inr (JObj [(''callId'', JStr callId)]), w'))))"
      by (intro stepsBy_andThen stepsBy_lead_update stepsBy_event_create stepsBy_simple stepsBy_return) simp_all
    moreover from a Inr have "andThen (lead_update (lead_id lead)
                        (\<lambda>l. l\<lparr>callAttempts := callAttempts l + 1, status := CALLED_1,
                                lastError := None\<rparr>))
               (\<lambda>_. andThen (event_create
                        \<lparr>event_campaignId = campaignId lead, event_leadId = Some (lead_id lead),
                         event_type = E_CALL_PLACED,
                         metadata = JObj [(''attempt'', JNum attempt), (''callId'', JStr callId),
                                          (''callbackUrl'', JStr cb)]\<rparr>)
               (\<lambda>_ w'. (Inr (JObj [(''callId'', JStr callId)]), w'))) ?w1 = (r, w')"
      by (simp add: callStageRun_def Let_def)
    ultimately have "rowsStep CALLED_1 (leads ?w1) (leads w')" by (rule stepsByD)
    then show ?thesis by simp
  qed
qed

lemma stepsBy_processCallJob: "stepsBy CALLED_1 (processCallJob env leadId attempt)"
proof (rule stepsByI)
  fix w r w' assume a: "processCallJob env leadId attempt w = (r, w')"
  show "rowsStep CALLED_1 (leads w) (leads w')"
  proof (cases "lead_findUnique leadId w")
    case None
    with a have "w' = w" by (simp add: processCallJob_def)
    then show ?thesis by simp
  next
    case (Some lead)
    let ?input = "\<lparr>key = ''call:'' @ lead_id lead @ '':attempt:'' @ String attempt, stage = ''call'',
        in_campaignId = campaignId lead, in_leadId = lead_id lead, workerName = ''caller'',
        run = callStageRun env lead (orElse (phone lead) []) attempt
                (buildCallScript (orElse (businessName lead) ''your business'')
                   (orElse (demoUrl lead) ''the preview link''))
                (orElse (CALL_WEBHOOK_BASE_URL env) ''http://localhost:3000'' @ ''/webhooks/calls/fake'')\<rparr>"
    obtain r1 w1 where st: "runIdempotentStage ?input w = (r1, w1)"
      by (cases "runIdempotentStage ?input w")
    have "stepsBy CALLED_1 (runIdempotentStage ?input)"
      by (rule stepsBy_runIdempotentStage) (simp add: stepsBy_callStageRun)
    then have s1: "rowsStep CALLED_1 (leads w) (leads w1)" using st by (rule stepsByD)
    from a Some st have "leads w' = leads w \<or> leads w' = leads w1"
      by (auto simp: processCallJob_def Let_def logMessage_def logLine_def split: if_splits sum.splits)
    with s1 show ?thesis by auto
  qed
qed

lemma stepsBy_emailStageRun: "stepsBy EMAILED_1 (emailStageRun env lead to step subj body)"
proof (rule stepsByI)
  fix w r w' assume a: "emailStageRun env lead to step subj body w = (r, w')"
  let ?input = "\<lparr>email_to = to, subject = subj, html = fst body, text_body = snd body,
                   headers = [(''x-campaign-id'', campaignId lead), (''x-lead-id'', lead_id lead),
                              (''x-email-step'', String step)]\<rparr>"
  let ?w1 = "w\<lparr>emailCalls := emailCalls w @ [?input]\<rparr>"
  show "rowsStep EMAILED_1 (leads w) (leads w')"
  proof (cases "sendEmail env (emailCalls w) ?input")
    case (Inl e)
    with a have "w' = ?w1" by (simp add: emailStageRun_def Let_def)
    then show ?thesis by simp
  next
    case (Inr messageId)
    let ?rest = "andThen (lead_update (lead_id lead)
                        (\<lambda>l. l\<lparr>emailSentCount := emailSentCount l + 1, status := EMAILED_1,
                                lastError := None\<rparr>))
               (\<lambda>_. andThen (event_create
                        \<lparr>event_campaignId = campaignId lead, event_leadId = Some (lead_id lead),
                         event_type = E_EMAIL_SENT,
                         metadata = JObj [(''step'', JNum step), (''providerMessageId'', JStr messageId),
                                          (''subject'', JStr subj)]\<rparr>)
               (\<lambda>_. andThen (callQueue_add
                        \<lparr>cq_leadId = lead_id lead, cq_attempt = 1,
                         cq_delay = Some followUpCallDelayMs\<rparr>)
               (\<lambda>_ w'. (Inr (JObj [(''providerMessageId'', JStr messageId)]), w'))))"
    have "stepsBy EMAILED_1 ?rest"
      by (intro stepsBy_andThen stepsBy_lead_update stepsBy_event_create stepsBy_simple stepsBy_return) simp_all
    moreover from a Inr have "?rest ?w1 = (r, w')"
      by (simp add: emailStageRun_def Let_def)
    ultimately have "rowsStep EMAILED_1 (leads ?w1) (leads w')" by (rule stepsByD)
    then show ?thesis by simp
  qed
qed

lemma stepsBy_processEmailJob: "stepsBy EMAILED_1 (processEmailJob env leadId step)"
proof (rule stepsByI)
  fix w r w' assume a: "processEmailJob env leadId step w = (r, w')"
  show "rowsStep EMAILED_1 (leads w) (leads w')"
  proof (cases "lead_findUnique leadId w")
    case None
    with a have "w' = w" by (simp add: processEmailJob_def)
    then show ?thesis by simp
  next
    case (Some lead)
    let ?input = "\<lparr>key = ''email:'' @ lead_id lead @ '':step:'' @ String step, stage = ''email'',
        in_campaignId = campaignId lead, in_leadId = lead_id lead, workerName = ''emailer'',
        run = emailStageRun env lead (orElse (email lead) []) step
                (buildSubject (orElse (businessName lead) ''there'') step)
                (buildBody (orElse (businessName lead) ''there'') (orElse (demoUrl lead) []) step)\<rparr>"
    obtain r1 w1 where st: "runIdempotentStage ?input w = (r1, w1)"
      by (cases "runIdempotentStage ?input w")
    have "stepsBy EMAILED_1 (runIdempotentStage ?input)"
      by (rule stepsBy_runIdempotentStage) (simp add: stepsBy_emailStageRun)
    then have s1: "rowsStep EMAILED_1 (leads w) (leads w1)" using st by (rule stepsByD)
    from a Some st have "leads w' = leads w \<or> leads w' = leads w1"
      by (auto simp: processEmailJob_def Let_def logMessage_def logLine_def split: if_splits sum.splits)
    with s1 show ?thesis by auto
  qed
qed

lemma leads_logMessage [simp]: "leads (logMessage wn c k msg w) = leads w"
  by (simp add: logMessage_def logLine_def)

lemma site_chain:
  "stepsBy SITE_GENERATED
     (andThen (lead_update i (\<lambda>l. l\<lparr>status := SITE_GENERATED, lastError := None\<rparr>))
        (\<lambda>_. andThen (event_create ev)
        (\<lambda>_. andThen (enqueueImage j)
        (\<lambda>_. effect (logMessage wn c k msg)))))"
  by (intro stepsBy_andThen stepsBy_lead_update stepsBy_event_create stepsBy_simple) simp_all

lemma stepsBy_processSiteJob: "stepsBy SITE_GENERATED (processSiteJob env leadId)"
proof (rule stepsByI)
  fix w r w' assume a: "processSiteJob env leadId w = (r, w')"
  then show "rowsStep SITE_GENERATED (leads w) (leads w')"
    by (auto simp: processSiteJob_def split: option.splits sum.splits dest: stepsByD [OF site_chain])
qed

lemma image_chain:
  "stepsBy IMAGES_READY
     (andThen (lead_update i (\<lambda>l. l\<lparr>heroImageUrl := Some hero, serviceImageUrls := services,
                                       status := IMAGES_READY, lastError := None\<rparr>))
        (\<lambda>_. andThen (event_create ev)
        (\<lambda>_. andThen (enqueueDeploy j)
        (\<lambda>_. effect (logMessage wn c k msg)))))"
  by (intro stepsBy_andThen stepsBy_lead_update stepsBy_event_create stepsBy_simple) simp_all

lemma stepsBy_processImageJob: "stepsBy IMAGES_READY (processImageJob env leadId)"
proof (rule stepsByI)
  fix w r w' assume a: "processImageJob env leadId w = (r, w')"
  then show "rowsStep IMAGES_READY (leads w) (leads w')"
    by (auto simp: processImageJob_def split: option.splits sum.splits prod.splits
        dest: stepsByD [OF image_chain])
qed

lemma deploy_chain:
  "stepsBy DEPLOYED
     (andThen (lead_update i (\<lambda>l. l\<lparr>demoUrl := Some url, status := DEPLOYED, lastError := None\<rparr>))
        (\<lambda>_. andThen (event_create ev)
        (\<lambda>_. andThen (enqueueEmail ej)
        (\<lambda>_. effect (logMessage wn c k msg)))))"
  by (intro stepsBy_andThen stepsBy_lead_update stepsBy_event_create stepsBy_simple) simp_all

lemma stepsBy_processDeployJob: "stepsBy DEPLOYED (processDeployJob env leadId)"
proof (rule stepsByI)
  fix w r w' assume a: "processDeployJob env leadId w = (r, w')"
  then show "rowsStep DEPLOYED (leads w) (leads w')"
    by (auto simp: processDeployJob_def split: option.splits sum.splits if_splits
        dest: stepsByD [OF deploy_chain])
qed

lemma enrich_chain:
  "stepsBy ENRICHED
     (andThen (lead_update i (\<lambda>l. l\<lparr>status := ENRICHED, lastError := err\<rparr>))
        (\<lambda>_. andThen (event_create ev)
        (\<lambda>_. andThen (enqueueSite j)
        (\<lambda>_. effect (logMessage wn c k msg)))))"
  by (intro stepsBy_andThen stepsBy_lead_update stepsBy_event_create stepsBy_simple) simp_all

lemma enrich_chain2:
  "stepsBy ENRICHED
     (andThen (lead_update i (\<lambda>l. l\<lparr>phone := ph, email := em, status := ENRICHED, lastError := err\<rparr>))
        (\<lambda>_. andThen (event_create ev)
        (\<lambda>_. andThen (enqueueSite j)
        (\<lambda>_. effect (logMessage wn c k msg)))))"
  by (intro stepsBy_andThen stepsBy_lead_update stepsBy_event_create stepsBy_simple) simp_all

lemma stepsBy_enrichFallback: "stepsBy ENRICHED (enrichFallback lead leadId details)"
  unfolding enrichFallback_def by (rule enrich_chain)

lemma stepsBy_enrichFromWebsite: "stepsBy ENRICHED (enrichFromWebsite env lead leadId site)"
proof (cases "crawlLeadWebsite env site")
  case (Inl e)
  then show ?thesis by (simp add: enrichFromWebsite_def)
next
  case (Inr ex)
  then show ?thesis
    unfolding enrichFromWebsite_def Let_def
    by (simp add: enrich_chain2)
qed

lemma stepsBy_processEnrichJob: "stepsBy ENRICHED (processEnrichJob env leadId)"
proof (rule stepsByI)
  fix w r w' assume a: "processEnrichJob env leadId w = (r, w')"
  show "rowsStep ENRICHED (leads w) (leads w')"
  proof (cases "lead_findUnique leadId w")
    case None
    with a have "w' = w" by (simp add: processEnrichJob_def)
    then show ?thesis by simp
  next
    case (Some lead)
    obtain r1 w1 where c: "enrichFromWebsite env lead leadId (orElse (websiteUrl lead) []) w = (r1, w1)"
      by (cases "enrichFromWebsite env lead leadId (orElse (websiteUrl lead) []) w")
    then have s1: "rowsStep ENRICHED (leads w) (leads w1)"
      using stepsBy_enrichFromWebsite by (rule stepsByD [rotated])
    have fb: "enrichFallback lead leadId d w1 = (r, w') \<Longrightarrow> rowsStep ENRICHED (leads w1) (leads w')" for d
      using stepsBy_enrichFallback by (rule stepsByD)
    from a Some c s1 show ?thesis
      by (auto simp: processEnrichJob_def
          split: if_splits sum.splits dest: stepsByD [OF enrich_chain] fb intro: rowsStep_trans)
  qed
qed

lemma stepsBy_upsertLeadFromListing: "stepsBy SCRAPED (upsertLeadFromListing env cid listing)"
  unfolding upsertLeadFromListing_def
  by (auto intro!: stepsBy_lead_upsert stepsBy_lead_create)

lemma stepsBy_scrapeOne: "stepsBy SCRAPED (scrapeOne env cid listing)"
  unfolding scrapeOne_def
  by (intro stepsBy_andThen stepsBy_upsertLeadFromListing stepsBy_event_create stepsBy_simple stepsBy_return)

lemma scrapeLoop_step:
  "scrapeLoop env cid listings counts w = (counts', w') \<Longrightarrow> rowsStep SCRAPED (leads w) (leads w')"
proof (induction listings arbitrary: counts w)
  case Nil
  then show ?case by simp
next
  case (Cons listing rest)
  obtain r1 w1 where one: "scrapeOne env cid listing w = (r1, w1)"
    by (cases "scrapeOne env cid listing w")
  then have s1: "rowsStep SCRAPED (leads w) (leads w1)"
    using stepsBy_scrapeOne by (rule stepsByD [rotated])
  show ?case
  proof (cases r1)
    case (Inl e)
    with Cons.prems one have "scrapeLoop env cid rest (fst counts, snd counts + 1)
        (logMessage ''scraper'' cid ''-''
           (''lead failed: '' @ li_businessName listing @ '' ('' @ message e @ '')'') w1) = (counts', w')"
      by simp
    then have "rowsStep SCRAPED (leads w1) (leads w')" using Cons.IH by fastforce
    with s1 show ?thesis by (rule rowsStep_trans)
  next
    case (Inr lead)
    with Cons.prems one have "scrapeLoop env cid rest (fst counts + 1, snd counts)
        (logMessage ''scraper'' cid (lead_id lead) ''scraped and queued for enrichment'' w1) = (counts', w')"
      by simp
    then have "rowsStep SCRAPED (leads w1) (leads w')" using Cons.IH by fastforce
    with s1 show ?thesis by (rule rowsStep_trans)
  qed
qed

lemma stepsBy_processScrapeJob: "stepsBy SCRAPED (processScrapeJob env cid)"
proof (rule stepsByI)
  fix w r w' assume a: "processScrapeJob env cid w = (r, w')"
  let ?w0 = "logMessage ''scraper'' cid ''-'' ''starting scrape batch'' w"
  show "rowsStep SCRAPED (leads w) (leads w')"
  proof (cases "campaign_findUnique cid ?w0")
    case None
    with a have "w' = ?w0" by (simp add: processScrapeJob_def Let_def)
    then show ?thesis by simp
  next
    case (Some campaign)
    show ?thesis
    proof (cases "scrapeListings env (niche campaign) (city campaign) (campaign_limit campaign)")
      case (Inl e)
      with a Some have "w' = ?w0" by (simp add: processScrapeJob_def Let_def)
      then show ?thesis by simp
    next
      case (Inr listings)
      obtain counts w1 where loop: "scrapeLoop env cid listings (0, 0) ?w0 = (counts, w1)"
        by (cases "scrapeLoop env cid listings (0, 0) ?w0")
      then have "rowsStep SCRAPED (leads ?w0) (leads w1)" by (rule scrapeLoop_step)
      then have s1: "rowsStep SCRAPED (leads w) (leads w1)" by simp
      have "stepsBy SCRAPED
          (andThen (campaign_update cid (\<lambda>c. c\<lparr>campaign_status := RUNNING\<rparr>))
             (\<lambda>_. effect (logMessage ''scraper'' cid ''-''
                     (''batch completed: '' @ String (int (fst counts)) @ '' succeeded, ''
                        @ String (int (snd counts)) @ '' failed''))))"
        by (intro stepsBy_andThen stepsBy_campaign_update stepsBy_event_create stepsBy_simple)
      moreover from a Some Inr loop have
        "andThen (campaign_update cid (\<lambda>c. c\<lparr>campaign_status := RUNNING\<rparr>))
             (\<lambda>_. effect (logMessage ''scraper'' cid ''-''
                     (''batch completed: '' @ String (int (fst counts)) @ '' succeeded, ''
                        @ String (int (snd counts)) @ '' failed''))) w1 = (r, w')"
        by (simp add: processScrapeJob_def Let_def)
      ultimately have "rowsStep SCRAPED (leads w1) (leads w')" by (rule stepsByD)
      with s1 show ?thesis by (rule rowsStep_trans)
    qed
  qed
qed

lemma webhook_chain:
  "stepsBy DO_NOT_CONTACT
      (andThen (event_create ev)
         (\<lambda>_. andThen (if b then lead_update i (\<lambda>l. l\<lparr>doNotContact := True, status := DO_NOT_CONTACT\<rparr>)
                        else effect (\<lambda>w. w))
         (\<lambda>_ w'. (Inr resp, w'))))"
  by (intro stepsBy_andThen stepsBy_event_create stepsBy_simple stepsBy_return)
    (auto intro!: stepsBy_lead_update stepsBy_effect)

lemma stepsBy_recordCallResult: "stepsBy DO_NOT_CONTACT (recordCallResult req payload leadId cid)"
proof (cases "truthy cid")
  case False
  then have "recordCallResult req payload leadId cid =
      (\<lambda>w. (Inr \<lparr>statusCode = 400,
                  res_body = JObj [(''error'',
                    JStr ''campaignId is required when leadId is not provided'')]\<rparr>, w))"
    by (intro ext) (simp add: recordCallResult_def)
  then show ?thesis by (simp only: stepsBy_return)
next
  case True
  then have "recordCallResult req payload leadId cid =
      andThen (event_create
                     \<lparr>event_campaignId = orElse cid [], event_leadId = leadId,
                      event_type = E_CALL_RESULT,
                      metadata = JObj [(''provider'', JStr (req_provider req)),
                        (''callId'', jsonOfOption (p_callId payload)),
                        (''status'', JStr (p_status payload)),
                        (''transcript'', if orElse (p_transcript payload) [] = [] then JNull
                                         else JStr (orElse (p_transcript payload) [])),
                        (''optOut'', JBool (if length (orElse (p_transcript payload) []) > 0
                                            then hasOptOutIntent (orElse (p_transcript payload) [])
                                            else False))]\<rparr>)
             (\<lambda>_. andThen (if truthy leadId \<and> (if length (orElse (p_transcript payload) []) > 0
                                            then hasOptOutIntent (orElse (p_transcript payload) [])
                                            else False)
                            then lead_update (orElse leadId [])
                                   (\<lambda>l. l\<lparr>doNotContact := True, status := DO_NOT_CONTACT\<rparr>)
                            else effect (\<lambda>w. w))
             (\<lambda>_ w'. (Inr \<lparr>statusCode = 200,
                           res_body = JObj [(''ok'', JBool True),
                             (''provider'', JStr (req_provider req)),
                             (''optOutApplied'', JBool (truthy leadId \<and>
                                (if length (orElse (p_transcript payload) []) > 0
                                            then hasOptOutIntent (orElse (p_transcript payload) [])
                                            else False)))]\<rparr>, w')))"
    by (intro ext) (simp add: recordCallResult_def Let_def)
  then show ?thesis by (simp only: webhook_chain)
qed

lemma stepsBy_callWebhookHandler: "stepsBy DO_NOT_CONTACT (callWebhookHandler env req)"
proof (rule stepsByI)
  fix w r w' assume a: "callWebhookHandler env req w = (r, w')"
  then show "rowsStep DO_NOT_CONTACT (leads w) (leads w')"
    by (auto simp: callWebhookHandler_def split: option.splits if_splits
        dest: stepsByD [OF stepsBy_recordCallResult])
qed

lemma stepsBy_processJob: "stepsBy (stageStatus job) (processJob env job)"
  by (cases job)
    (simp_all add: stepsBy_processScrapeJob stepsBy_processEnrichJob stepsBy_processSiteJob
      stepsBy_processImageJob stepsBy_processDeployJob stepsBy_processEmailJob
      stepsBy_processCallJob)

lemma map_filter_mem_nth:
  "y \<in> set (List.map_filter f xs) \<longleftrightarrow> (\<exists>j < length xs. f (xs ! j) = Some y)"
proof (induction xs)
  case Nil
  then show ?case by (simp add: List.map_filter_simps)
next
  case (Cons x xs)
  have ex: "(\<exists>j < length (x # xs). f ((x # xs) ! j) = Some y) \<longleftrightarrow>
            (f x = Some y \<or> (\<exists>j < length xs. f (xs ! j) = Some y))"
    by (auto simp: less_Suc_eq_0_disj)
  show ?case
    unfolding ex using Cons.IH
    by (cases "f x") (auto simp: List.map_filter_simps)
qed

lemma distinct_map_filter_iff:
  "distinct (List.map_filter f xs) \<longleftrightarrow>
     (\<forall>i j. i < j \<and> j < length xs \<and> f (xs ! i) \<noteq> None \<longrightarrow> f (xs ! i) \<noteq> f (xs ! j))"
proof (induction xs)
  case Nil
  then show ?case by (simp add: List.map_filter_simps)
next
  case (Cons x xs)
  have split: "(\<forall>i j. i < j \<and> j < length (x # xs) \<and> f ((x # xs) ! i) \<noteq> None \<longrightarrow> f ((x # xs) ! i) \<noteq> f ((x # xs) ! j))
     \<longleftrightarrow> ((\<forall>j < length xs. f x \<noteq> None \<longrightarrow> f x \<noteq> f (xs ! j))
          \<and> (\<forall>i j. i < j \<and> j < length xs \<and> f (xs ! i) \<noteq> None \<longrightarrow> f (xs ! i) \<noteq> f (xs ! j)))"
    (is "?L \<longleftrightarrow> ?A \<and> ?B")
  proof
    assume l: ?L
    have ?A
    proof (intro allI impI)
      fix j assume "j < length xs" "f x \<noteq> None"
      then show "f x \<noteq> f (xs ! j)" using l [rule_format, of 0 "Suc j"] by simp
    qed
    moreover have ?B
    proof (intro allI impI)
      fix i j assume "i < j \<and> j < length xs \<and> f (xs ! i) \<noteq> None"
      then show "f (xs ! i) \<noteq> f (xs ! j)" using l [rule_format, of "Suc i" "Suc j"] by simp
    qed
    ultimately show "?A \<and> ?B" by blast
  next
    assume ab: "?A \<and> ?B"
    show ?L
    proof (intro allI impI)
      fix i j assume h: "i < j \<and> j < length (x # xs) \<and> f ((x # xs) ! i) \<noteq> None"
      then obtain j' where j: "j = Suc j'" by (cases j) auto
      show "f ((x # xs) ! i) \<noteq> f ((x # xs) ! j)"
      proof (cases i)
        case 0
        with h j ab show ?thesis by auto
      next
        case (Suc i')
        with h j ab show ?thesis by auto
      qed
    qed
  qed
  show ?case
    unfolding split
    using Cons.IH
    by (cases "f x") (auto simp: List.map_filter_simps map_filter_mem_nth)
qed

lemma siteKey_differs:
  "(siteKey a \<noteq> None \<longrightarrow> siteKey a \<noteq> siteKey b) \<longleftrightarrow>
   (websiteUrl a \<noteq> None \<and> campaignId a = campaignId b \<longrightarrow> websiteUrl a \<noteq> websiteUrl b)"
  by (cases "websiteUrl a"; cases "websiteUrl b") (auto simp: siteKey_def)

lemma uniqueSites_pairwise:
  "uniqueSites w \<longleftrightarrow>
     (\<forall>i j. i < j \<and> j < length (leads w) \<and> websiteUrl (leads w ! i) \<noteq> None \<and>
            campaignId (leads w ! i) = campaignId (leads w ! j) \<longrightarrow>
            websiteUrl (leads w ! i) \<noteq> websiteUrl (leads w ! j))"
proof -
  have "uniqueSites w \<longleftrightarrow>
     (\<forall>i j. i < j \<and> j < length (leads w) \<longrightarrow>
        (siteKey (leads w ! i) \<noteq> None \<longrightarrow> siteKey (leads w ! i) \<noteq> siteKey (leads w ! j)))"
    unfolding uniqueSites_def distinct_map_filter_iff by blast
  also have "\<dots> \<longleftrightarrow>
     (\<forall>i j. i < j \<and> j < length (leads w) \<longrightarrow>
        (websiteUrl (leads w ! i) \<noteq> None \<and> campaignId (leads w ! i) = campaignId (leads w ! j) \<longrightarrow>
            websiteUrl (leads w ! i) \<noteq> websiteUrl (leads w ! j)))"
    unfolding siteKey_differs ..
  also have "\<dots> \<longleftrightarrow>
     (\<forall>i j. i < j \<and> j < length (leads w) \<and> websiteUrl (leads w ! i) \<noteq> None \<and>
            campaignId (leads w ! i) = campaignId (leads w ! j) \<longrightarrow>
            websiteUrl (leads w ! i) \<noteq> websiteUrl (leads w ! j))"
    by blast
  finally show ?thesis .
qed

section \<open>Re-scraping and deploying, row by row\<close>

lemma upsert_existing:
  assumes "truthy (li_websiteUrl listing)"
    and "find (\<lambda>l. campaignId l = cid \<and> websiteUrl l = li_websiteUrl listing) (leads w) = Some existing"
  shows "upsertLeadFromListing env cid listing w =
     (Inr (existing\<lparr>businessName := Some (li_businessName listing), phone := li_phone listing,
                     email := li_email listing, address := li_address listing,
                     sourceUrl := li_sourceUrl listing, status := SCRAPED, lastError := None\<rparr>),
      w\<lparr>leads := map (\<lambda>l. if campaignId l = cid \<and> websiteUrl l = li_websiteUrl listing
                         then l\<lparr>businessName := Some (li_businessName listing), phone := li_phone listing,
                                email := li_email listing, address := li_address listing,
                                sourceUrl := li_sourceUrl listing, status := SCRAPED, lastError := None\<rparr>
                         else l) (leads w)\<rparr>)"
proof -
  from assms(1) obtain url where u: "li_websiteUrl listing = Some url"
    by (auto simp: truthy_def split: option.splits)
  with assms show ?thesis
    by (simp add: upsertLeadFromListing_def lead_upsert_def orElse_def)
qed

lemma deploy_only_from_IMAGES_READY:
  assumes "processDeployJob env leadId w = (r, w')" and "lead_findUnique i w = Some l"
  shows "\<exists>l'. lead_findUnique i w' = Some l' \<and>
              (status l' = status l \<or> (status l = IMAGES_READY \<and> status l' = DEPLOYED))"
proof (cases "lead_findUnique leadId w")
  case None
  with assms show ?thesis by (simp add: processDeployJob_def)
next
  case (Some lead)
  then have id: "lead_id lead = leadId" by (rule lead_findUnique_id)
  have li: "lead_id l = i" using assms(2) by (rule lead_findUnique_id)
  have same: "lead_id l = lead_id lead \<Longrightarrow> l = lead"
    using assms(2) Some id li by simp
  have "w' = w \<or>
        (status lead = IMAGES_READY \<and>
         (\<exists>url. leads w' = map (\<lambda>l. if lead_id l = lead_id lead
              then l\<lparr>demoUrl := Some url, status := DEPLOYED, lastError := None\<rparr> else l) (leads w)))"
    using assms(1) Some id
    by (auto simp: processDeployJob_def andThen_lead_update_found enqueueEmail_def effect_def
        logMessage_def logLine_def split: if_splits sum.splits)
  then show ?thesis
  proof
    assume "w' = w" with assms(2) show ?thesis by simp
  next
    assume "status lead = IMAGES_READY \<and>
         (\<exists>url. leads w' = map (\<lambda>l. if lead_id l = lead_id lead
              then l\<lparr>demoUrl := Some url, status := DEPLOYED, lastError := None\<rparr> else l) (leads w))"
    then obtain url where st: "status lead = IMAGES_READY"
      and lw: "leads w' = map (\<lambda>l. if lead_id l = lead_id lead
              then l\<lparr>demoUrl := Some url, status := DEPLOYED, lastError := None\<rparr> else l) (leads w)"
      by blast
    have "lead_findUnique i w' = Some (if lead_id l = lead_id lead
              then l\<lparr>demoUrl := Some url, status := DEPLOYED, lastError := None\<rparr> else l)"
      using assms(2) unfolding lead_findUnique_def lw by (simp add: find_update_row)
    with st same show ?thesis by auto
  qed
qed

lemma deploy_rejects_other_status:
  assumes "lead_findUnique leadId w = Some lead" and "status lead \<noteq> IMAGES_READY"
  shows "processDeployJob env leadId w =
     (Inl (Error (''Lead '' @ leadId @ '' must be IMAGES_READY before deploy (current=''
                    @ statusName (status lead) @ '')'')), w)"
  using assms by (simp add: processDeployJob_def)

section \<open>The stage runner's contract\<close>

text \<open>
  C1. For a call with key k: a row for k with a committed result gives
  \<open>{executed: false, result: cachedResult}\<close> and the state is left as it was, whatever
  \<open>run\<close> is (it is not invoked); a row without a result gives
  \<open>{executed: false, result: null}\<close>, again whatever \<open>run\<close> is, with only the log line
  added; with no row, the claim row is inserted and \<open>run\<close> is invoked on the state that
  holds it: when \<open>run\<close> returns r, the result \<open>{value: r}\<close> is written into the row and
  \<open>{executed: true, result: r}\<close> is returned, and when \<open>run\<close> throws e, the row is
  deleted and e is thrown. (In the last two cases \<open>run\<close> has left the claim row in
  place.)
\<close>

theorem runIdempotentStage_contract:
  "(idempotencyKeys w (key input) = Some row \<and> committedValue (ik_result row) = Some v \<longrightarrow>
      runIdempotentStage (input\<lparr>run := anyRun\<rparr>) w = (Inr \<lparr>executed = False, result = v\<rparr>, w))
   \<and> (idempotencyKeys w (key input) = Some row \<and> ik_result row = None \<longrightarrow>
      runIdempotentStage (input\<lparr>run := anyRun\<rparr>) w =
        (Inr \<lparr>executed = False, result = JNull\<rparr>, idempotencyHitLog input w))
   \<and> (idempotencyKeys w (key input) = None \<and>
       run input (w\<lparr>idempotencyKeys := (idempotencyKeys w)(key input \<mapsto>
            \<lparr>ik_key = key input, ik_stage = stage input,
             ik_campaignId = Some (in_campaignId input),
             ik_leadId = Some (in_leadId input), ik_result = None\<rparr>)\<rparr>) = (Inr r, w2) \<and>
       idempotencyKeys w2 (key input) = Some claimed \<longrightarrow>
      runIdempotentStage input w =
        (Inr \<lparr>executed = True, result = r\<rparr>,
         w2\<lparr>idempotencyKeys := (idempotencyKeys w2)(key input \<mapsto>
            claimed\<lparr>ik_result := Some (JObj [(''value'', r)])\<rparr>)\<rparr>))
   \<and> (idempotencyKeys w (key input) = None \<and>
       run input (w\<lparr>idempotencyKeys := (idempotencyKeys w)(key input \<mapsto>
            \<lparr>ik_key = key input, ik_stage = stage input,
             ik_campaignId = Some (in_campaignId input),
             ik_leadId = Some (in_leadId input), ik_result = None\<rparr>)\<rparr>) = (Inl e, w2) \<and>
       idempotencyKeys w2 (key input) = Some claimed \<longrightarrow>
      runIdempotentStage input w =
        (Inl e, w2\<lparr>idempotencyKeys := (idempotencyKeys w2)(key input := None)\<rparr>))"
  by (simp add: runIdempotentStage_def idempotencyKey_findUnique_def idempotencyKey_create_def
      idempotencyKey_update_def idempotencyKey_delete_def releaseClaim_def committedValue_def
      idempotencyHitLog_def)

theorem runIdempotentStage_contract_witness:
  "runIdempotentStage exampleStageInput
      (emptyWorld\<lparr>idempotencyKeys := [''call:L1:attempt:1'' \<mapsto>
          exampleClaimRow\<lparr>ik_result := Some (JObj [(''value'', JStr ''call-0'')])\<rparr>]\<rparr>)
     = (Inr \<lparr>executed = False, result = JStr ''call-0''\<rparr>,
        emptyWorld\<lparr>idempotencyKeys := [''call:L1:attempt:1'' \<mapsto>
          exampleClaimRow\<lparr>ik_result := Some (JObj [(''value'', JStr ''call-0'')])\<rparr>]\<rparr>)
   \<and> runIdempotentStage exampleStageInput
      (emptyWorld\<lparr>idempotencyKeys := [''call:L1:attempt:1'' \<mapsto> exampleClaimRow]\<rparr>)
     = (Inr \<lparr>executed = False, result = JNull\<rparr>,
        emptyWorld\<lparr>idempotencyKeys := [''call:L1:attempt:1'' \<mapsto> exampleClaimRow],
          logs := [''[c1][L1][caller] idempotency hit for key=call:L1:attempt:1 (in-flight/unknown), skipping'']\<rparr>)
   \<and> runIdempotentStage exampleStageInput emptyWorld
     = (Inr \<lparr>executed = True, result = JStr ''call-1''\<rparr>,
        emptyWorld\<lparr>idempotencyKeys := [''call:L1:attempt:1'' \<mapsto>
          exampleClaimRow\<lparr>ik_result := Some (JObj [(''value'', JStr ''call-1'')])\<rparr>],
          logs := [''placed'']\<rparr>)
   \<and> runIdempotentStage (exampleStageInput\<lparr>run := (\<lambda>w. (Inl (Error ''busy''), logLine ''failed'' w))\<rparr>)
        emptyWorld
     = (Inl (Error ''busy''), emptyWorld\<lparr>logs := [''failed'']\<rparr>)"
proof -
  let ?k = "''call:L1:attempt:1''"
  let ?done = "exampleClaimRow\<lparr>ik_result := Some (JObj [(''value'', JStr ''call-0'')])\<rparr>"
  have a: "runIdempotentStage exampleStageInput (emptyWorld\<lparr>idempotencyKeys := [?k \<mapsto> ?done]\<rparr>)
      = (Inr \<lparr>executed = False, result = JStr ''call-0''\<rparr>,
         emptyWorld\<lparr>idempotencyKeys := [?k \<mapsto> ?done]\<rparr>)"
    using runIdempotentStage_contract
      [where w = "emptyWorld\<lparr>idempotencyKeys := [?k \<mapsto> ?done]\<rparr>"
         and input = exampleStageInput and row = ?done and v = "JStr ''call-0''"
         and anyRun = "run exampleStageInput"]
    by (simp add: exampleStageInput_def exampleClaimRow_def committedValue_def)
  have b: "runIdempotentStage exampleStageInput
        (emptyWorld\<lparr>idempotencyKeys := [?k \<mapsto> exampleClaimRow]\<rparr>)
      = (Inr \<lparr>executed = False, result = JNull\<rparr>,
         emptyWorld\<lparr>idempotencyKeys := [?k \<mapsto> exampleClaimRow],
           logs := [''[c1][L1][caller] idempotency hit for key=call:L1:attempt:1 (in-flight/unknown), skipping'']\<rparr>)"
    using runIdempotentStage_contract
      [where w = "emptyWorld\<lparr>idempotencyKeys := [?k \<mapsto> exampleClaimRow]\<rparr>"
         and input = exampleStageInput and row = exampleClaimRow
         and anyRun = "run exampleStageInput"]
    by (simp add: exampleStageInput_def exampleClaimRow_def idempotencyHitLog_def logLine_def
        emptyWorld_def)
  have c: "runIdempotentStage exampleStageInput emptyWorld
      = (Inr \<lparr>executed = True, result = JStr ''call-1''\<rparr>,
         emptyWorld\<lparr>idempotencyKeys := [?k \<mapsto>
           exampleClaimRow\<lparr>ik_result := Some (JObj [(''value'', JStr ''call-1'')])\<rparr>],
           logs := [''placed'']\<rparr>)"
    using runIdempotentStage_contract
      [where w = emptyWorld and input = exampleStageInput and r = "JStr ''call-1''"
         and claimed = exampleClaimRow
         and ?w2.0 = "emptyWorld\<lparr>idempotencyKeys := [?k \<mapsto> exampleClaimRow],
              logs := [''placed'']\<rparr>"]
    by (simp add: exampleStageInput_def exampleClaimRow_def logLine_def emptyWorld_def)
  have d: "runIdempotentStage
        (exampleStageInput\<lparr>run := (\<lambda>w. (Inl (Error ''busy''), logLine ''failed'' w))\<rparr>) emptyWorld
      = (Inl (Error ''busy''), emptyWorld\<lparr>logs := [''failed'']\<rparr>)"
    using runIdempotentStage_contract
      [where w = emptyWorld
         and input = "exampleStageInput\<lparr>run := (\<lambda>w. (Inl (Error ''busy''), logLine ''failed'' w))\<rparr>"
         and e = "Error ''busy''" and claimed = exampleClaimRow
         and ?w2.0 = "emptyWorld\<lparr>idempotencyKeys := [?k \<mapsto> exampleClaimRow],
              logs := [''failed'']\<rparr>"]
    by (simp add: exampleStageInput_def exampleClaimRow_def logLine_def emptyWorld_def)
  from a b c d show ?thesis by blast
qed

section \<open>Idempotent contact stages\<close>

text \<open>
  C2. Take a Call job (or an Email job) whose handler reaches the provider and whose
  provider call succeeds: the lead is found and may be contacted, the attempt cap (the
  already-sent check) lets it through, and the dedup key is not in the store. Then the
  handler, invoked twice in sequence, calls the provider exactly once, in the first
  invocation; after it, \<open>runIdempotentStage\<close> for the same key returns
  \<open>{executed: false}\<close> with the result of the first execution, whatever \<open>run\<close> it is
  given; the second invocation returns normally and leaves the provider calls, the events,
  the leads, the queue and the idempotency store as they are. The same holds when the
  second invocation finds the lead row as it was before the first (the same lead state):
  it stops at the idempotency skip.
\<close>

theorem contact_stage_idempotent:
  fixes env :: env and w :: world and lead :: Lead
  defines "callInput \<equiv>
     \<lparr>call_to = orElse (phone lead) [],
      script = buildCallScript (orElse (businessName lead) ''your business'')
                 (orElse (demoUrl lead) ''the preview link''),
      callbackUrl = orElse (CALL_WEBHOOK_BASE_URL env) ''http://localhost:3000''
                      @ ''/webhooks/calls/fake''\<rparr>"
    and "emailInput \<equiv> (\<lambda>step.
     \<lparr>email_to = orElse (email lead) [],
      subject = buildSubject (orElse (businessName lead) ''there'') step,
      html = fst (buildBody (orElse (businessName lead) ''there'') (orElse (demoUrl lead) []) step),
      text_body = snd (buildBody (orElse (businessName lead) ''there'') (orElse (demoUrl lead) []) step),
      headers = [(''x-campaign-id'', campaignId lead), (''x-lead-id'', lead_id lead),
                 (''x-email-step'', String step)]\<rparr>)"
  shows
  "(lead_findUnique leadId w = Some lead \<and> \<not> doNotContact lead \<and> truthy (phone lead) \<and>
    callAttempts lead < 2 \<and>
    idempotencyKeys w (''call:'' @ leadId @ '':attempt:'' @ String attempt) = None \<and>
    placeCall env (callCalls w) callInput = Inr callId \<longrightarrow>
      (\<exists>w1 w2 line.
         processCallJob env leadId attempt w = (Inr (), w1) \<and>
         processCallJob env leadId attempt w1 = (Inr (), w2) \<and>
         callCalls w1 = callCalls w @ [callInput] \<and>
         callCalls w2 = callCalls w1 \<and> events w2 = events w1 \<and> leads w2 = leads w1 \<and>
         idempotencyKeys w2 = idempotencyKeys w1 \<and>
         (\<forall>anyRun.
            runIdempotentStage
              \<lparr>key = ''call:'' @ leadId @ '':attempt:'' @ String attempt, stage = ''call'',
               in_campaignId = campaignId lead, in_leadId = leadId, workerName = ''caller'',
               run = anyRun\<rparr> w1
            = (Inr \<lparr>executed = False, result = JObj [(''callId'', JStr callId)]\<rparr>, w1)) \<and>
         processCallJob env leadId attempt (w1\<lparr>leads := leads w\<rparr>)
            = (Inr (), w1\<lparr>leads := leads w, logs := logs w1 @ [line]\<rparr>)))
   \<and> (lead_findUnique leadId w = Some lead \<and> \<not> doNotContact lead \<and> truthy (email lead) \<and>
       truthy (demoUrl lead) \<and> emailSentCount lead < step \<and>
       idempotencyKeys w (''email:'' @ leadId @ '':step:'' @ String step) = None \<and>
       sendEmail env (emailCalls w) (emailInput step) = Inr messageId \<longrightarrow>
      (\<exists>w1 w2 line.
         processEmailJob env leadId step w = (Inr (), w1) \<and>
         processEmailJob env leadId step w1 = (Inr (), w2) \<and>
         emailCalls w1 = emailCalls w @ [emailInput step] \<and>
         emailCalls w2 = emailCalls w1 \<and> events w2 = events w1 \<and> leads w2 = leads w1 \<and>
         callQueue w2 = callQueue w1 \<and> idempotencyKeys w2 = idempotencyKeys w1 \<and>
         (\<forall>anyRun.
            runIdempotentStage
              \<lparr>key = ''email:'' @ leadId @ '':step:'' @ String step, stage = ''email'',
               in_campaignId = campaignId lead, in_leadId = leadId, workerName = ''emailer'',
               run = anyRun\<rparr> w1
            = (Inr \<lparr>executed = False, result = JObj [(''providerMessageId'', JStr messageId)]\<rparr>, w1)) \<and>
         processEmailJob env leadId step (w1\<lparr>leads := leads w\<rparr>)
            = (Inr (), w1\<lparr>leads := leads w, logs := logs w1 @ [line]\<rparr>)))"
proof (intro conjI impI)
  assume a: "lead_findUnique leadId w = Some lead \<and> \<not> doNotContact lead \<and> truthy (phone lead) \<and>
    callAttempts lead < 2 \<and>
    idempotencyKeys w (''call:'' @ leadId @ '':attempt:'' @ String attempt) = None \<and>
    placeCall env (callCalls w) callInput = Inr callId"
  let ?k = "''call:'' @ leadId @ '':attempt:'' @ String attempt"
  from a obtain to where to: "phone lead = Some to" "to \<noteq> []"
    by (auto simp: truthy_def split: option.splits)
  have id: "lead_id lead = leadId" using a by (auto dest: lead_findUnique_id)
  have ci: "callInput = \<lparr>call_to = to,
            script = buildCallScript (orElse (businessName lead) ''your business'')
                       (orElse (demoUrl lead) ''the preview link''),
            callbackUrl = orElse (CALL_WEBHOOK_BASE_URL env) ''http://localhost:3000''
                            @ ''/webhooks/calls/fake''\<rparr>"
    using to by (simp add: callInput_def orElse_def)
  let ?row = "\<lparr>ik_key = ?k, ik_stage = ''call'',
             ik_campaignId = Some (campaignId lead), ik_leadId = Some leadId,
             ik_result = Some (JObj [(''value'', JObj [(''callId'', JStr callId)])])\<rparr>"
  let ?w1 = "w\<lparr>callCalls := callCalls w @ [callInput],
        leads := map (\<lambda>l. if lead_id l = leadId
                           then l\<lparr>callAttempts := callAttempts l + 1, status := CALLED_1, lastError := None\<rparr>
                           else l) (leads w),
        events := events w @
          [\<lparr>event_campaignId = campaignId lead, event_leadId = Some leadId,
            event_type = E_CALL_PLACED,
            metadata = JObj [(''attempt'', JNum attempt), (''callId'', JStr callId),
               (''callbackUrl'', JStr (orElse (CALL_WEBHOOK_BASE_URL env) ''http://localhost:3000''
                            @ ''/webhooks/calls/fake''))]\<rparr>],
        idempotencyKeys := (idempotencyKeys w)(?k \<mapsto> ?row),
        logs := logs w @ [''['' @ campaignId lead @ '']['' @ leadId @ ''][caller] call attempt ''
                           @ String attempt @ '' placed'']\<rparr>"
  have first: "processCallJob env leadId attempt w = (Inr (), ?w1)"
    using processCallJob_first [of leadId w lead to attempt env callId] a to ci by simp
  have found1: "lead_findUnique leadId ?w1 =
      Some (lead\<lparr>callAttempts := callAttempts lead + 1, status := CALLED_1, lastError := None\<rparr>)"
    using a id unfolding lead_findUnique_def by (simp add: find_update_row)
  have key1: "idempotencyKeys ?w1 ?k = Some ?row" by simp
  have cv: "committedValue (ik_result ?row) = Some (JObj [(''callId'', JStr callId)])"
    by (simp add: committedValue_def)
  obtain line2 where second: "processCallJob env leadId attempt ?w1 = (Inr (), ?w1\<lparr>logs := logs ?w1 @ [line2]\<rparr>)"
    using processCallJob_replay [OF found1 key1 cv] by blast
  have cached: "\<forall>anyRun. runIdempotentStage
              \<lparr>key = ?k, stage = ''call'', in_campaignId = campaignId lead, in_leadId = leadId,
               workerName = ''caller'', run = anyRun\<rparr> ?w1
            = (Inr \<lparr>executed = False, result = JObj [(''callId'', JStr callId)]\<rparr>, ?w1)"
    by (simp add: runIdempotentStage_def idempotencyKey_findUnique_def committedValue_def)
  have same: "processCallJob env leadId attempt (?w1\<lparr>leads := leads w\<rparr>)
      = (Inr (), ?w1\<lparr>leads := leads w, logs := logs ?w1 @
           [''['' @ campaignId lead @ '']['' @ leadId @ ''][caller] idempotency skip for attempt ''
              @ String attempt]\<rparr>)"
    using a id
    by (simp add: processCallJob_def lead_findUnique_def Let_def runIdempotentStage_def
        idempotencyKey_findUnique_def committedValue_def logMessage_def logLine_def)
  show "\<exists>w1 w2 line.
         processCallJob env leadId attempt w = (Inr (), w1) \<and>
         processCallJob env leadId attempt w1 = (Inr (), w2) \<and>
         callCalls w1 = callCalls w @ [callInput] \<and>
         callCalls w2 = callCalls w1 \<and> events w2 = events w1 \<and> leads w2 = leads w1 \<and>
         idempotencyKeys w2 = idempotencyKeys w1 \<and>
         (\<forall>anyRun.
            runIdempotentStage
              \<lparr>key = ''call:'' @ leadId @ '':attempt:'' @ String attempt, stage = ''call'',
               in_campaignId = campaignId lead, in_leadId = leadId, workerName = ''caller'',
               run = anyRun\<rparr> w1
            = (Inr \<lparr>executed = False, result = JObj [(''callId'', JStr callId)]\<rparr>, w1)) \<and>
         processCallJob env leadId attempt (w1\<lparr>leads := leads w\<rparr>)
            = (Inr (), w1\<lparr>leads := leads w, logs := logs w1 @ [line]\<rparr>)"
    apply (rule exI [where x = ?w1])
    apply (rule exI [where x = "?w1\<lparr>logs := logs ?w1 @ [line2]\<rparr>"])
    apply (rule exI [where x = "''['' @ campaignId lead @ '']['' @ leadId
              @ ''][caller] idempotency skip for attempt '' @ String attempt"])
    apply (intro conjI)
            apply (rule first)
           apply (rule second)
          apply simp
         apply simp
        apply simp
       apply simp
      apply simp
     apply (rule cached)
    apply (rule same)
    done
next
  assume a: "lead_findUnique leadId w = Some lead \<and> \<not> doNotContact lead \<and> truthy (email lead) \<and>
       truthy (demoUrl lead) \<and> emailSentCount lead < step \<and>
       idempotencyKeys w (''email:'' @ leadId @ '':step:'' @ String step) = None \<and>
       sendEmail env (emailCalls w) (emailInput step) = Inr messageId"
  let ?k = "''email:'' @ leadId @ '':step:'' @ String step"
  from a obtain to where to: "email lead = Some to" "to \<noteq> []"
    by (auto simp: truthy_def split: option.splits)
  from a obtain url where url: "demoUrl lead = Some url" "url \<noteq> []"
    by (auto simp: truthy_def split: option.splits)
  have id: "lead_id lead = leadId" using a by (auto dest: lead_findUnique_id)
  have ei: "emailInput step =
           \<lparr>email_to = to, subject = buildSubject (orElse (businessName lead) ''there'') step,
            html = fst (buildBody (orElse (businessName lead) ''there'') url step),
            text_body = snd (buildBody (orElse (businessName lead) ''there'') url step),
            headers = [(''x-campaign-id'', campaignId lead), (''x-lead-id'', leadId),
                       (''x-email-step'', String step)]\<rparr>"
    using to url id by (simp add: emailInput_def orElse_def)
  let ?row = "\<lparr>ik_key = ?k, ik_stage = ''email'',
             ik_campaignId = Some (campaignId lead), ik_leadId = Some leadId,
             ik_result = Some (JObj [(''value'', JObj [(''providerMessageId'', JStr messageId)])])\<rparr>"
  let ?w1 = "w\<lparr>emailCalls := emailCalls w @ [emailInput step],
        leads := map (\<lambda>l. if lead_id l = leadId
                           then l\<lparr>emailSentCount := emailSentCount l + 1, status := EMAILED_1, lastError := None\<rparr>
                           else l) (leads w),
        events := events w @
          [\<lparr>event_campaignId = campaignId lead, event_leadId = Some leadId,
            event_type = E_EMAIL_SENT,
            metadata = JObj [(''step'', JNum step), (''providerMessageId'', JStr messageId),
               (''subject'', JStr (buildSubject (orElse (businessName lead) ''there'') step))]\<rparr>],
        callQueue := callQueue w @
          [\<lparr>cq_leadId = leadId, cq_attempt = 1, cq_delay = Some followUpCallDelayMs\<rparr>],
        idempotencyKeys := (idempotencyKeys w)(?k \<mapsto> ?row),
        logs := logs w @ [''['' @ campaignId lead @ '']['' @ leadId @ ''][emailer] email step ''
                           @ String step @ '' sent; follow-up call queued (+30m)'']\<rparr>"
  have first: "processEmailJob env leadId step w = (Inr (), ?w1)"
    using processEmailJob_first [of leadId w lead to url step env messageId] a to url ei by simp
  have found1: "lead_findUnique leadId ?w1 =
      Some (lead\<lparr>emailSentCount := emailSentCount lead + 1, status := EMAILED_1, lastError := None\<rparr>)"
    using a id unfolding lead_findUnique_def by (simp add: find_update_row)
  have key1: "idempotencyKeys ?w1 ?k = Some ?row" by simp
  have cv: "committedValue (ik_result ?row) = Some (JObj [(''providerMessageId'', JStr messageId)])"
    by (simp add: committedValue_def)
  have urlok: "truthy (email (lead\<lparr>emailSentCount := emailSentCount lead + 1, status := EMAILED_1, lastError := None\<rparr>))
      \<longrightarrow> truthy (demoUrl (lead\<lparr>emailSentCount := emailSentCount lead + 1, status := EMAILED_1, lastError := None\<rparr>))"
    using a by simp
  obtain line2 where second: "processEmailJob env leadId step ?w1 = (Inr (), ?w1\<lparr>logs := logs ?w1 @ [line2]\<rparr>)"
    using processEmailJob_replay [OF found1 key1 cv urlok] by blast
  have cached: "\<forall>anyRun. runIdempotentStage
              \<lparr>key = ?k, stage = ''email'', in_campaignId = campaignId lead, in_leadId = leadId,
               workerName = ''emailer'', run = anyRun\<rparr> ?w1
            = (Inr \<lparr>executed = False, result = JObj [(''providerMessageId'', JStr messageId)]\<rparr>, ?w1)"
    by (simp add: runIdempotentStage_def idempotencyKey_findUnique_def committedValue_def)
  have same: "processEmailJob env leadId step (?w1\<lparr>leads := leads w\<rparr>)
      = (Inr (), ?w1\<lparr>leads := leads w, logs := logs ?w1 @
           [''['' @ campaignId lead @ '']['' @ leadId @ ''][emailer] idempotency skip for step ''
              @ String step]\<rparr>)"
    using a id
    by (simp add: processEmailJob_def lead_findUnique_def Let_def runIdempotentStage_def
        idempotencyKey_findUnique_def committedValue_def logMessage_def logLine_def)
  show "\<exists>w1 w2 line.
         processEmailJob env leadId step w = (Inr (), w1) \<and>
         processEmailJob env leadId step w1 = (Inr (), w2) \<and>
         emailCalls w1 = emailCalls w @ [emailInput step] \<and>
         emailCalls w2 = emailCalls w1 \<and> events w2 = events w1 \<and> leads w2 = leads w1 \<and>
         callQueue w2 = callQueue w1 \<and> idempotencyKeys w2 = idempotencyKeys w1 \<and>
         (\<forall>anyRun.
            runIdempotentStage
              \<lparr>key = ''email:'' @ leadId @ '':step:'' @ String step, stage = ''email'',
               in_campaignId = campaignId lead, in_leadId = leadId, workerName = ''emailer'',
               run = anyRun\<rparr> w1
            = (Inr \<lparr>executed = False, result = JObj [(''providerMessageId'', JStr messageId)]\<rparr>, w1)) \<and>
         processEmailJob env leadId step (w1\<lparr>leads := leads w\<rparr>)
            = (Inr (), w1\<lparr>leads := leads w, logs := logs w1 @ [line]\<rparr>)"
    apply (rule exI [where x = ?w1])
    apply (rule exI [where x = "?w1\<lparr>logs := logs ?w1 @ [line2]\<rparr>"])
    apply (rule exI [where x = "''['' @ campaignId lead @ '']['' @ leadId
              @ ''][emailer] idempotency skip for step '' @ String step"])
    apply (intro conjI)
             apply (rule first)
            apply (rule second)
           apply simp
          apply simp
         apply simp
        apply simp
       apply simp
      apply simp
     apply (rule cached)
    apply (rule same)
    done
qed

theorem contact_stage_idempotent_witness:
  "(\<exists>w1 w2. processCallJob exampleEnv ''L1'' 1 readyWorld = (Inr (), w1) \<and>
             processCallJob exampleEnv ''L1'' 1 w1 = (Inr (), w2) \<and>
             length (callCalls w1) = 1 \<and> callCalls w2 = callCalls w1)
   \<and> (\<exists>w1 w2. processEmailJob exampleEnv ''L1'' 2 readyWorld = (Inr (), w1) \<and>
             processEmailJob exampleEnv ''L1'' 2 w1 = (Inr (), w2) \<and>
             length (emailCalls w1) = 1 \<and> emailCalls w2 = emailCalls w1)"
proof -
  note inst = contact_stage_idempotent
    [where env = exampleEnv and w = readyWorld and lead = readyLead and leadId = "''L1''"
       and attempt = 1 and step = 2 and callId = "''call-1''" and messageId = "''msg-1''"]
  have found: "lead_findUnique ''L1'' readyWorld = Some readyLead"
    by (simp add: lead_findUnique_def readyWorld_def readyLead_def exampleLead_def leadDefaults_def)
  have hc: "lead_findUnique ''L1'' readyWorld = Some readyLead \<and> \<not> doNotContact readyLead \<and>
      truthy (phone readyLead) \<and> callAttempts readyLead < 2 \<and>
      idempotencyKeys readyWorld (''call:'' @ ''L1'' @ '':attempt:'' @ String 1) = None \<and>
      placeCall exampleEnv (callCalls readyWorld)
        \<lparr>call_to = orElse (phone readyLead) [],
         script = buildCallScript (orElse (businessName readyLead) ''your business'')
                 (orElse (demoUrl readyLead) ''the preview link''),
         callbackUrl = orElse (CALL_WEBHOOK_BASE_URL exampleEnv) ''http://localhost:3000''
                      @ ''/webhooks/calls/fake''\<rparr> = Inr ''call-1''"
    using found
    by (simp add: readyWorld_def readyLead_def exampleLead_def leadDefaults_def emptyWorld_def
        exampleEnv_def truthy_def)
  have he: "lead_findUnique ''L1'' readyWorld = Some readyLead \<and> \<not> doNotContact readyLead \<and>
      truthy (email readyLead) \<and> truthy (demoUrl readyLead) \<and> emailSentCount readyLead < 2 \<and>
      idempotencyKeys readyWorld (''email:'' @ ''L1'' @ '':step:'' @ String 2) = None \<and>
      sendEmail exampleEnv (emailCalls readyWorld)
        \<lparr>email_to = orElse (email readyLead) [],
         subject = buildSubject (orElse (businessName readyLead) ''there'') 2,
         html = fst (buildBody (orElse (businessName readyLead) ''there'') (orElse (demoUrl readyLead) []) 2),
         text_body = snd (buildBody (orElse (businessName readyLead) ''there'') (orElse (demoUrl readyLead) []) 2),
         headers = [(''x-campaign-id'', campaignId readyLead), (''x-lead-id'', lead_id readyLead),
                    (''x-email-step'', String 2)]\<rparr> = Inr ''msg-1''"
    using found
    by (simp add: readyWorld_def readyLead_def exampleLead_def leadDefaults_def emptyWorld_def
        exampleEnv_def truthy_def)
  have nocalls: "callCalls readyWorld = []" "emailCalls readyWorld = []"
    by (simp_all add: readyWorld_def emptyWorld_def)
  from inst [THEN conjunct1, THEN mp, OF hc] nocalls
  have one: "\<exists>w1 w2. processCallJob exampleEnv ''L1'' 1 readyWorld = (Inr (), w1) \<and>
             processCallJob exampleEnv ''L1'' 1 w1 = (Inr (), w2) \<and>
             length (callCalls w1) = 1 \<and> callCalls w2 = callCalls w1"
    by auto
  from inst [THEN conjunct2, THEN mp, OF he] nocalls
  have two: "\<exists>w1 w2. processEmailJob exampleEnv ''L1'' 2 readyWorld = (Inr (), w1) \<and>
             processEmailJob exampleEnv ''L1'' 2 w1 = (Inr (), w2) \<and>
             length (emailCalls w1) = 1 \<and> emailCalls w2 = emailCalls w1"
    by auto
  from one two show ?thesis by blast
qed

section \<open>The statuses a handler writes\<close>

text \<open>
  C3, amended. After a job of any stage, whatever its outcome, every lead that was stored
  is still stored and its status is unchanged or is the status of that stage (Scrape
  SCRAPED, Enrich ENRICHED, Site-Generate SITE_GENERATED, Image-Assign IMAGES_READY, Deploy
  DEPLOYED, Email EMAILED_1, Call CALLED_1). So the status has not moved backwards along
  the order whenever it was not later than the stage's status before the job; after a
  Deploy job it has never moved backwards, since Deploy writes only over IMAGES_READY.
  After a webhook call the status is unchanged or DO_NOT_CONTACT, from any state.
\<close>

theorem status_written_by_stage:
  "(processJob env job w = (r, w') \<and> lead_findUnique i w = Some l \<longrightarrow>
      (\<exists>l'. lead_findUnique i w' = Some l' \<and>
            (status l' = status l \<or> status l' = stageStatus job) \<and>
            (rank (status l) \<le> rank (stageStatus job) \<longrightarrow> rank (status l) \<le> rank (status l')) \<and>
            (\<forall>leadId. job = DeployJob leadId \<longrightarrow> rank (status l) \<le> rank (status l'))))
   \<and> (callWebhookHandler env req w = (response, w'') \<and> lead_findUnique i w = Some l \<longrightarrow>
      (\<exists>l'. lead_findUnique i w'' = Some l' \<and>
            (status l' = status l \<or> status l' = DO_NOT_CONTACT)))"
proof (intro conjI impI)
  assume a: "processJob env job w = (r, w') \<and> lead_findUnique i w = Some l"
  then have "rowsStep (stageStatus job) (leads w) (leads w')"
    using stepsBy_processJob by (auto dest: stepsByD)
  with a obtain l' where l': "lead_findUnique i w' = Some l'"
    "status l' = status l \<or> status l' = stageStatus job"
    unfolding rowsStep_def lead_findUnique_def by blast
  have dep: "\<forall>leadId. job = DeployJob leadId \<longrightarrow> rank (status l) \<le> rank (status l')"
  proof (intro allI impI)
    fix leadId assume "job = DeployJob leadId"
    with a have "processDeployJob env leadId w = (r, w')" by simp
    from deploy_only_from_IMAGES_READY [OF this, of i l] a l'(1)
    show "rank (status l) \<le> rank (status l')" by auto
  qed
  from l' dep show "\<exists>l'. lead_findUnique i w' = Some l' \<and>
            (status l' = status l \<or> status l' = stageStatus job) \<and>
            (rank (status l) \<le> rank (stageStatus job) \<longrightarrow> rank (status l) \<le> rank (status l')) \<and>
            (\<forall>leadId. job = DeployJob leadId \<longrightarrow> rank (status l) \<le> rank (status l'))"
    by auto
next
  assume a: "callWebhookHandler env req w = (response, w'') \<and> lead_findUnique i w = Some l"
  then have "rowsStep DO_NOT_CONTACT (leads w) (leads w'')"
    using stepsBy_callWebhookHandler by (auto dest: stepsByD)
  with a show "\<exists>l'. lead_findUnique i w'' = Some l' \<and>
            (status l' = status l \<or> status l' = DO_NOT_CONTACT)"
    unfolding rowsStep_def lead_findUnique_def by blast
qed

theorem status_written_by_stage_witness:
  "(\<exists>l'. lead_findUnique ''L1'' (snd (processJob exampleEnv (EnrichJob ''L1'')
            (emptyWorld\<lparr>leads := [exampleLead]\<rparr>))) = Some l' \<and>
         (status l' = SCRAPED \<or> status l' = ENRICHED) \<and> rank SCRAPED \<le> rank (status l'))
   \<and> (\<exists>l'. lead_findUnique ''L1'' (snd (callWebhookHandler exampleEnv
            \<lparr>req_body = JObj [(''leadId'', JStr ''L1''), (''status'', JStr ''answered''),
                               (''transcript'', JStr ''unsubscribe'')], req_provider = ''fake''\<rparr>
            (emptyWorld\<lparr>leads := [exampleLead]\<rparr>))) = Some l' \<and>
         (status l' = SCRAPED \<or> status l' = DO_NOT_CONTACT))"
proof -
  let ?w = "emptyWorld\<lparr>leads := [exampleLead]\<rparr>"
  let ?req = "\<lparr>req_body = JObj [(''leadId'', JStr ''L1''), (''status'', JStr ''answered''),
                               (''transcript'', JStr ''unsubscribe'')], req_provider = ''fake''\<rparr>"
  have found: "lead_findUnique ''L1'' ?w = Some exampleLead"
    by (simp add: lead_findUnique_def exampleLead_def leadDefaults_def)
  have st: "status exampleLead = SCRAPED"
    by (simp add: exampleLead_def leadDefaults_def)
  have h1: "processJob exampleEnv (EnrichJob ''L1'') ?w =
      (fst (processJob exampleEnv (EnrichJob ''L1'') ?w), snd (processJob exampleEnv (EnrichJob ''L1'') ?w))
      \<and> lead_findUnique ''L1'' ?w = Some exampleLead"
    using found by simp
  have h2: "callWebhookHandler exampleEnv ?req ?w =
      (fst (callWebhookHandler exampleEnv ?req ?w), snd (callWebhookHandler exampleEnv ?req ?w))
      \<and> lead_findUnique ''L1'' ?w = Some exampleLead"
    using found by simp
  note inst = status_written_by_stage
    [where env = exampleEnv and job = "EnrichJob ''L1''" and w = ?w and i = "''L1''" and l = exampleLead
       and r = "fst (processJob exampleEnv (EnrichJob ''L1'') ?w)"
       and w' = "snd (processJob exampleEnv (EnrichJob ''L1'') ?w)"
       and req = ?req
       and response = "fst (callWebhookHandler exampleEnv ?req ?w)"
       and w'' = "snd (callWebhookHandler exampleEnv ?req ?w)"]
  from inst [THEN conjunct1, THEN mp, OF h1] st
  have a: "\<exists>l'. lead_findUnique ''L1'' (snd (processJob exampleEnv (EnrichJob ''L1'') ?w)) = Some l' \<and>
         (status l' = SCRAPED \<or> status l' = ENRICHED) \<and> rank SCRAPED \<le> rank (status l')"
    by auto
  from inst [THEN conjunct2, THEN mp, OF h2] st
  have b: "\<exists>l'. lead_findUnique ''L1'' (snd (callWebhookHandler exampleEnv ?req ?w)) = Some l' \<and>
         (status l' = SCRAPED \<or> status l' = DO_NOT_CONTACT)"
    by auto
  from a b show ?thesis by blast
qed

text \<open>
  C3 as stated fails: scraping again a listing whose website is stored for the campaign
  writes SCRAPED over the lead's status, here DEPLOYED, which is later in the order.
\<close>

theorem rescrape_resets_status_counterexample:
  "map lead_id (leads readyWorld) = [''L1''] \<and> map status (leads readyWorld) = [DEPLOYED] \<and>
   fst (processJob rescrapeEnv (ScrapeJob ''c1'') readyWorld) = Inr () \<and>
   map lead_id (leads (snd (processJob rescrapeEnv (ScrapeJob ''c1'') readyWorld))) = [''L1''] \<and>
   map status (leads (snd (processJob rescrapeEnv (ScrapeJob ''c1'') readyWorld))) = [SCRAPED] \<and>
   rank SCRAPED < rank DEPLOYED"
  by (simp add: processScrapeJob_def Let_def rescrapeEnv_def exampleEnv_def readyWorld_def
      readyLead_def exampleLead_def leadDefaults_def exampleCampaign_def emptyWorld_def
      campaign_findUnique_def logMessage_def logLine_def scrapeOne_def upsertLeadFromListing_def
      lead_upsert_def truthy_def orElse_def exampleListing_def enqueueEnrich_def
      campaign_update_def effect_def andThen_def event_create_def)

section \<open>Status preconditions\<close>

text \<open>
  C4, at a failing input: a lead whose status is DEPLOYED. The Deploy handler rejects it
  with an error and changes nothing, as the claim says; the Site-Generate handler and the
  Image-Assign handler do not look at the status: they succeed, write SITE_GENERATED and
  IMAGES_READY over DEPLOYED, and queue the next stage.
\<close>

theorem site_and_image_ignore_status:
  "status readyLead = DEPLOYED
   \<and> fst (processSiteJob exampleEnv ''L1'' readyWorld) = Inr ()
   \<and> map status (leads (snd (processSiteJob exampleEnv ''L1'' readyWorld))) = [SITE_GENERATED]
   \<and> imageQueue (snd (processSiteJob exampleEnv ''L1'' readyWorld)) = [''L1'']
   \<and> fst (processImageJob exampleEnv ''L1'' readyWorld) = Inr ()
   \<and> map status (leads (snd (processImageJob exampleEnv ''L1'' readyWorld))) = [IMAGES_READY]
   \<and> deployQueue (snd (processImageJob exampleEnv ''L1'' readyWorld)) = [''L1'']
   \<and> processDeployJob exampleEnv ''L1'' readyWorld =
       (Inl (Error ''Lead L1 must be IMAGES_READY before deploy (current=DEPLOYED)''), readyWorld)"
proof -
  have found: "lead_findUnique ''L1'' readyWorld = Some readyLead"
    by (simp add: lead_findUnique_def readyWorld_def readyLead_def exampleLead_def leadDefaults_def)
  have st: "status readyLead = DEPLOYED"
    by (simp add: readyLead_def)
  have site: "fst (processSiteJob exampleEnv ''L1'' readyWorld) = Inr ()
      \<and> map status (leads (snd (processSiteJob exampleEnv ''L1'' readyWorld))) = [SITE_GENERATED]
      \<and> imageQueue (snd (processSiteJob exampleEnv ''L1'' readyWorld)) = [''L1'']"
    by (simp add: processSiteJob_def lead_findUnique_def campaign_findUnique_def andThen_def
        lead_update_def event_create_def campaignStored_def leadStored_def effect_def enqueueImage_def logMessage_def logLine_def
        event_findLatest_def servicesOf_def orElse_def exampleEnv_def readyWorld_def emptyWorld_def
        readyLead_def exampleLead_def leadDefaults_def exampleCampaign_def)
  have image: "fst (processImageJob exampleEnv ''L1'' readyWorld) = Inr ()
      \<and> map status (leads (snd (processImageJob exampleEnv ''L1'' readyWorld))) = [IMAGES_READY]
      \<and> deployQueue (snd (processImageJob exampleEnv ''L1'' readyWorld)) = [''L1'']"
    by (simp add: processImageJob_def lead_findUnique_def campaign_findUnique_def andThen_def
        lead_update_def event_create_def campaignStored_def leadStored_def effect_def enqueueDeploy_def logMessage_def logLine_def
        defaultStyle_def exampleEnv_def readyWorld_def emptyWorld_def
        readyLead_def exampleLead_def leadDefaults_def exampleCampaign_def)
  have dep: "processDeployJob exampleEnv ''L1'' readyWorld =
       (Inl (Error ''Lead L1 must be IMAGES_READY before deploy (current=DEPLOYED)''), readyWorld)"
    using found st by (simp add: processDeployJob_def)
  from st site image dep show ?thesis by blast
qed

section \<open>Opt-out stickiness\<close>

text \<open>
  C5. For a lead whose \<open>doNotContact\<close> is true, the Call handler and the Email handler
  return normally (the job succeeds), and the state after them is the state before with
  one log line added: no provider call, no event, no change to the lead, to the
  idempotency store or to a queue.
\<close>

theorem doNotContact_skip:
  "lead_findUnique leadId w = Some lead \<and> doNotContact lead \<longrightarrow>
     processCallJob env leadId attempt w =
       (Inr (), w\<lparr>logs := logs w @
          [''['' @ campaignId lead @ '']['' @ leadId @ ''][caller] skipped call (doNotContact=true)'']\<rparr>)
     \<and> processEmailJob env leadId step w =
       (Inr (), w\<lparr>logs := logs w @
          [''['' @ campaignId lead @ '']['' @ leadId @ ''][emailer] skipped email (doNotContact=true)'']\<rparr>)"
proof
  assume a: "lead_findUnique leadId w = Some lead \<and> doNotContact lead"
  then have id: "lead_id lead = leadId" by (auto dest: lead_findUnique_id)
  from a id show "processCallJob env leadId attempt w =
       (Inr (), w\<lparr>logs := logs w @
          [''['' @ campaignId lead @ '']['' @ leadId @ ''][caller] skipped call (doNotContact=true)'']\<rparr>)
     \<and> processEmailJob env leadId step w =
       (Inr (), w\<lparr>logs := logs w @
          [''['' @ campaignId lead @ '']['' @ leadId @ ''][emailer] skipped email (doNotContact=true)'']\<rparr>)"
    by (simp add: processCallJob_def processEmailJob_def logMessage_def logLine_def)
qed

theorem doNotContact_skip_witness:
  "processCallJob exampleEnv ''L1'' 1 (emptyWorld\<lparr>leads := [exampleLead\<lparr>doNotContact := True\<rparr>]\<rparr>) =
       (Inr (), emptyWorld\<lparr>leads := [exampleLead\<lparr>doNotContact := True\<rparr>],
          logs := [''[c1][L1][caller] skipped call (doNotContact=true)'']\<rparr>)
   \<and> processEmailJob exampleEnv ''L1'' 1 (emptyWorld\<lparr>leads := [exampleLead\<lparr>doNotContact := True\<rparr>]\<rparr>) =
       (Inr (), emptyWorld\<lparr>leads := [exampleLead\<lparr>doNotContact := True\<rparr>],
          logs := [''[c1][L1][emailer] skipped email (doNotContact=true)'']\<rparr>)"
proof -
  let ?w = "emptyWorld\<lparr>leads := [exampleLead\<lparr>doNotContact := True\<rparr>]\<rparr>"
  have found: "lead_findUnique ''L1'' ?w = Some (exampleLead\<lparr>doNotContact := True\<rparr>)"
    by (simp add: lead_findUnique_def exampleLead_def leadDefaults_def)
  show ?thesis
    using doNotContact_skip
      [where leadId = "''L1''" and w = ?w and lead = "exampleLead\<lparr>doNotContact := True\<rparr>"
         and env = exampleEnv and attempt = 1 and step = 1]
      found
    by (simp add: exampleLead_def leadDefaults_def emptyWorld_def)
qed

section \<open>One lead per campaign and website\<close>

text \<open>
  C6. \<open>uniqueSites\<close> says that no two rows of the Lead table have the same campaign and
  the same non-null \<open>websiteUrl\<close>. It holds of the empty database and is kept by every
  job of every stage, by every webhook call and by every \<open>prisma.lead.create\<close> (the API
  handlers insert leads with it), whatever their outcome, so it holds in every state the
  system reaches. Scraping a listing whose website is already stored for
  the campaign updates that row (business name, phone, email, address, source URL; status
  back to SCRAPED, \<open>lastError\<close> cleared) and adds no row.
\<close>

theorem unique_site_per_campaign:
  "(uniqueSites w \<longleftrightarrow>
      (\<forall>i j. i < j \<and> j < length (leads w) \<and> websiteUrl (leads w ! i) \<noteq> None \<and>
             campaignId (leads w ! i) = campaignId (leads w ! j) \<longrightarrow>
             websiteUrl (leads w ! i) \<noteq> websiteUrl (leads w ! j)))
   \<and> uniqueSites emptyWorld
   \<and> (uniqueSites w \<and> processJob env job w = (r, w') \<longrightarrow> uniqueSites w')
   \<and> (uniqueSites w \<and> callWebhookHandler env req w = (response, w'') \<longrightarrow> uniqueSites w'')
   \<and> (uniqueSites w \<and> lead_create gen data w = (created, w3) \<longrightarrow> uniqueSites w3)
   \<and> (truthy (li_websiteUrl listing) \<and>
       find (\<lambda>l. campaignId l = cid \<and> websiteUrl l = li_websiteUrl listing) (leads w) = Some existing \<longrightarrow>
       upsertLeadFromListing env cid listing w =
         (Inr (existing\<lparr>businessName := Some (li_businessName listing), phone := li_phone listing,
                     email := li_email listing, address := li_address listing,
                     sourceUrl := li_sourceUrl listing, status := SCRAPED, lastError := None\<rparr>),
          w\<lparr>leads := map (\<lambda>l. if campaignId l = cid \<and> websiteUrl l = li_websiteUrl listing
                         then l\<lparr>businessName := Some (li_businessName listing), phone := li_phone listing,
                                email := li_email listing, address := li_address listing,
                                sourceUrl := li_sourceUrl listing, status := SCRAPED, lastError := None\<rparr>
                         else l) (leads w)\<rparr>))"
proof (intro conjI impI)
  show "uniqueSites w \<longleftrightarrow>
      (\<forall>i j. i < j \<and> j < length (leads w) \<and> websiteUrl (leads w ! i) \<noteq> None \<and>
             campaignId (leads w ! i) = campaignId (leads w ! j) \<longrightarrow>
             websiteUrl (leads w ! i) \<noteq> websiteUrl (leads w ! j))"
    by (rule uniqueSites_pairwise)
next
  show "uniqueSites emptyWorld"
    by (simp add: uniqueSites_def emptyWorld_def)
next
  assume a: "uniqueSites w \<and> processJob env job w = (r, w')"
  then have "rowsStep (stageStatus job) (leads w) (leads w')"
    using stepsBy_processJob by (auto dest: stepsByD)
  with a show "uniqueSites w'" by (simp add: rowsStep_def uniqueSites_def)
next
  assume a: "uniqueSites w \<and> callWebhookHandler env req w = (response, w'')"
  then have "rowsStep DO_NOT_CONTACT (leads w) (leads w'')"
    using stepsBy_callWebhookHandler by (auto dest: stepsByD)
  with a show "uniqueSites w''" by (simp add: rowsStep_def uniqueSites_def)
next
  assume a: "uniqueSites w \<and> lead_create gen data w = (created, w3)"
  then have "rowsStep SCRAPED (leads w) (leads w3)"
    using stepsBy_lead_create by (auto dest: stepsByD)
  with a show "uniqueSites w3" by (simp add: rowsStep_def uniqueSites_def)
next
  assume "truthy (li_websiteUrl listing) \<and>
       find (\<lambda>l. campaignId l = cid \<and> websiteUrl l = li_websiteUrl listing) (leads w) = Some existing"
  then show "upsertLeadFromListing env cid listing w =
         (Inr (existing\<lparr>businessName := Some (li_businessName listing), phone := li_phone listing,
                     email := li_email listing, address := li_address listing,
                     sourceUrl := li_sourceUrl listing, status := SCRAPED, lastError := None\<rparr>),
          w\<lparr>leads := map (\<lambda>l. if campaignId l = cid \<and> websiteUrl l = li_websiteUrl listing
                         then l\<lparr>businessName := Some (li_businessName listing), phone := li_phone listing,
                                email := li_email listing, address := li_address listing,
                                sourceUrl := li_sourceUrl listing, status := SCRAPED, lastError := None\<rparr>
                         else l) (leads w)\<rparr>)"
    using upsert_existing by blast
qed

theorem unique_site_per_campaign_witness:
  "uniqueSites readyWorld
   \<and> uniqueSites (snd (processJob rescrapeEnv (ScrapeJob ''c1'') readyWorld))
   \<and> uniqueSites (snd (callWebhookHandler exampleEnv
        \<lparr>req_body = JObj [(''leadId'', JStr ''L1''), (''status'', JStr ''answered''),
                           (''transcript'', JStr ''unsubscribe'')], req_provider = ''fake''\<rparr> readyWorld))
   \<and> uniqueSites (snd (lead_create (newLeadId exampleEnv)
        (leadDefaults\<lparr>campaignId := ''c1'', websiteUrl := Some ''https://acme.example.com''\<rparr>)
        readyWorld))
   \<and> upsertLeadFromListing exampleEnv ''c1'' exampleListing readyWorld =
       (Inr (readyLead\<lparr>businessName := Some ''Acme Roofing LLC'', phone := None, email := None,
               address := Some ''Dallas'', sourceUrl := None, status := SCRAPED, lastError := None\<rparr>),
        readyWorld\<lparr>leads :=
          [readyLead\<lparr>businessName := Some ''Acme Roofing LLC'', phone := None, email := None,
               address := Some ''Dallas'', sourceUrl := None, status := SCRAPED, lastError := None\<rparr>]\<rparr>)"
proof -
  let ?dup = "leadDefaults\<lparr>campaignId := ''c1'', websiteUrl := Some ''https://acme.example.com''\<rparr>"
  let ?req = "\<lparr>req_body = JObj [(''leadId'', JStr ''L1''), (''status'', JStr ''answered''),
                           (''transcript'', JStr ''unsubscribe'')], req_provider = ''fake''\<rparr>"
  have u: "uniqueSites readyWorld"
    by (simp add: uniqueSites_def readyWorld_def emptyWorld_def readyLead_def exampleLead_def
        leadDefaults_def siteKey_def)
  have j: "uniqueSites readyWorld \<and> processJob rescrapeEnv (ScrapeJob ''c1'') readyWorld =
      (fst (processJob rescrapeEnv (ScrapeJob ''c1'') readyWorld),
       snd (processJob rescrapeEnv (ScrapeJob ''c1'') readyWorld))"
    using u by simp
  have h: "uniqueSites readyWorld \<and> callWebhookHandler exampleEnv ?req readyWorld =
      (fst (callWebhookHandler exampleEnv ?req readyWorld),
       snd (callWebhookHandler exampleEnv ?req readyWorld))"
    using u by simp
  have f: "truthy (li_websiteUrl exampleListing) \<and>
       find (\<lambda>l. campaignId l = ''c1'' \<and> websiteUrl l = li_websiteUrl exampleListing) (leads readyWorld)
         = Some readyLead"
    by (simp add: truthy_def exampleListing_def readyWorld_def emptyWorld_def readyLead_def
        exampleLead_def leadDefaults_def)
  note inst = unique_site_per_campaign
    [where w = readyWorld and env = rescrapeEnv and job = "ScrapeJob ''c1''"
       and r = "fst (processJob rescrapeEnv (ScrapeJob ''c1'') readyWorld)"
       and w' = "snd (processJob rescrapeEnv (ScrapeJob ''c1'') readyWorld)"]
  note inst2 = unique_site_per_campaign
    [where w = readyWorld and env = exampleEnv and req = ?req
       and response = "fst (callWebhookHandler exampleEnv ?req readyWorld)"
       and w'' = "snd (callWebhookHandler exampleEnv ?req readyWorld)"
       and listing = exampleListing and cid = "''c1''" and existing = readyLead]
  have k: "uniqueSites readyWorld \<and> lead_create (newLeadId exampleEnv) ?dup readyWorld =
      (fst (lead_create (newLeadId exampleEnv) ?dup readyWorld),
       snd (lead_create (newLeadId exampleEnv) ?dup readyWorld))"
    using u by simp
  note inst3 = unique_site_per_campaign
    [where w = readyWorld and gen = "newLeadId exampleEnv" and data = ?dup
       and created = "fst (lead_create (newLeadId exampleEnv) ?dup readyWorld)"
       and ?w3.0 = "snd (lead_create (newLeadId exampleEnv) ?dup readyWorld)"]
  have d: "uniqueSites (snd (lead_create (newLeadId exampleEnv) ?dup readyWorld))"
    using inst3 k by blast
  have a: "uniqueSites (snd (processJob rescrapeEnv (ScrapeJob ''c1'') readyWorld))"
    using inst j by blast
  have b: "uniqueSites (snd (callWebhookHandler exampleEnv ?req readyWorld))"
    using inst2 h by blast
  have c: "upsertLeadFromListing exampleEnv ''c1'' exampleListing readyWorld =
       (Inr (readyLead\<lparr>businessName := Some ''Acme Roofing LLC'', phone := None, email := None,
               address := Some ''Dallas'', sourceUrl := None, status := SCRAPED, lastError := None\<rparr>),
        readyWorld\<lparr>leads :=
          [readyLead\<lparr>businessName := Some ''Acme Roofing LLC'', phone := None, email := None,
               address := Some ''Dallas'', sourceUrl := None, status := SCRAPED, lastError := None\<rparr>]\<rparr>)"
    using inst2 [THEN conjunct2, THEN conjunct2, THEN conjunct2, THEN conjunct2, THEN conjunct2,
        THEN mp, OF f]
    by (simp add: exampleListing_def readyWorld_def emptyWorld_def readyLead_def exampleLead_def
        leadDefaults_def)
  from u a b d c show ?thesis by blast
qed

section \<open>Opt-out detection in the webhook\<close>

text \<open>
  C7, amended. For every transcript, the handler's test \<open>hasOptOutIntent\<close> holds exactly
  when the transcript contains, up to the case of letters, one of six phrases: the five of
  the specification and "don't call". When the payload names a lead that is found and its
  transcript matches (the lead's \<open>campaignId\<close> being a non-empty string, as every
  stored id is), the handler records a CALL_RESULT event with \<open>optOut: true\<close> for
  that lead and its campaign, sets the lead's \<open>doNotContact\<close> to true and its status to
  DO_NOT_CONTACT, and answers 200 with \<open>optOutApplied: true\<close>.
\<close>

theorem optOut_detection:
  "(hasOptOutIntent transcript \<longleftrightarrow>
      list_ex (containsIgnoringCase transcript) (specPhrases @ [''don'' @ [CHR 0x27] @ ''t call'']))
   \<and> (callWebhookSchema_safeParse (req_body req) = Some payload \<and>
       p_leadId payload = Some lid \<and> lid \<noteq> [] \<and> lead_findUnique lid w = Some lead \<and>
       campaignId lead \<noteq> [] \<and>
       p_transcript payload = Some transcript \<and> hasOptOutIntent transcript \<longrightarrow>
       callWebhookHandler env req w =
         (Inr \<lparr>statusCode = 200,
               res_body = JObj [(''ok'', JBool True), (''provider'', JStr (req_provider req)),
                                (''optOutApplied'', JBool True)]\<rparr>,
          w\<lparr>events := events w @
                [\<lparr>event_campaignId = campaignId lead, event_leadId = Some lid,
                  event_type = E_CALL_RESULT,
                  metadata = JObj [(''provider'', JStr (req_provider req)),
                    (''callId'', jsonOfOption (p_callId payload)),
                    (''status'', JStr (p_status payload)),
                    (''transcript'', JStr transcript), (''optOut'', JBool True)]\<rparr>],
             leads := map (\<lambda>l. if lead_id l = lid
                                then l\<lparr>doNotContact := True, status := DO_NOT_CONTACT\<rparr> else l)
                        (leads w)\<rparr>))"
proof (intro conjI impI)
  have "hasOptOutIntent transcript \<longleftrightarrow> list_ex (containsIgnoringCase transcript) phrases"
    unfolding hasOptOutIntent_def list_ex_iff
    using containsIgnoringCase_search [OF phrases_lower] by blast
  also have "\<dots> \<longleftrightarrow>
      list_ex (containsIgnoringCase transcript) (specPhrases @ [''don'' @ [CHR 0x27] @ ''t call''])"
    by (auto simp: phrases_def specPhrases_def)
  finally show "hasOptOutIntent transcript \<longleftrightarrow>
      list_ex (containsIgnoringCase transcript) (specPhrases @ [''don'' @ [CHR 0x27] @ ''t call''])" .
next
  assume a: "callWebhookSchema_safeParse (req_body req) = Some payload \<and>
       p_leadId payload = Some lid \<and> lid \<noteq> [] \<and> lead_findUnique lid w = Some lead \<and>
       campaignId lead \<noteq> [] \<and>
       p_transcript payload = Some transcript \<and> hasOptOutIntent transcript"
  then have id: "lead_id lead = lid" by (auto dest: lead_findUnique_id)
  from a have ne: "transcript \<noteq> []"
    by (auto simp: hasOptOutIntent_def phrases_def toLowerCase_def)
  from a have stored: "campaignStored (campaignId lead) (campaigns w) (leads w)"
      "leadStored lid (leads w)"
    by (auto intro: found_campaignStored found_leadStored)
  from a id ne stored show "callWebhookHandler env req w =
         (Inr \<lparr>statusCode = 200,
               res_body = JObj [(''ok'', JBool True), (''provider'', JStr (req_provider req)),
                                (''optOutApplied'', JBool True)]\<rparr>,
          w\<lparr>events := events w @
                [\<lparr>event_campaignId = campaignId lead, event_leadId = Some lid,
                  event_type = E_CALL_RESULT,
                  metadata = JObj [(''provider'', JStr (req_provider req)),
                    (''callId'', jsonOfOption (p_callId payload)),
                    (''status'', JStr (p_status payload)),
                    (''transcript'', JStr transcript), (''optOut'', JBool True)]\<rparr>],
             leads := map (\<lambda>l. if lead_id l = lid
                                then l\<lparr>doNotContact := True, status := DO_NOT_CONTACT\<rparr> else l)
                        (leads w)\<rparr>)"
    by (simp add: callWebhookHandler_def recordCallResult_def truthy_def orElse_def
        andThen_lead_update_found)
qed

theorem optOut_detection_witness:
  "list_ex (containsIgnoringCase ''please remove me from your list'')
     (specPhrases @ [''don'' @ [CHR 0x27] @ ''t call''])
   \<and> callWebhookHandler exampleEnv
        \<lparr>req_body = JObj [(''leadId'', JStr ''L1''), (''status'', JStr ''answered''),
                           (''transcript'', JStr ''please remove me from your list'')],
         req_provider = ''fake''\<rparr>
        (emptyWorld\<lparr>leads := [exampleLead]\<rparr>)
     = (Inr \<lparr>statusCode = 200,
             res_body = JObj [(''ok'', JBool True), (''provider'', JStr ''fake''),
                              (''optOutApplied'', JBool True)]\<rparr>,
        emptyWorld\<lparr>events :=
              [\<lparr>event_campaignId = ''c1'', event_leadId = Some ''L1'', event_type = E_CALL_RESULT,
                metadata = JObj [(''provider'', JStr ''fake''), (''callId'', JNull),
                  (''status'', JStr ''answered''),
                  (''transcript'', JStr ''please remove me from your list''),
                  (''optOut'', JBool True)]\<rparr>],
           leads := [exampleLead\<lparr>doNotContact := True, status := DO_NOT_CONTACT\<rparr>]\<rparr>)"
proof -
  let ?t = "''please remove me from your list''"
  let ?req = "\<lparr>req_body = JObj [(''leadId'', JStr ''L1''), (''status'', JStr ''answered''),
                                 (''transcript'', JStr ?t)], req_provider = ''fake''\<rparr>"
  let ?payload = "\<lparr>p_leadId = Some ''L1'', p_campaignId = None, p_callId = None,
                    p_status = ''answered'', p_transcript = Some ?t\<rparr>"
  have hit: "hasOptOutIntent ?t"
    by (simp add: hasOptOutIntent_def phrases_def toLowerCase_def)
  have parse: "callWebhookSchema_safeParse (req_body ?req) = Some ?payload"
    by (simp add: callWebhookSchema_safeParse_def optionalString_def)
  have found: "lead_findUnique ''L1'' (emptyWorld\<lparr>leads := [exampleLead]\<rparr>) = Some exampleLead"
    by (simp add: lead_findUnique_def exampleLead_def leadDefaults_def)
  note inst = optOut_detection
    [where transcript = ?t and req = ?req and payload = ?payload and lid = "''L1''"
       and w = "emptyWorld\<lparr>leads := [exampleLead]\<rparr>" and lead = exampleLead and env = exampleEnv]
  from inst hit have one: "list_ex (containsIgnoringCase ?t) (specPhrases @ [''don'' @ [CHR 0x27] @ ''t call''])"
    by blast
  from inst hit parse found have two: "callWebhookHandler exampleEnv ?req (emptyWorld\<lparr>leads := [exampleLead]\<rparr>)
     = (Inr \<lparr>statusCode = 200,
             res_body = JObj [(''ok'', JBool True), (''provider'', JStr ''fake''),
                              (''optOutApplied'', JBool True)]\<rparr>,
        emptyWorld\<lparr>events :=
              [\<lparr>event_campaignId = ''c1'', event_leadId = Some ''L1'', event_type = E_CALL_RESULT,
                metadata = JObj [(''provider'', JStr ''fake''), (''callId'', JNull),
                  (''status'', JStr ''answered''), (''transcript'', JStr ?t),
                  (''optOut'', JBool True)]\<rparr>],
           leads := [exampleLead\<lparr>doNotContact := True, status := DO_NOT_CONTACT\<rparr>]\<rparr>)"
    by (simp add: exampleLead_def leadDefaults_def emptyWorld_def jsonOfOption_def)
  from one two show ?thesis by blast
qed

text \<open>
  C7 as stated fails: "don't call me again" contains none of the five phrases, and the
  handler opts the lead out.
\<close>

theorem optOut_five_phrases_counterexample:
  "\<not> list_ex (containsIgnoringCase (''don'' @ [CHR 0x27] @ ''t call me again'')) specPhrases
   \<and> hasOptOutIntent (''don'' @ [CHR 0x27] @ ''t call me again'')
   \<and> fst (callWebhookHandler exampleEnv
        \<lparr>req_body = JObj [(''leadId'', JStr ''L1''), (''status'', JStr ''answered''),
                           (''transcript'', JStr (''don'' @ [CHR 0x27] @ ''t call me again''))],
         req_provider = ''fake''\<rparr>
        (emptyWorld\<lparr>leads := [exampleLead]\<rparr>))
     = Inr \<lparr>statusCode = 200,
            res_body = JObj [(''ok'', JBool True), (''provider'', JStr ''fake''),
                             (''optOutApplied'', JBool True)]\<rparr>"
proof -
  let ?t = "''don'' @ [CHR 0x27] @ ''t call me again''"
  have low: "toLowerCase ?t = ?t"
    by (simp add: toLowerCase_def)
  have none: "\<not> list_ex (containsIgnoringCase ?t) specPhrases"
    unfolding specPhrases_def
    by (simp add: containsIgnoringCase_search toLowerCase_def)
  have hit: "hasOptOutIntent ?t"
    by (simp add: hasOptOutIntent_def phrases_def toLowerCase_def)
  have resp: "fst (callWebhookHandler exampleEnv
        \<lparr>req_body = JObj [(''leadId'', JStr ''L1''), (''status'', JStr ''answered''),
                           (''transcript'', JStr ?t)], req_provider = ''fake''\<rparr>
        (emptyWorld\<lparr>leads := [exampleLead]\<rparr>))
     = Inr \<lparr>statusCode = 200,
            res_body = JObj [(''ok'', JBool True), (''provider'', JStr ''fake''),
                             (''optOutApplied'', JBool True)]\<rparr>"
    using hit
    by (simp add: callWebhookHandler_def recordCallResult_def callWebhookSchema_safeParse_def
        optionalString_def truthy_def orElse_def lead_findUnique_def exampleLead_def
        leadDefaults_def emptyWorld_def andThen_def lead_update_def event_create_def
        campaignStored_def leadStored_def effect_def)
  from none hit resp show ?thesis by blast
qed

section \<open>Email step 1 and its follow-up call\<close>

text \<open>
  C8. Take an Email step-1 job for a lead that has an email address and a demo URL, may be
  contacted and has \<open>emailSentCount\<close> 0, with the key \<open>email:{leadId}:step:1\<close> not in the
  store, and let the provider accept the email. Then the handler succeeds, adds exactly one
  job to the call queue, \<open>{leadId, attempt: 1}\<close> with a delay of 30 minutes in
  milliseconds, leaves \<open>emailSentCount\<close> at 1 and the key committed with the provider's
  message id. The same job delivered again succeeds and changes nothing but the log, where
  it reports the step as already sent: \<open>emailSentCount\<close> stays at 1 and no second call
  job is queued.
\<close>

theorem email_step1_once:
  fixes env :: env and w :: world and lead :: Lead
  defines "emailInput \<equiv>
     \<lparr>email_to = orElse (email lead) [],
      subject = buildSubject (orElse (businessName lead) ''there'') 1,
      html = fst (buildBody (orElse (businessName lead) ''there'') (orElse (demoUrl lead) []) 1),
      text_body = snd (buildBody (orElse (businessName lead) ''there'') (orElse (demoUrl lead) []) 1),
      headers = [(''x-campaign-id'', campaignId lead), (''x-lead-id'', lead_id lead),
                 (''x-email-step'', ''1'')]\<rparr>"
  shows
  "lead_findUnique leadId w = Some lead \<and> \<not> doNotContact lead \<and> truthy (email lead) \<and>
   truthy (demoUrl lead) \<and> emailSentCount lead = 0 \<and>
   idempotencyKeys w (''email:'' @ leadId @ '':step:1'') = None \<and>
   sendEmail env (emailCalls w) emailInput = Inr messageId \<longrightarrow>
     (\<exists>w1 lead1 row.
        processEmailJob env leadId 1 w = (Inr (), w1) \<and>
        callQueue w1 = callQueue w @
          [\<lparr>cq_leadId = leadId, cq_attempt = 1, cq_delay = Some (30 * 60 * 1000)\<rparr>] \<and>
        emailCalls w1 = emailCalls w @ [emailInput] \<and>
        lead_findUnique leadId w1 = Some lead1 \<and> emailSentCount lead1 = 1 \<and>
        idempotencyKeys w1 (''email:'' @ leadId @ '':step:1'') = Some row \<and>
        committedValue (ik_result row) = Some (JObj [(''providerMessageId'', JStr messageId)]) \<and>
        processEmailJob env leadId 1 w1 =
          (Inr (), w1\<lparr>logs := logs w1 @
             [''['' @ campaignId lead @ '']['' @ leadId
                @ ''][emailer] step 1 already sent; skipping duplicate'']\<rparr>))"
proof
  assume a: "lead_findUnique leadId w = Some lead \<and> \<not> doNotContact lead \<and> truthy (email lead) \<and>
   truthy (demoUrl lead) \<and> emailSentCount lead = 0 \<and>
   idempotencyKeys w (''email:'' @ leadId @ '':step:1'') = None \<and>
   sendEmail env (emailCalls w) emailInput = Inr messageId"
  let ?k = "''email:'' @ leadId @ '':step:1''"
  have k: "''email:'' @ leadId @ '':step:'' @ String 1 = ?k" by (simp add: String_1)
  from a obtain to where to: "email lead = Some to" "to \<noteq> []"
    by (auto simp: truthy_def split: option.splits)
  from a obtain url where url: "demoUrl lead = Some url" "url \<noteq> []"
    by (auto simp: truthy_def split: option.splits)
  have id: "lead_id lead = leadId" using a by (auto dest: lead_findUnique_id)
  have ei: "emailInput =
           \<lparr>email_to = to, subject = buildSubject (orElse (businessName lead) ''there'') 1,
            html = fst (buildBody (orElse (businessName lead) ''there'') url 1),
            text_body = snd (buildBody (orElse (businessName lead) ''there'') url 1),
            headers = [(''x-campaign-id'', campaignId lead), (''x-lead-id'', leadId),
                       (''x-email-step'', String 1)]\<rparr>"
    using to url id by (simp add: emailInput_def orElse_def String_1)
  let ?row = "\<lparr>ik_key = ?k, ik_stage = ''email'',
             ik_campaignId = Some (campaignId lead), ik_leadId = Some leadId,
             ik_result = Some (JObj [(''value'', JObj [(''providerMessageId'', JStr messageId)])])\<rparr>"
  let ?lead1 = "lead\<lparr>emailSentCount := emailSentCount lead + 1, status := EMAILED_1, lastError := None\<rparr>"
  let ?w1 = "w\<lparr>emailCalls := emailCalls w @ [emailInput],
        leads := map (\<lambda>l. if lead_id l = leadId
                           then l\<lparr>emailSentCount := emailSentCount l + 1, status := EMAILED_1, lastError := None\<rparr>
                           else l) (leads w),
        events := events w @
          [\<lparr>event_campaignId = campaignId lead, event_leadId = Some leadId,
            event_type = E_EMAIL_SENT,
            metadata = JObj [(''step'', JNum 1), (''providerMessageId'', JStr messageId),
               (''subject'', JStr (buildSubject (orElse (businessName lead) ''there'') 1))]\<rparr>],
        callQueue := callQueue w @
          [\<lparr>cq_leadId = leadId, cq_attempt = 1, cq_delay = Some followUpCallDelayMs\<rparr>],
        idempotencyKeys := (idempotencyKeys w)(?k \<mapsto> ?row),
        logs := logs w @ [''['' @ campaignId lead @ '']['' @ leadId @ ''][emailer] email step ''
                           @ String 1 @ '' sent; follow-up call queued (+30m)'']\<rparr>"
  have first: "processEmailJob env leadId 1 w = (Inr (), ?w1)"
    using processEmailJob_first [of leadId w lead to url 1 env messageId] a to url ei k by simp
  have found1: "lead_findUnique leadId ?w1 = Some ?lead1"
    using a id unfolding lead_findUnique_def by (simp add: find_update_row)
  have second: "processEmailJob env leadId 1 ?w1 =
          (Inr (), ?w1\<lparr>logs := logs ?w1 @
             [''['' @ campaignId lead @ '']['' @ leadId
                @ ''][emailer] step 1 already sent; skipping duplicate'']\<rparr>)"
    unfolding processEmailJob_def
    using found1 a id
    by (simp add: logMessage_def logLine_def String_1)
  show "\<exists>w1 lead1 row.
        processEmailJob env leadId 1 w = (Inr (), w1) \<and>
        callQueue w1 = callQueue w @
          [\<lparr>cq_leadId = leadId, cq_attempt = 1, cq_delay = Some (30 * 60 * 1000)\<rparr>] \<and>
        emailCalls w1 = emailCalls w @ [emailInput] \<and>
        lead_findUnique leadId w1 = Some lead1 \<and> emailSentCount lead1 = 1 \<and>
        idempotencyKeys w1 (''email:'' @ leadId @ '':step:1'') = Some row \<and>
        committedValue (ik_result row) = Some (JObj [(''providerMessageId'', JStr messageId)]) \<and>
        processEmailJob env leadId 1 w1 =
          (Inr (), w1\<lparr>logs := logs w1 @
             [''['' @ campaignId lead @ '']['' @ leadId
                @ ''][emailer] step 1 already sent; skipping duplicate'']\<rparr>)"
    apply (rule exI [where x = ?w1])
    apply (rule exI [where x = ?lead1])
    apply (rule exI [where x = ?row])
    apply (intro conjI)
           apply (rule first)
          apply (simp add: followUpCallDelayMs_def)
         apply simp
        apply (rule found1)
       apply (use a in simp)
      apply simp
     apply (simp add: committedValue_def)
    apply (rule second)
    done
qed

theorem email_step1_once_witness:
  "\<exists>w1 lead1.
     processEmailJob exampleEnv ''L1'' 1 readyWorld = (Inr (), w1) \<and>
     callQueue w1 = [\<lparr>cq_leadId = ''L1'', cq_attempt = 1, cq_delay = Some 1800000\<rparr>] \<and>
     lead_findUnique ''L1'' w1 = Some lead1 \<and> emailSentCount lead1 = 1 \<and>
     processEmailJob exampleEnv ''L1'' 1 w1 =
       (Inr (), w1\<lparr>logs := logs w1 @ [''[c1][L1][emailer] step 1 already sent; skipping duplicate'']\<rparr>)"
proof -
  have found: "lead_findUnique ''L1'' readyWorld = Some readyLead"
    by (simp add: lead_findUnique_def readyWorld_def readyLead_def exampleLead_def leadDefaults_def)
  have h: "lead_findUnique ''L1'' readyWorld = Some readyLead \<and> \<not> doNotContact readyLead \<and>
      truthy (email readyLead) \<and> truthy (demoUrl readyLead) \<and> emailSentCount readyLead = 0 \<and>
      idempotencyKeys readyWorld (''email:'' @ ''L1'' @ '':step:1'') = None \<and>
      sendEmail exampleEnv (emailCalls readyWorld)
        \<lparr>email_to = orElse (email readyLead) [],
         subject = buildSubject (orElse (businessName readyLead) ''there'') 1,
         html = fst (buildBody (orElse (businessName readyLead) ''there'') (orElse (demoUrl readyLead) []) 1),
         text_body = snd (buildBody (orElse (businessName readyLead) ''there'') (orElse (demoUrl readyLead) []) 1),
         headers = [(''x-campaign-id'', campaignId readyLead), (''x-lead-id'', lead_id readyLead),
                    (''x-email-step'', ''1'')]\<rparr> = Inr ''msg-1''"
    using found
    by (simp add: readyWorld_def readyLead_def exampleLead_def leadDefaults_def emptyWorld_def
        exampleEnv_def truthy_def)
  have cid: "campaignId readyLead = ''c1''" "callQueue readyWorld = []"
    by (simp_all add: readyLead_def exampleLead_def leadDefaults_def readyWorld_def emptyWorld_def)
  from email_step1_once
    [where env = exampleEnv and w = readyWorld and lead = readyLead and leadId = "''L1''"
       and messageId = "''msg-1''", THEN mp, OF h] cid
  show ?thesis by auto
qed

section \<open>Enrich degrades instead of failing\<close>

text \<open>
  C9. For a lead that exists and is not \<open>doNotContact\<close>, the Enrich handler returns
  normally: afterwards the lead has status ENRICHED, exactly one LEAD_ENRICHED event for
  the lead has been added and exactly one Site-Generate job has been queued. When the lead
  has no website, \<open>lastError\<close> is "no website"; when the crawl throws, \<open>lastError\<close> is the
  message of the error; when the crawl runs and each of its three page fetches (the site,
  \<open>/services\<close> and \<open>/contact\<close>) gives nothing (the fetch throws or is aborted by the
  timer, the response is not ok, is not text/html, or its body cannot be read),
  \<open>lastError\<close> is "crawl yielded no html pages"; in these three cases the event has
  empty \<open>serviceKeywords\<close> and \<open>claims\<close>. (The database and the queue are taken to be
  available.)
\<close>

theorem enrich_never_throws:
  "(safeFetchHtml env u = None \<longleftrightarrow>
      (case fetch env u of
         FetchThrows \<Rightarrow> True
       | FetchResponse ok contentType body \<Rightarrow>
           \<not> ok \<or> \<not> str_includes (orElse contentType []) ''text/html'' \<or> body = None))
   \<and> (lead_findUnique leadId w = Some lead \<and> \<not> doNotContact lead \<longrightarrow>
     (\<exists>w' lead' kvs.
        processEnrichJob env leadId w = (Inr (), w') \<and>
        lead_findUnique leadId w' = Some lead' \<and> status lead' = ENRICHED \<and>
        events w' = events w @
          [\<lparr>event_campaignId = campaignId lead, event_leadId = Some leadId,
            event_type = E_LEAD_ENRICHED, metadata = JObj kvs\<rparr>] \<and>
        siteQueue w' = siteQueue w @ [leadId] \<and>
        (\<not> truthy (websiteUrl lead) \<longrightarrow>
           lastError lead' = Some ''no website'' \<and>
           map_of kvs ''serviceKeywords'' = Some (JArr []) \<and> map_of kvs ''claims'' = Some (JArr [])) \<and>
        (\<forall>e. truthy (websiteUrl lead) \<and>
             crawlLeadWebsite env (orElse (websiteUrl lead) []) = Inl e \<longrightarrow>
           lastError lead' = Some (message e) \<and>
           map_of kvs ''serviceKeywords'' = Some (JArr []) \<and> map_of kvs ''claims'' = Some (JArr [])) \<and>
        (\<forall>servicesUrl contactUrl. truthy (websiteUrl lead) \<and>
              toAbsoluteUrl env (withHttpProtocol (orElse (websiteUrl lead) [])) ''/services''
                = Inr servicesUrl \<and>
              toAbsoluteUrl env (withHttpProtocol (orElse (websiteUrl lead) [])) ''/contact''
                = Inr contactUrl \<and>
              safeFetchHtml env (withHttpProtocol (orElse (websiteUrl lead) [])) = None \<and>
              safeFetchHtml env servicesUrl = None \<and> safeFetchHtml env contactUrl = None \<longrightarrow>
           lastError lead' = Some ''crawl yielded no html pages'' \<and>
           map_of kvs ''serviceKeywords'' = Some (JArr []) \<and> map_of kvs ''claims'' = Some (JArr []))))"
proof (intro conjI impI)
  show "safeFetchHtml env u = None \<longleftrightarrow>
      (case fetch env u of
         FetchThrows \<Rightarrow> True
       | FetchResponse ok contentType body \<Rightarrow>
           \<not> ok \<or> \<not> str_includes (orElse contentType []) ''text/html'' \<or> body = None)"
    by (rule safeFetchHtml_None_iff)
next
  assume a: "lead_findUnique leadId w = Some lead \<and> \<not> doNotContact lead"
  then have found: "lead_findUnique leadId w = Some lead" and dnc: "\<not> doNotContact lead"
    by simp_all
  have id: "lead_id lead = leadId" using found by (auto dest: lead_findUnique_id)
  let ?goal = "\<exists>w' lead' kvs.
        processEnrichJob env leadId w = (Inr (), w') \<and>
        lead_findUnique leadId w' = Some lead' \<and> status lead' = ENRICHED \<and>
        events w' = events w @
          [\<lparr>event_campaignId = campaignId lead, event_leadId = Some leadId,
            event_type = E_LEAD_ENRICHED, metadata = JObj kvs\<rparr>] \<and>
        siteQueue w' = siteQueue w @ [leadId] \<and>
        (\<not> truthy (websiteUrl lead) \<longrightarrow>
           lastError lead' = Some ''no website'' \<and>
           map_of kvs ''serviceKeywords'' = Some (JArr []) \<and> map_of kvs ''claims'' = Some (JArr [])) \<and>
        (\<forall>e. truthy (websiteUrl lead) \<and>
             crawlLeadWebsite env (orElse (websiteUrl lead) []) = Inl e \<longrightarrow>
           lastError lead' = Some (message e) \<and>
           map_of kvs ''serviceKeywords'' = Some (JArr []) \<and> map_of kvs ''claims'' = Some (JArr [])) \<and>
        (\<forall>servicesUrl contactUrl. truthy (websiteUrl lead) \<and>
              toAbsoluteUrl env (withHttpProtocol (orElse (websiteUrl lead) [])) ''/services''
                = Inr servicesUrl \<and>
              toAbsoluteUrl env (withHttpProtocol (orElse (websiteUrl lead) [])) ''/contact''
                = Inr contactUrl \<and>
              safeFetchHtml env (withHttpProtocol (orElse (websiteUrl lead) [])) = None \<and>
              safeFetchHtml env servicesUrl = None \<and> safeFetchHtml env contactUrl = None \<longrightarrow>
           lastError lead' = Some ''crawl yielded no html pages'' \<and>
           map_of kvs ''serviceKeywords'' = Some (JArr []) \<and> map_of kvs ''claims'' = Some (JArr []))"
  show ?goal
  proof (cases "truthy (websiteUrl lead)")
    case False
    note run = enrich_no_website [OF found dnc False, of env]
    show ?thesis
      apply (rule exI [where x = "snd (processEnrichJob env leadId w)"])
      apply (rule exI [where x = "lead\<lparr>status := ENRICHED, lastError := Some ''no website''\<rparr>"])
      apply (rule exI [where x = "[(''reason'', JStr ''no website''), (''serviceKeywords'', JArr []),
                            (''claims'', JArr []), (''pagesVisited'', JArr [])]"])
      using False found id unfolding run lead_findUnique_def
      by (simp add: find_update_row)
  next
    case True
    show ?thesis
    proof (cases "crawlLeadWebsite env (orElse (websiteUrl lead) [])")
      case (Inl e)
      note run = enrich_crawl_throws [OF found dnc True Inl, unfolded enrichFallback_found [OF found]]
      have stopped: "\<forall>servicesUrl contactUrl.
          \<not> (toAbsoluteUrl env (withHttpProtocol (orElse (websiteUrl lead) [])) ''/services''
               = Inr servicesUrl \<and>
             toAbsoluteUrl env (withHttpProtocol (orElse (websiteUrl lead) [])) ''/contact''
               = Inr contactUrl)"
        using Inl by (auto simp: crawlLeadWebsite_def Let_def)
      show ?thesis
        apply (rule exI [where x = "snd (processEnrichJob env leadId w)"])
        apply (rule exI [where x = "lead\<lparr>status := ENRICHED, lastError := Some (message e)\<rparr>"])
        apply (rule exI [where x = "[(''error'', JStr (message e)), (''serviceKeywords'', JArr []),
                            (''claims'', JArr []), (''pagesVisited'', JArr [])]"])
        using True Inl found id stopped unfolding run lead_findUnique_def
        by (simp add: find_update_row) blast
    next
      case (Inr ex)
      note run = enrich_crawl_ok [OF found dnc True Inr]
      have empty: "\<forall>servicesUrl contactUrl.
          toAbsoluteUrl env (withHttpProtocol (orElse (websiteUrl lead) [])) ''/services''
            = Inr servicesUrl \<and>
          toAbsoluteUrl env (withHttpProtocol (orElse (websiteUrl lead) [])) ''/contact''
            = Inr contactUrl \<and>
          safeFetchHtml env (withHttpProtocol (orElse (websiteUrl lead) [])) = None \<and>
          safeFetchHtml env servicesUrl = None \<and> safeFetchHtml env contactUrl = None \<longrightarrow>
          pagesVisited ex = [] \<and> serviceKeywords ex = [] \<and> claims ex = []"
        using crawl_no_pages [OF Inr] by blast
      show ?thesis
        apply (rule exI [where x = "snd (processEnrichJob env leadId w)"])
        apply (rule exI [where x = "lead\<lparr>phone := (case ex_phone ex of None \<Rightarrow> phone lead | Some x \<Rightarrow> Some x),
                 email := (case ex_email ex of None \<Rightarrow> email lead | Some x \<Rightarrow> Some x),
                 status := ENRICHED,
                 lastError := (if length (pagesVisited ex) > 0 then None
                               else Some ''crawl yielded no html pages'')\<rparr>"])
        apply (rule exI [where x = "[(''phone'', jsonOfOption (case ex_phone ex of None \<Rightarrow> phone lead | Some x \<Rightarrow> Some x)),
                            (''email'', jsonOfOption (case ex_email ex of None \<Rightarrow> email lead | Some x \<Rightarrow> Some x)),
                            (''serviceKeywords'', jsonStrings (serviceKeywords ex)),
                            (''claims'', jsonStrings (claims ex)),
                            (''pagesVisited'', jsonStrings (pagesVisited ex))]"])
        using True Inr found id empty unfolding run lead_findUnique_def
        by (simp add: find_update_row jsonStrings_def)
    qed
  qed
qed

theorem enrich_never_throws_witness:
  "(\<exists>w' lead'. processEnrichJob exampleEnv ''L1''
                    (emptyWorld\<lparr>leads := [exampleLead\<lparr>websiteUrl := None\<rparr>]\<rparr>) = (Inr (), w') \<and>
       lead_findUnique ''L1'' w' = Some lead' \<and> status lead' = ENRICHED \<and>
       lastError lead' = Some ''no website'' \<and> siteQueue w' = [''L1''])
   \<and> (\<exists>w' lead'. processEnrichJob (exampleEnv\<lparr>toAbsoluteUrl := (\<lambda>b p. Inl (TypeError ''Invalid URL''))\<rparr>)
                    ''L1'' (emptyWorld\<lparr>leads := [exampleLead]\<rparr>) = (Inr (), w') \<and>
       lead_findUnique ''L1'' w' = Some lead' \<and> status lead' = ENRICHED \<and>
       lastError lead' = Some ''Invalid URL'' \<and> siteQueue w' = [''L1''])
   \<and> (\<exists>w' lead'. processEnrichJob
                    (exampleEnv\<lparr>fetch := (\<lambda>u. if u = ''https://example.org''
                                               then FetchResponse True (Some ''text/html'') (Some ''Roofing'')
                                               else FetchThrows)\<rparr>)
                    ''L1'' (emptyWorld\<lparr>leads := [exampleLead]\<rparr>) = (Inr (), w') \<and>
       lead_findUnique ''L1'' w' = Some lead' \<and> status lead' = ENRICHED \<and>
       lastError lead' = Some ''crawl yielded no html pages'' \<and> siteQueue w' = [''L1''])"
proof -
  let ?noSite = "exampleLead\<lparr>websiteUrl := None\<rparr>"
  let ?w1 = "emptyWorld\<lparr>leads := [?noSite]\<rparr>"
  let ?w2 = "emptyWorld\<lparr>leads := [exampleLead]\<rparr>"
  let ?badEnv = "exampleEnv\<lparr>toAbsoluteUrl := (\<lambda>b p. Inl (TypeError ''Invalid URL''))\<rparr>"
  let ?otherEnv = "exampleEnv\<lparr>fetch := (\<lambda>u. if u = ''https://example.org''
                                               then FetchResponse True (Some ''text/html'') (Some ''Roofing'')
                                               else FetchThrows)\<rparr>"
  let ?site = "''https://acme.example.com''"
  have h1: "lead_findUnique ''L1'' ?w1 = Some ?noSite \<and> \<not> doNotContact ?noSite"
    by (simp add: lead_findUnique_def exampleLead_def leadDefaults_def)
  have h2: "lead_findUnique ''L1'' ?w2 = Some exampleLead \<and> \<not> doNotContact exampleLead"
    by (simp add: lead_findUnique_def exampleLead_def leadDefaults_def)
  have site: "truthy (websiteUrl exampleLead)" "\<not> truthy (websiteUrl ?noSite)"
      "orElse (websiteUrl exampleLead) [] = ?site"
    by (simp_all add: truthy_def orElse_def exampleLead_def leadDefaults_def)
  have queue: "siteQueue ?w1 = []" "siteQueue ?w2 = []"
    by (simp_all add: emptyWorld_def)
  have bad: "crawlLeadWebsite ?badEnv (orElse (websiteUrl exampleLead) []) = Inl (TypeError ''Invalid URL'')"
    by (simp add: crawlLeadWebsite_def Let_def exampleEnv_def)
  have base: "withHttpProtocol ?site = ?site"
    by (simp add: withHttpProtocol_def toLowerCase_def)
  have urls: "toAbsoluteUrl ?otherEnv (withHttpProtocol ?site) ''/services'' = Inr (?site @ ''/services'')"
      "toAbsoluteUrl ?otherEnv (withHttpProtocol ?site) ''/contact'' = Inr (?site @ ''/contact'')"
    by (simp_all add: base exampleEnv_def)
  have nofetch: "safeFetchHtml ?otherEnv (withHttpProtocol ?site) = None"
      "safeFetchHtml ?otherEnv (?site @ ''/services'') = None"
      "safeFetchHtml ?otherEnv (?site @ ''/contact'') = None"
    by (simp_all add: base safeFetchHtml_def exampleEnv_def)
  from enrich_never_throws [where env = exampleEnv and leadId = "''L1''" and w = ?w1
      and lead = ?noSite, THEN conjunct2, THEN mp, OF h1] site queue
  have one: "\<exists>w' lead'. processEnrichJob exampleEnv ''L1'' ?w1 = (Inr (), w') \<and>
       lead_findUnique ''L1'' w' = Some lead' \<and> status lead' = ENRICHED \<and>
       lastError lead' = Some ''no website'' \<and> siteQueue w' = [''L1'']"
    by auto
  from enrich_never_throws [where env = ?badEnv and leadId = "''L1''" and w = ?w2
      and lead = exampleLead, THEN conjunct2, THEN mp, OF h2]
  obtain w' lead' kvs where
    r: "processEnrichJob ?badEnv ''L1'' ?w2 = (Inr (), w')"
      "lead_findUnique ''L1'' w' = Some lead'" "status lead' = ENRICHED"
      "siteQueue w' = siteQueue ?w2 @ [''L1'']"
    and l: "\<forall>e. truthy (websiteUrl exampleLead) \<and>
             crawlLeadWebsite ?badEnv (orElse (websiteUrl exampleLead) []) = Inl e \<longrightarrow>
           lastError lead' = Some (message e) \<and>
           map_of kvs ''serviceKeywords'' = Some (JArr []) \<and> map_of kvs ''claims'' = Some (JArr [])"
    by blast
  from l site(1) bad have "lastError lead' = Some ''Invalid URL''" by auto
  with r queue
  have two: "\<exists>w' lead'. processEnrichJob ?badEnv ''L1'' ?w2 = (Inr (), w') \<and>
       lead_findUnique ''L1'' w' = Some lead' \<and> status lead' = ENRICHED \<and>
       lastError lead' = Some ''Invalid URL'' \<and> siteQueue w' = [''L1'']"
    by auto
  from enrich_never_throws [where env = ?otherEnv and leadId = "''L1''" and w = ?w2
      and lead = exampleLead, THEN conjunct2, THEN mp, OF h2]
  obtain w'' lead'' kvs' where
    r': "processEnrichJob ?otherEnv ''L1'' ?w2 = (Inr (), w'')"
      "lead_findUnique ''L1'' w'' = Some lead''" "status lead'' = ENRICHED"
      "siteQueue w'' = siteQueue ?w2 @ [''L1'']"
    and l': "\<forall>servicesUrl contactUrl. truthy (websiteUrl exampleLead) \<and>
              toAbsoluteUrl ?otherEnv (withHttpProtocol (orElse (websiteUrl exampleLead) [])) ''/services''
                = Inr servicesUrl \<and>
              toAbsoluteUrl ?otherEnv (withHttpProtocol (orElse (websiteUrl exampleLead) [])) ''/contact''
                = Inr contactUrl \<and>
              safeFetchHtml ?otherEnv (withHttpProtocol (orElse (websiteUrl exampleLead) [])) = None \<and>
              safeFetchHtml ?otherEnv servicesUrl = None \<and> safeFetchHtml ?otherEnv contactUrl = None \<longrightarrow>
           lastError lead'' = Some ''crawl yielded no html pages'' \<and>
           map_of kvs' ''serviceKeywords'' = Some (JArr []) \<and> map_of kvs' ''claims'' = Some (JArr [])"
    by blast
  from l' [rule_format, of "?site @ ''/services''" "?site @ ''/contact''"] site(1) urls nofetch
  have "lastError lead'' = Some ''crawl yielded no html pages''"
    unfolding site(3) by blast
  with r' queue
  have three: "\<exists>w' lead'. processEnrichJob ?otherEnv ''L1'' ?w2 = (Inr (), w') \<and>
       lead_findUnique ''L1'' w' = Some lead' \<and> status lead' = ENRICHED \<and>
       lastError lead' = Some ''crawl yielded no html pages'' \<and> siteQueue w' = [''L1'']"
    by auto
  from one two three show ?thesis by blast
qed

section \<open>The webhook without a lead\<close>

text \<open>
  C10, amended. When the payload has no \<open>leadId\<close> and a non-empty \<open>campaignId\<close> that is
  the id of a stored campaign, the handler records one CALL_RESULT event for that campaign,
  with no lead and with \<open>optOut\<close> computed from the transcript, answers 200 with
  \<open>optOutApplied: false\<close>, and changes nothing else: no Lead row is modified, whatever
  the transcript says. When the payload has no \<open>leadId\<close> and a non-empty \<open>campaignId\<close>
  that the database does not hold, the insert of the event violates
  \<open>Event_campaignId_fkey\<close>: the handler throws, no event is recorded and no response is
  sent. When the payload has no \<open>leadId\<close> and its \<open>campaignId\<close> is absent or empty, the
  handler answers 400 and changes nothing. When the payload has a non-empty \<open>leadId\<close>
  that is found, the event carries the \<open>campaignId\<close> of the lead row (a non-empty string,
  as every stored id is), whatever \<open>campaignId\<close> the payload supplies.
\<close>

theorem webhook_campaign_resolution:
  "(callWebhookSchema_safeParse (req_body req) = Some payload \<and> p_leadId payload = None \<and>
    p_campaignId payload = Some cid \<and> cid \<noteq> [] \<and> campaign_findUnique cid w = Some campaign \<longrightarrow>
      callWebhookHandler env req w =
        (Inr \<lparr>statusCode = 200,
              res_body = JObj [(''ok'', JBool True), (''provider'', JStr (req_provider req)),
                               (''optOutApplied'', JBool False)]\<rparr>,
         w\<lparr>events := events w @
               [\<lparr>event_campaignId = cid, event_leadId = None, event_type = E_CALL_RESULT,
                 metadata = JObj [(''provider'', JStr (req_provider req)),
                   (''callId'', jsonOfOption (p_callId payload)),
                   (''status'', JStr (p_status payload)),
                   (''transcript'', if orElse (p_transcript payload) [] = [] then JNull
                                    else JStr (orElse (p_transcript payload) [])),
                   (''optOut'', JBool (orElse (p_transcript payload) [] \<noteq> [] \<and>
                                       hasOptOutIntent (orElse (p_transcript payload) [])))]\<rparr>]\<rparr>))
   \<and> (callWebhookSchema_safeParse (req_body req) = Some payload \<and> p_leadId payload = None \<and>
       p_campaignId payload = Some cid \<and> cid \<noteq> [] \<and>
       \<not> campaignStored cid (campaigns w) (leads w) \<longrightarrow>
      callWebhookHandler env req w = (Inl foreignKeyFailed, w))
   \<and> (callWebhookSchema_safeParse (req_body req) = Some payload \<and> p_leadId payload = None \<and>
       \<not> truthy (p_campaignId payload) \<longrightarrow>
      callWebhookHandler env req w =
        (Inr \<lparr>statusCode = 400,
              res_body = JObj [(''error'',
                JStr ''campaignId is required when leadId is not provided'')]\<rparr>, w))
   \<and> (callWebhookSchema_safeParse (req_body req) = Some payload \<and> p_leadId payload = Some lid \<and>
       lid \<noteq> [] \<and> lead_findUnique lid w = Some lead \<and> campaignId lead \<noteq> [] \<longrightarrow>
      (\<exists>response w' m.
         callWebhookHandler env req w = (Inr response, w') \<and>
         events w' = events w @
           [\<lparr>event_campaignId = campaignId lead, event_leadId = Some lid,
             event_type = E_CALL_RESULT, metadata = m\<rparr>]))"
proof (intro conjI impI)
  assume "callWebhookSchema_safeParse (req_body req) = Some payload \<and> p_leadId payload = None \<and>
       \<not> truthy (p_campaignId payload)"
  then show "callWebhookHandler env req w =
        (Inr \<lparr>statusCode = 400,
              res_body = JObj [(''error'',
                JStr ''campaignId is required when leadId is not provided'')]\<rparr>, w)"
    by (simp add: callWebhookHandler_def recordCallResult_def truthy_def)
next
  assume a: "callWebhookSchema_safeParse (req_body req) = Some payload \<and> p_leadId payload = None \<and>
    p_campaignId payload = Some cid \<and> cid \<noteq> [] \<and> campaign_findUnique cid w = Some campaign"
  then have stored: "campaignStored cid (campaigns w) (leads w)"
    by (auto intro: campaign_found_stored)
  from a stored show "callWebhookHandler env req w =
        (Inr \<lparr>statusCode = 200,
              res_body = JObj [(''ok'', JBool True), (''provider'', JStr (req_provider req)),
                               (''optOutApplied'', JBool False)]\<rparr>,
         w\<lparr>events := events w @
               [\<lparr>event_campaignId = cid, event_leadId = None, event_type = E_CALL_RESULT,
                 metadata = JObj [(''provider'', JStr (req_provider req)),
                   (''callId'', jsonOfOption (p_callId payload)),
                   (''status'', JStr (p_status payload)),
                   (''transcript'', if orElse (p_transcript payload) [] = [] then JNull
                                    else JStr (orElse (p_transcript payload) [])),
                   (''optOut'', JBool (orElse (p_transcript payload) [] \<noteq> [] \<and>
                                       hasOptOutIntent (orElse (p_transcript payload) [])))]\<rparr>]\<rparr>)"
    by (simp add: callWebhookHandler_def recordCallResult_def truthy_def orElse_def Let_def)
next
  assume "callWebhookSchema_safeParse (req_body req) = Some payload \<and> p_leadId payload = None \<and>
       p_campaignId payload = Some cid \<and> cid \<noteq> [] \<and>
       \<not> campaignStored cid (campaigns w) (leads w)"
  then show "callWebhookHandler env req w = (Inl foreignKeyFailed, w)"
    by (simp add: callWebhookHandler_def recordCallResult_def truthy_def orElse_def Let_def
        andThen_event_create_refused)
next
  assume a: "callWebhookSchema_safeParse (req_body req) = Some payload \<and> p_leadId payload = Some lid \<and>
       lid \<noteq> [] \<and> lead_findUnique lid w = Some lead \<and> campaignId lead \<noteq> []"
  then have id: "lead_id lead = lid" by (auto dest: lead_findUnique_id)
  from a have stored: "campaignStored (campaignId lead) (campaigns w) (leads w)"
      "leadStored lid (leads w)"
    by (auto intro: found_campaignStored found_leadStored)
  show "\<exists>response w' m.
         callWebhookHandler env req w = (Inr response, w') \<and>
         events w' = events w @
           [\<lparr>event_campaignId = campaignId lead, event_leadId = Some lid,
             event_type = E_CALL_RESULT, metadata = m\<rparr>]"
  proof (cases "orElse (p_transcript payload) [] \<noteq> [] \<and> hasOptOutIntent (orElse (p_transcript payload) [])")
    case True
    with a id stored show ?thesis
      by (simp add: callWebhookHandler_def recordCallResult_def truthy_def Let_def orElse_def
          andThen_lead_update_found)
  next
    case False
    with a id stored show ?thesis
      by (auto simp: callWebhookHandler_def recordCallResult_def truthy_def Let_def orElse_def)
  qed
qed

theorem webhook_campaign_resolution_witness:
  "callWebhookHandler exampleEnv
      \<lparr>req_body = JObj [(''campaignId'', JStr ''c1''), (''status'', JStr ''answered''),
                         (''transcript'', JStr ''please unsubscribe'')],
       req_provider = ''fake''\<rparr>
      (emptyWorld\<lparr>campaigns := [exampleCampaign], leads := [exampleLead]\<rparr>)
     = (Inr \<lparr>statusCode = 200,
             res_body = JObj [(''ok'', JBool True), (''provider'', JStr ''fake''),
                              (''optOutApplied'', JBool False)]\<rparr>,
        emptyWorld\<lparr>campaigns := [exampleCampaign], leads := [exampleLead],
           events := [\<lparr>event_campaignId = ''c1'', event_leadId = None, event_type = E_CALL_RESULT,
                metadata = JObj [(''provider'', JStr ''fake''), (''callId'', JNull),
                  (''status'', JStr ''answered''), (''transcript'', JStr ''please unsubscribe''),
                  (''optOut'', JBool True)]\<rparr>]\<rparr>)
   \<and> callWebhookHandler exampleEnv
        \<lparr>req_body = JObj [(''campaignId'', JStr ''ghost''), (''status'', JStr ''answered'')],
         req_provider = ''fake''\<rparr>
        (emptyWorld\<lparr>campaigns := [exampleCampaign], leads := [exampleLead]\<rparr>)
     = (Inl foreignKeyFailed, emptyWorld\<lparr>campaigns := [exampleCampaign], leads := [exampleLead]\<rparr>)
   \<and> (\<exists>response w' m.
         callWebhookHandler exampleEnv
           \<lparr>req_body = JObj [(''leadId'', JStr ''L1''), (''campaignId'', JStr ''other''),
                              (''status'', JStr ''answered'')],
            req_provider = ''fake''\<rparr>
           (emptyWorld\<lparr>campaigns := [exampleCampaign], leads := [exampleLead]\<rparr>) = (Inr response, w') \<and>
         events w' =
           [\<lparr>event_campaignId = ''c1'', event_leadId = Some ''L1'',
             event_type = E_CALL_RESULT, metadata = m\<rparr>])
   \<and> callWebhookHandler exampleEnv
        \<lparr>req_body = JObj [(''status'', JStr ''answered'')], req_provider = ''fake''\<rparr>
        (emptyWorld\<lparr>campaigns := [exampleCampaign], leads := [exampleLead]\<rparr>)
     = (Inr \<lparr>statusCode = 400,
             res_body = JObj [(''error'',
               JStr ''campaignId is required when leadId is not provided'')]\<rparr>,
        emptyWorld\<lparr>campaigns := [exampleCampaign], leads := [exampleLead]\<rparr>)"
proof -
  let ?w = "emptyWorld\<lparr>campaigns := [exampleCampaign], leads := [exampleLead]\<rparr>"
  let ?req1 = "\<lparr>req_body = JObj [(''campaignId'', JStr ''c1''), (''status'', JStr ''answered''),
                         (''transcript'', JStr ''please unsubscribe'')], req_provider = ''fake''\<rparr>"
  let ?p1 = "\<lparr>p_leadId = None, p_campaignId = Some ''c1'', p_callId = None,
               p_status = ''answered'', p_transcript = Some ''please unsubscribe''\<rparr>"
  let ?req2 = "\<lparr>req_body = JObj [(''leadId'', JStr ''L1''), (''campaignId'', JStr ''other''),
                              (''status'', JStr ''answered'')], req_provider = ''fake''\<rparr>"
  let ?p2 = "\<lparr>p_leadId = Some ''L1'', p_campaignId = Some ''other'', p_callId = None,
               p_status = ''answered'', p_transcript = None\<rparr>"
  let ?req3 = "\<lparr>req_body = JObj [(''status'', JStr ''answered'')], req_provider = ''fake''\<rparr>"
  let ?p3 = "\<lparr>p_leadId = None, p_campaignId = None, p_callId = None,
               p_status = ''answered'', p_transcript = None\<rparr>"
  let ?req4 = "\<lparr>req_body = JObj [(''campaignId'', JStr ''ghost''), (''status'', JStr ''answered'')],
                req_provider = ''fake''\<rparr>"
  let ?p4 = "\<lparr>p_leadId = None, p_campaignId = Some ''ghost'', p_callId = None,
               p_status = ''answered'', p_transcript = None\<rparr>"
  have parse3: "callWebhookSchema_safeParse (req_body ?req3) = Some ?p3"
    by (simp add: callWebhookSchema_safeParse_def optionalString_def)
  have parse4: "callWebhookSchema_safeParse (req_body ?req4) = Some ?p4"
    by (simp add: callWebhookSchema_safeParse_def optionalString_def)
  have hit: "hasOptOutIntent ''please unsubscribe''"
    by (simp add: hasOptOutIntent_def phrases_def toLowerCase_def)
  have parse1: "callWebhookSchema_safeParse (req_body ?req1) = Some ?p1"
    by (simp add: callWebhookSchema_safeParse_def optionalString_def)
  have parse2: "callWebhookSchema_safeParse (req_body ?req2) = Some ?p2"
    by (simp add: callWebhookSchema_safeParse_def optionalString_def)
  have found: "lead_findUnique ''L1'' ?w = Some exampleLead"
    by (simp add: lead_findUnique_def exampleLead_def leadDefaults_def)
  have camp: "campaign_findUnique ''c1'' ?w = Some exampleCampaign"
    by (simp add: campaign_findUnique_def exampleCampaign_def)
  have ghost: "\<not> campaignStored ''ghost'' (campaigns ?w) (leads ?w)"
    by (simp add: campaignStored_def exampleCampaign_def exampleLead_def leadDefaults_def)
  have one: "callWebhookHandler exampleEnv ?req1 ?w
     = (Inr \<lparr>statusCode = 200,
             res_body = JObj [(''ok'', JBool True), (''provider'', JStr ''fake''),
                              (''optOutApplied'', JBool False)]\<rparr>,
        emptyWorld\<lparr>campaigns := [exampleCampaign], leads := [exampleLead],
           events := [\<lparr>event_campaignId = ''c1'', event_leadId = None, event_type = E_CALL_RESULT,
                metadata = JObj [(''provider'', JStr ''fake''), (''callId'', JNull),
                  (''status'', JStr ''answered''), (''transcript'', JStr ''please unsubscribe''),
                  (''optOut'', JBool True)]\<rparr>]\<rparr>)"
    using webhook_campaign_resolution
      [where req = ?req1 and payload = ?p1 and cid = "''c1''" and w = ?w and env = exampleEnv
         and campaign = exampleCampaign]
      parse1 hit camp
    by (simp add: orElse_def jsonOfOption_def emptyWorld_def)
  have two: "\<exists>response w' m.
         callWebhookHandler exampleEnv ?req2 ?w = (Inr response, w') \<and>
         events w' =
           [\<lparr>event_campaignId = ''c1'', event_leadId = Some ''L1'',
             event_type = E_CALL_RESULT, metadata = m\<rparr>]"
    using webhook_campaign_resolution
      [where req = ?req2 and payload = ?p2 and lid = "''L1''" and w = ?w and env = exampleEnv
         and lead = exampleLead]
      parse2 found
    by (simp add: exampleLead_def leadDefaults_def emptyWorld_def)
  have three: "callWebhookHandler exampleEnv ?req3 ?w =
        (Inr \<lparr>statusCode = 400,
              res_body = JObj [(''error'',
                JStr ''campaignId is required when leadId is not provided'')]\<rparr>, ?w)"
    using webhook_campaign_resolution
      [where req = ?req3 and payload = ?p3 and w = ?w and env = exampleEnv]
      parse3
    by (simp add: truthy_def)
  have four: "callWebhookHandler exampleEnv ?req4 ?w = (Inl foreignKeyFailed, ?w)"
    using webhook_campaign_resolution
      [where req = ?req4 and payload = ?p4 and cid = "''ghost''" and w = ?w and env = exampleEnv]
      parse4 ghost
    by simp
  from one two three four show ?thesis by blast
qed

text \<open>
  C10 as stated fails for a payload whose \<open>campaignId\<close> is the empty string: the handler
  answers 400 and records no event. It also fails for a payload whose \<open>campaignId\<close> names
  no campaign: the insert of the event is refused, the handler throws and no event is
  recorded.
\<close>

theorem webhook_campaignId_counterexample:
  "callWebhookHandler exampleEnv
      \<lparr>req_body = JObj [(''campaignId'', JStr []), (''status'', JStr ''answered'')],
       req_provider = ''fake''\<rparr> emptyWorld
     = (Inr \<lparr>statusCode = 400,
             res_body = JObj [(''error'',
               JStr ''campaignId is required when leadId is not provided'')]\<rparr>,
        emptyWorld)
   \<and> callWebhookHandler exampleEnv
        \<lparr>req_body = JObj [(''campaignId'', JStr ''ghost''), (''status'', JStr ''answered'')],
         req_provider = ''fake''\<rparr>
        (emptyWorld\<lparr>campaigns := [exampleCampaign]\<rparr>)
     = (Inl (PrismaClientKnownRequestError ''P2003'' ''Foreign key constraint failed''),
        emptyWorld\<lparr>campaigns := [exampleCampaign]\<rparr>)"
  by (simp add: callWebhookHandler_def recordCallResult_def callWebhookSchema_safeParse_def
      optionalString_def truthy_def orElse_def Let_def andThen_def event_create_def
      campaignStored_def foreignKeyFailed_def emptyWorld_def exampleCampaign_def)

end
